(* ===== verification/Prelude.thy ===== *)
theory Prelude
  imports Main "HOL-Library.AList" "HOL-Library.Sublist"
begin

text \<open>
  What every component of the kube-valet model shares: how a Go panic, a Go error value and a
  Go map are represented, 64-bit integer arithmetic, the few functions of the \<^verbatim>\<open>strings\<close> package
  the program calls, and the generic list and association-list lemmas.

  \<^item> A run-time panic, or the process exit of \<^verbatim>\<open>log.Fatal\<close>, aborts the call: a function
    that can panic returns \<open>gopanic + 'a\<close>.
  \<^item> An \<^verbatim>\<open>error\<close> result is an ordinary value of type \<open>goerr option\<close>; \<open>None\<close> is \<^verbatim>\<open>nil\<close>.
  \<^item> A Go map with string keys is \<open>'v gomap\<close>: \<open>None\<close> is the nil map, and the order of
    the association list is the order in which one \<^verbatim>\<open>range\<close> loop visits the entries.
\<close>

named_theorems gomap_simps \<open>lookup after update and deletion of a Go map\<close>

section \<open>Panics and errors\<close>

datatype goerr =
    Conflict           \<comment> \<open>an API error for which \<^verbatim>\<open>IsConflict\<close> holds\<close>
  | NotFound string
  | OtherErr string

datatype gopanic =
    NilMapWrite        \<comment> \<open>assignment to an entry of a nil map\<close>
  | NilDeref           \<comment> \<open>field access through a nil pointer\<close>
  | AlreadyRegistered  \<comment> \<open>a second registration of a Prometheus collector\<close>
  | FatalExit          \<comment> \<open>\<^verbatim>\<open>log.Fatal\<close>: the process exits\<close>
  | BadAssertion       \<comment> \<open>a type assertion that does not hold\<close>
  | PanicError goerr    \<comment> \<open>\<^verbatim>\<open>panic(err)\<close>\<close>
  | CacheSyncTimeout string   \<comment> \<open>the explicit panic when a cache does not sync\<close>

section \<open>64-bit integers\<close>

text \<open>Go's \<^verbatim>\<open>int\<close> and \<^verbatim>\<open>int64\<close> on the 64-bit targets the Makefile builds for.\<close>

definition wrap64 :: "int \<Rightarrow> int" where
  "wrap64 x = signed_take_bit 63 x"

definition fits64 :: "int \<Rightarrow> bool" where
  "fits64 x \<longleftrightarrow> - (2 ^ 63) \<le> x \<and> x < 2 ^ 63"

lemma wrap64_id: "fits64 x \<Longrightarrow> wrap64 x = x"
  unfolding wrap64_def fits64_def by (rule signed_take_bit_int_eq_self) simp_all

lemma fits64_wrap64 [simp]: "fits64 (wrap64 x)"
  unfolding wrap64_def fits64_def
  using signed_take_bit_int_greater_eq_minus_exp [of 63 x] signed_take_bit_int_less_exp [of 63 x]
  by simp

section \<open>Go maps with string keys\<close>

type_synonym 'v gomap = "(string \<times> 'v) list option"

definition mitems :: "'v gomap \<Rightarrow> (string \<times> 'v) list" where
  "mitems m = (case m of None \<Rightarrow> [] | Some al \<Rightarrow> al)"

definition mget :: "'v gomap \<Rightarrow> string \<Rightarrow> 'v option" where
  "mget m k = map_of (mitems m) k"

definition mput :: "'v gomap \<Rightarrow> string \<Rightarrow> 'v \<Rightarrow> gopanic + 'v gomap" where
  "mput m k v = (case m of None \<Rightarrow> Inl NilMapWrite | Some al \<Rightarrow> Inr (Some (AList.update k v al)))"

definition mdel :: "'v gomap \<Rightarrow> string \<Rightarrow> 'v gomap" where
  "mdel m k = map_option (AList.delete k) m"

definition wf_map :: "'v gomap \<Rightarrow> bool" where
  "wf_map m \<longleftrightarrow> distinct (map fst (mitems m))"

lemma update_append_fresh: "k \<notin> fst ` set al \<Longrightarrow> AList.update k v al = al @ [(k, v)]"
  by (induction al) auto

lemma mitems_simps [simp]: "mitems None = []" "mitems (Some al) = al"
  by (simp_all add: mitems_def)

lemma mget_None [simp]: "mget None k = None"
  by (simp add: mget_def)

lemma mget_Some [simp]: "mget (Some al) k = map_of al k"
  by (simp add: mget_def)

lemma mget_mput [gomap_simps]:
  "mput m k v = Inr m' \<Longrightarrow> mget m' k' = (if k' = k then Some v else mget m k')"
  by (cases m) (auto simp: mput_def update_conv')

lemma mget_mdel [gomap_simps]: "mget (mdel m k) k' = (if k' = k then None else mget m k')"
  by (cases m) (simp_all add: mdel_def delete_conv')

lemma mput_panic_iff: "mput m k v = Inl p \<longleftrightarrow> m = None \<and> p = NilMapWrite"
  by (cases m) (auto simp: mput_def)

lemma mput_ok_iff: "(\<exists>m'. mput m k v = Inr m') \<longleftrightarrow> m \<noteq> None"
  by (cases m) (auto simp: mput_def)

lemma wf_map_mput: "wf_map m \<Longrightarrow> mput m k v = Inr m' \<Longrightarrow> wf_map m'"
  by (cases m) (auto simp: wf_map_def mput_def distinct_update)

lemma wf_map_mdel: "wf_map m \<Longrightarrow> wf_map (mdel m k)"
  by (cases m) (auto simp: wf_map_def mdel_def distinct_delete)

lemma mitems_mget: "wf_map m \<Longrightarrow> (k, v) \<in> set (mitems m) \<longleftrightarrow> mget m k = Some v"
  by (simp add: wf_map_def mget_def)

lemma mdel_absent: "mget m k = None \<Longrightarrow> mdel m k = m"
  by (cases m) (simp_all add: mdel_def map_of_eq_None_iff)

section \<open>The strings package\<close>

text \<open>\<^verbatim>\<open>strings.Contains\<close>: is \<open>sub\<close> a substring of \<open>s\<close>?\<close>

fun contains :: "string \<Rightarrow> string \<Rightarrow> bool" where
  "contains [] sub = (sub = [])"
| "contains (c # s) sub = (prefix sub (c # s) \<or> contains s sub)"

lemma contains_sublist: "contains s sub \<longleftrightarrow> sublist sub s"
  by (induction s) (auto simp: sublist_Cons_right)

lemma contains_append: "contains s sub \<Longrightarrow> contains (s @ t) sub" "contains t sub \<Longrightarrow> contains (s @ t) sub"
  by (auto simp: contains_sublist intro: sublist_order.order.trans [of sub s] sublist_order.order.trans [of sub t])

text \<open>\<^verbatim>\<open>strings.HasPrefix\<close> and \<^verbatim>\<open>strings.HasSuffix\<close> are \<open>prefix\<close> and \<open>suffix\<close> of the
  library. \<^verbatim>\<open>strings.Split(s, sep)\<close> for a one-character separator, and \<^verbatim>\<open>strings.SplitN\<close>
  with a positive limit.\<close>

fun splitn :: "nat \<Rightarrow> char \<Rightarrow> string \<Rightarrow> string list" where
  "splitn 0 sep s = []"
| "splitn (Suc 0) sep s = [s]"
| "splitn (Suc (Suc n)) sep s =
     (let h = takeWhile (\<lambda>c. c \<noteq> sep) s; t = dropWhile (\<lambda>c. c \<noteq> sep) s
      in if t = [] then [s] else h # splitn (Suc n) sep (tl t))"

fun split_on :: "char \<Rightarrow> string \<Rightarrow> string list" where
  "split_on sep [] = [[]]"
| "split_on sep (c # cs) =
     (if c = sep then [] # split_on sep cs
      else (case split_on sep cs of [] \<Rightarrow> [[c]] | w # ws \<Rightarrow> (c # w) # ws))"

fun join :: "string \<Rightarrow> string list \<Rightarrow> string" where
  "join sep [] = []"
| "join sep [x] = x"
| "join sep (x # y # ys) = x @ sep @ join sep (y # ys)"

lemma split_on_nonempty [simp]: "split_on sep s \<noteq> []"
  by (induction s) (auto split: list.splits)

lemma split_on_no_sep: "sep \<notin> set s \<Longrightarrow> split_on sep s = [s]"
  by (induction s) auto

lemma split_on_append_sep: "sep \<notin> set s \<Longrightarrow> split_on sep (s @ sep # t) = s # split_on sep t"
  by (induction s) auto

lemma split_on_parts_clean: "w \<in> set (split_on sep s) \<Longrightarrow> sep \<notin> set w"
  by (induction s arbitrary: w) (auto split: list.splits if_splits)

lemma join_split_on: "join [sep] (split_on sep s) = s"
proof (induction s)
  case (Cons c s)
  obtain w ws where "split_on sep s = w # ws"
    by (cases "split_on sep s") auto
  with Cons show ?case by (cases ws) auto
qed simp

lemma split_on_join:
  "xs \<noteq> [] \<Longrightarrow> (\<forall>x \<in> set xs. sep \<notin> set x) \<Longrightarrow> split_on sep (join [sep] xs) = xs"
proof (induction "[sep]" xs rule: join.induct)
  case (2 x)
  then show ?case by (simp add: split_on_no_sep)
next
  case (3 x y ys)
  then show ?case by (simp add: split_on_append_sep)
qed simp

lemma takeWhile_ne_append: "sep \<notin> set a \<Longrightarrow> takeWhile (\<lambda>c. c \<noteq> sep) (a @ sep # b) = a"
  by (induction a) auto

lemma dropWhile_ne_append: "sep \<notin> set a \<Longrightarrow> dropWhile (\<lambda>c. c \<noteq> sep) (a @ sep # b) = sep # b"
  by (induction a) auto

lemma splitn_append_sep:
  "sep \<notin> set a \<Longrightarrow> splitn (Suc (Suc n)) sep (a @ sep # b) = a # splitn (Suc n) sep b"
  by (simp add: takeWhile_ne_append dropWhile_ne_append)

lemma splitn_no_sep: "sep \<notin> set a \<Longrightarrow> splitn (Suc n) sep a = [a]"
  by (cases n) (auto simp: dropWhile_eq_Nil_conv Let_def)

lemma length_splitn: "0 < n \<Longrightarrow> splitn n sep s \<noteq> [] \<and> length (splitn n sep s) \<le> n"
  by (induction n sep s rule: splitn.induct) (auto simp: Let_def)

lemma join_splitn: "0 < n \<Longrightarrow> join [sep] (splitn n sep s) = s"
proof (induction n sep s rule: splitn.induct)
  case (3 n sep s)
  show ?case
  proof (cases "dropWhile (\<lambda>c. c \<noteq> sep) s")
    case Nil
    then show ?thesis by simp
  next
    case (Cons c t)
    have c: "c = sep"
      using hd_dropWhile [of "\<lambda>c. c \<noteq> sep" s] Cons by simp
    have ne: "splitn (Suc n) sep t \<noteq> []"
      using length_splitn [of "Suc n" sep t] by simp
    then obtain w ws where w: "splitn (Suc n) sep t = w # ws"
      by (cases "splitn (Suc n) sep t") auto
    have "join [sep] (splitn (Suc n) sep t) = t"
      using 3 Cons by simp
    with w have "join [sep] (splitn (Suc (Suc n)) sep s) = takeWhile (\<lambda>c. c \<noteq> sep) s @ sep # t"
      using Cons by simp
    also have "\<dots> = s"
      using takeWhile_dropWhile_id [of "\<lambda>c. c \<noteq> sep" s] Cons c by simp
    finally show ?thesis .
  qed
qed simp_all

section \<open>Generic lemmas\<close>

text \<open>A loop that returns true at the first entry satisfying \<open>P\<close>, as the source's \<^verbatim>\<open>range\<close>
  loops with an early return do.\<close>

fun any_in :: "('a \<Rightarrow> bool) \<Rightarrow> 'a list \<Rightarrow> bool" where
  "any_in P [] = False"
| "any_in P (x # xs) = (if P x then True else any_in P xs)"

lemma any_in_ex [simp]: "any_in P xs \<longleftrightarrow> (\<exists>x \<in> set xs. P x)"
  by (induction xs) auto

lemma filter_filter_ne:
  "filter (\<lambda>x. x \<noteq> a) (filter P xs) = filter (\<lambda>x. P x \<and> x \<noteq> a) xs"
  by (induction xs) auto

lemma map_of_perm:
  "distinct (map fst xs) \<Longrightarrow> distinct (map fst ys) \<Longrightarrow> set xs = set ys \<Longrightarrow> map_of xs = map_of ys"
  by (metis map_of_inject_set)

end
