(* ===== verification/ApiTypes.thy ===== *)
theory ApiTypes
  imports Prelude
begin

text \<open>
  The custom resources of \<^verbatim>\<open>pkg/apis/assignments/v1alpha1\<close> (\<^verbatim>\<open>types.go\<close>, \<^verbatim>\<open>register.go\<close>) and the
  fields of the upstream node and pod objects that the program reads or writes. A Go struct is a
  record, a pointer field is an \<open>option\<close>, a string-typed enumeration stays a string because users
  can store any value in it, and \<^verbatim>\<open>int\<close> fields are \<open>int\<close> (64-bit values; arithmetic on
  them is wrapped where the program computes). A resource quantity is modelled by the \<^verbatim>\<open>int64\<close>
  the program reads from it (bytes of memory, thousandths of a CPU).
\<close>

section \<open>Upstream objects\<close>

record objectMeta =
  om_Name :: string
  om_Namespace :: string
  om_Labels :: "string gomap"
  om_Finalizers :: "string list"
  om_DeletionTimestamp :: "int option"
  om_ResourceVersion :: string
  om_UID :: string

record taint =
  taint_Key :: string
  taint_Value :: string
  taint_Effect :: string

record node =
  n_meta :: objectMeta
  n_Taints :: "taint list"
  n_Unschedulable :: bool
  n_Conditions :: "(string \<times> string) list"   \<comment> \<open>type and status of each condition\<close>
  n_AllocMemory :: int
  n_AllocCPU :: int

record nodeSelectorRequirement =
  nsr_Key :: string
  nsr_Operator :: string
  nsr_Values :: "string list"

record nodeSelectorTerm =
  nst_MatchExpressions :: "nodeSelectorRequirement list"

record preferredSchedulingTerm =
  pst_Weight :: int
  pst_Preference :: nodeSelectorTerm

record nodeAffinity =
  naff_Required :: "nodeSelectorTerm list option"
  naff_Preferred :: "preferredSchedulingTerm list"

record labelSelectorRequirement =
  lsr_Key :: string
  lsr_Operator :: string
  lsr_Values :: "string list"

record podAffinityTerm =
  pat_MatchExpressions :: "labelSelectorRequirement list"
  pat_TopologyKey :: string

record podAffinity =
  paff_Required :: "podAffinityTerm list"
  paff_Preferred :: "(int \<times> podAffinityTerm) list"

record affinity =
  aff_NodeAffinity :: "nodeAffinity option"
  aff_PodAffinity :: "podAffinity option"
  aff_PodAntiAffinity :: "podAffinity option"

record toleration =
  tol_Key :: string
  tol_Operator :: string
  tol_Value :: string
  tol_Effect :: string

record container =
  c_MemoryRequest :: int
  c_CPURequest :: int

record pod =
  p_meta :: objectMeta
  p_NodeSelector :: "string gomap"
  p_Affinity :: "affinity option"
  p_Tolerations :: "toleration list"
  p_NodeName :: string
  p_Containers :: "container list"
  p_Phase :: string

definition TaintEffectNoSchedule :: string where "TaintEffectNoSchedule = ''NoSchedule''"
definition TaintEffectPreferNoSchedule :: string where "TaintEffectPreferNoSchedule = ''PreferNoSchedule''"
definition TaintEffectNoExecute :: string where "TaintEffectNoExecute = ''NoExecute''"

abbreviation node_Name :: "node \<Rightarrow> string" where "node_Name n \<equiv> om_Name (n_meta n)"
abbreviation node_Labels :: "node \<Rightarrow> string gomap" where "node_Labels n \<equiv> om_Labels (n_meta n)"
abbreviation pod_Labels :: "pod \<Rightarrow> string gomap" where "pod_Labels p \<equiv> om_Labels (p_meta p)"

definition set_node_Labels :: "node \<Rightarrow> string gomap \<Rightarrow> node" where
  "set_node_Labels n m = n\<lparr>n_meta := (n_meta n)\<lparr>om_Labels := m\<rparr>\<rparr>"

lemma set_node_Labels_simps [simp]:
  "node_Labels (set_node_Labels n m) = m"
  "node_Name (set_node_Labels n m) = node_Name n"
  "n_Taints (set_node_Labels n m) = n_Taints n"
  "n_Unschedulable (set_node_Labels n m) = n_Unschedulable n"
  "n_Conditions (set_node_Labels n m) = n_Conditions n"
  "n_AllocMemory (set_node_Labels n m) = n_AllocMemory n"
  "n_AllocCPU (set_node_Labels n m) = n_AllocCPU n"
  "set_node_Labels (set_node_Labels n m) m' = set_node_Labels n m'"
  "set_node_Labels n (node_Labels n) = n"
  by (simp_all add: set_node_Labels_def)

lemma set_node_Labels_Taints [simp]:
  "set_node_Labels (n\<lparr>n_Taints := ts\<rparr>) m = (set_node_Labels n m)\<lparr>n_Taints := ts\<rparr>"
  by (simp add: set_node_Labels_def)

section \<open>NodeAssignmentGroup\<close>

definition NodeAssignmentTaintEffectDefault :: string where
  "NodeAssignmentTaintEffectDefault = TaintEffectNoSchedule"
definition NodeAssignmentTaintEffectNotSpecified :: string where
  "NodeAssignmentTaintEffectNotSpecified = ''''"

definition NodeAssignmentModeLabelOnly :: string where
  "NodeAssignmentModeLabelOnly = ''LabelOnly''"
definition NodeAssignmentModeDefault :: string where
  "NodeAssignmentModeDefault = ''LabelOnly''"
definition NodeAssignmentModeLabelAndTaint :: string where
  "NodeAssignmentModeLabelAndTaint = ''LabelAndTaint''"
definition NodeAssignmentModeUndefined :: string where
  "NodeAssignmentModeUndefined = ''''"

definition NodeAssignmentSchedulingModePackLeft :: string where
  "NodeAssignmentSchedulingModePackLeft = ''PackLeft''"

record packLeftScheduling =
  pl_FullPercent :: "int option"
  pl_NumAvoid :: int
  pl_PercentAvoid :: "int option"

record nodeAssignment =
  na_Name :: string
  na_Mode :: string
  na_TaintEffect :: string
  na_NumDesired :: int
  na_PercentDesired :: int
  na_SchedulingMode :: string
  na_PackLeft :: "packLeftScheduling option"

record nodeAssignmentGroupSpec =
  nags_TargetLabels :: "(string \<times> string) list"
  nags_DefaultAssignment :: "nodeAssignment option"
  nags_Assignments :: "nodeAssignment list"

record nodeAssignmentGroup =
  nag_meta :: objectMeta
  nag_Spec :: nodeAssignmentGroupSpec
  nag_NumMatched :: int

type_synonym nag = nodeAssignmentGroup

abbreviation nag_Name :: "nag \<Rightarrow> string" where "nag_Name g \<equiv> om_Name (nag_meta g)"
abbreviation nag_TargetLabels :: "nag \<Rightarrow> (string \<times> string) list" where
  "nag_TargetLabels g \<equiv> nags_TargetLabels (nag_Spec g)"
abbreviation nag_Default :: "nag \<Rightarrow> nodeAssignment option" where
  "nag_Default g \<equiv> nags_DefaultAssignment (nag_Spec g)"
abbreviation nag_Assignments :: "nag \<Rightarrow> nodeAssignment list" where
  "nag_Assignments g \<equiv> nags_Assignments (nag_Spec g)"

text \<open>The status: the only field in use is \<open>nag_NumMatched\<close>. The states of a group are declared and never stored.\<close>

type_synonym nodeAssignmentGroupState = string

definition NodeAssignmentGroupStateSatisfied :: nodeAssignmentGroupState where
  "NodeAssignmentGroupStateSatisfied = ''Satisfied''"
definition NodeAssignmentGroupStateNotSatisfied :: nodeAssignmentGroupState where
  "NodeAssignmentGroupStateNotSatisfied = ''NotSatisfied''"
definition NodeAssignmentGroupStateError :: nodeAssignmentGroupState where
  "NodeAssignmentGroupStateError = ''Error''"

section \<open>PodAssignmentRule and ClusterPodAssignmentRule\<close>

definition MergeStrategyDefault :: string where "MergeStrategyDefault = ''OverwriteAll''"
definition MergeStrategyOverwriteAll :: string where "MergeStrategyOverwriteAll = ''OverwriteAll''"
definition MergeStrategyUndefined :: string where "MergeStrategyUndefined = ''''"

record podAssignmentRuleScheduling =
  prs_MergeStrategy :: string
  prs_NodeSelector :: "string gomap"
  prs_Affinity :: "affinity option"
  prs_Tolerations :: "toleration list"

record podAssignmentRuleSpec =
  par_TargetLabels :: "(string \<times> string) list"
  par_Scheduling :: podAssignmentRuleScheduling

record podAssignmentRule =
  par_meta :: objectMeta
  par_Spec :: podAssignmentRuleSpec

record clusterPodAssignmentRule =
  cpar_meta :: objectMeta
  cpar_Spec :: podAssignmentRuleSpec

section \<open>The API group\<close>

definition Domain_name :: string where "Domain_name = ''kube-valet.io''"
definition GroupName :: string where "GroupName = ''assignments.kube-valet.io''"

text \<open>The label and taint keys of a group: \<^verbatim>\<open>"nag." + GroupName + "/" + name\<close> and
  \<^verbatim>\<open>"nag.packleft.scheduling." + Domain + "/" + name\<close>.\<close>

definition assign_key :: "string \<Rightarrow> string" where
  "assign_key name = ''nag.'' @ GroupName @ ''/'' @ name"

definition packleft_key :: "string \<Rightarrow> string" where
  "packleft_key name = ''nag.packleft.scheduling.'' @ Domain_name @ ''/'' @ name"

definition ProtectedNodeLabelKey :: string where
  "ProtectedNodeLabelKey = ''nags.kube-valet.io/protected''"
definition ProtectedLabelValue :: string where
  "ProtectedLabelValue = ''true''"

lemma assign_key_inject [simp]: "assign_key a = assign_key b \<longleftrightarrow> a = b"
  by (simp add: assign_key_def)

lemma packleft_key_inject [simp]: "packleft_key a = packleft_key b \<longleftrightarrow> a = b"
  by (simp add: packleft_key_def)

lemma keys_differ [simp]:
  "assign_key a \<noteq> packleft_key b" "packleft_key b \<noteq> assign_key a"
  "assign_key a \<noteq> ProtectedNodeLabelKey" "ProtectedNodeLabelKey \<noteq> assign_key a"
  "packleft_key a \<noteq> ProtectedNodeLabelKey" "ProtectedNodeLabelKey \<noteq> packleft_key a"
  by (simp_all add: assign_key_def packleft_key_def ProtectedNodeLabelKey_def GroupName_def
      Domain_name_def)

lemma keys_are_valet [simp]:
  "contains (assign_key a) ''kube-valet.io''"
  "contains (packleft_key a) ''kube-valet.io''"
  "contains ProtectedNodeLabelKey ''kube-valet.io''"
proof -
  have "contains GroupName ''kube-valet.io''" "contains Domain_name ''kube-valet.io''"
    by (simp_all add: GroupName_def Domain_name_def)
  then show "contains (assign_key a) ''kube-valet.io''" "contains (packleft_key a) ''kube-valet.io''"
    by (simp_all only: assign_key_def packleft_key_def contains_append)
  show "contains ProtectedNodeLabelKey ''kube-valet.io''"
    by (simp add: ProtectedNodeLabelKey_def)
qed

section \<open>Concrete objects for the witnesses\<close>

definition demo_meta :: "string \<Rightarrow> string gomap \<Rightarrow> objectMeta" where
  "demo_meta nm ls = \<lparr>om_Name = nm, om_Namespace = '''', om_Labels = ls, om_Finalizers = [],
     om_DeletionTimestamp = None, om_ResourceVersion = ''1'', om_UID = ''u''\<rparr>"

definition demo_node :: "string \<Rightarrow> (string \<times> string) list \<Rightarrow> taint list \<Rightarrow> node" where
  "demo_node nm ls ts = \<lparr>n_meta = demo_meta nm (Some ls), n_Taints = ts, n_Unschedulable = False,
     n_Conditions = [(''Ready'', ''True'')], n_AllocMemory = 1000, n_AllocCPU = 1000\<rparr>"

definition demo_assignment :: "string \<Rightarrow> string \<Rightarrow> nodeAssignment" where
  "demo_assignment nm mode = \<lparr>na_Name = nm, na_Mode = mode, na_TaintEffect = '''', na_NumDesired = 1,
     na_PercentDesired = 0, na_SchedulingMode = '''', na_PackLeft = None\<rparr>"

definition demo_nag :: "nodeAssignment list \<Rightarrow> nodeAssignment option \<Rightarrow> nag" where
  "demo_nag asgs dflt = \<lparr>nag_meta = demo_meta ''io'' None,
     nag_Spec = \<lparr>nags_TargetLabels = [], nags_DefaultAssignment = dflt, nags_Assignments = asgs\<rparr>,
     nag_NumMatched = 0\<rparr>"

definition demo_pod :: "string \<Rightarrow> (string \<times> string) list \<Rightarrow> pod" where
  "demo_pod ns ls = \<lparr>p_meta = (demo_meta ''pod'' (Some ls))\<lparr>om_Namespace := ns\<rparr>,
     p_NodeSelector = None, p_Affinity = None, p_Tolerations = [], p_NodeName = '''',
     p_Containers = [], p_Phase = ''Pending''\<rparr>"

lemmas demo_defs = demo_meta_def demo_node_def demo_assignment_def demo_nag_def demo_pod_def

end
