(* ===== verification/Utils.thy ===== *)
theory Utils
  imports ApiTypes
begin

text \<open>
  \<^verbatim>\<open>pkg/utils/utils.go\<close>: the empty-patch test, the comparison of targetable labels that decides
  whether a node update re-queues the groups, and \<^verbatim>\<open>FilterValues\<close>.
\<close>

text \<open>A JSON patch operation; its value is one of the three things the program puts there.\<close>

datatype patchValue =
    NodeSelectorV "string gomap"
  | AffinityV affinity
  | TolerationsV "toleration list"

record jsonPatchOperation =
  jp_Op :: string
  jp_Path :: string
  jp_Value :: patchValue

definition IsEmptyPatch :: "char list \<Rightarrow> bool" where
  "IsEmptyPatch b = (if length b = 2 \<or> length b = 0 then True else False)"

definition valet_key :: "string \<Rightarrow> bool" where
  "valet_key k = contains k ''kube-valet.io''"

fun scan_labels :: "string gomap \<Rightarrow> (string \<times> string) list \<Rightarrow> bool" where
  "scan_labels m [] = False"
| "scan_labels m ((k, v1) # rest) =
     (if valet_key k then scan_labels m rest
      else case mget m k of
             None \<Rightarrow> True
           | Some v2 \<Rightarrow> if v1 \<noteq> v2 then True else scan_labels m rest)"

definition TargetableLabelsAreDifferent :: "string gomap \<Rightarrow> string gomap \<Rightarrow> bool" where
  "TargetableLabelsAreDifferent m1 m2 =
     (if scan_labels m2 (mitems m1) then True
      else if scan_labels m1 (mitems m2) then True else False)"

definition NodeTargetingHasChanged :: "node \<Rightarrow> node \<Rightarrow> bool" where
  "NodeTargetingHasChanged oldNode newNode =
     (if TargetableLabelsAreDifferent (node_Labels oldNode) (node_Labels newNode) then True else False)"

fun FilterValues :: "string list \<Rightarrow> (string \<Rightarrow> bool) \<Rightarrow> string list" where
  "FilterValues [] f = []"
| "FilterValues (v # vs) f = (if f v then v # FilterValues vs f else FilterValues vs f)"

lemma FilterValues_filter [simp]: "FilterValues vs f = filter f vs"
  by (induction vs) auto

lemma scan_labels_iff:
  "scan_labels m al \<longleftrightarrow> (\<exists>(k, v) \<in> set al. \<not> valet_key k \<and> mget m k \<noteq> Some v)"
  by (induction m al rule: scan_labels.induct) (auto split: option.splits)

text \<open>The part of a label map that targeting can depend on.\<close>

definition targetable :: "string gomap \<Rightarrow> string \<Rightarrow> string option" where
  "targetable m k = (if valet_key k then None else mget m k)"

lemma targetable_agree:
  "(\<And>k. \<not> valet_key k \<Longrightarrow> mget m k = mget m' k) \<Longrightarrow> targetable m = targetable m'"
  by (auto simp: targetable_def)

lemma scan_labels_targetable:
  assumes "wf_map m1"
  shows "scan_labels m2 (mitems m1) \<longleftrightarrow> (\<exists>k v. targetable m1 k = Some v \<and> targetable m2 k \<noteq> Some v)"
proof -
  have "scan_labels m2 (mitems m1) \<longleftrightarrow>
    (\<exists>k v. (k, v) \<in> set (mitems m1) \<and> \<not> valet_key k \<and> mget m2 k \<noteq> Some v)"
    by (auto simp: scan_labels_iff)
  then show ?thesis
    by (simp add: mitems_mget [OF assms] targetable_def) blast
qed

lemma scan_difference:
  assumes "wf_map m1" and "wf_map m2"
  shows "TargetableLabelsAreDifferent m1 m2 \<longleftrightarrow> targetable m1 \<noteq> targetable m2"
proof -
  have "targetable m1 \<noteq> targetable m2 \<longleftrightarrow>
    (\<exists>k v. targetable m1 k = Some v \<and> targetable m2 k \<noteq> Some v) \<or>
    (\<exists>k v. targetable m2 k = Some v \<and> targetable m1 k \<noteq> Some v)" (is "?L \<longleftrightarrow> ?R")
  proof
    assume ?L
    then obtain k where "targetable m1 k \<noteq> targetable m2 k" by auto
    then show ?R by (cases "targetable m1 k"; cases "targetable m2 k") auto
  qed auto
  moreover have "TargetableLabelsAreDifferent m1 m2 \<longleftrightarrow>
    scan_labels m2 (mitems m1) \<or> scan_labels m1 (mitems m2)"
    by (simp add: TargetableLabelsAreDifferent_def)
  ultimately show ?thesis
    by (simp only: scan_labels_targetable [OF assms(1)] scan_labels_targetable [OF assms(2)])
qed

text \<open>For well-formed maps the two loops compute whether the targetable parts differ. The
  statement is independent of the order in which the maps are visited.\<close>

theorem TargetableLabelsAreDifferent_iff:
  assumes "wf_map m1" and "wf_map m2"
  shows "TargetableLabelsAreDifferent m1 m2 \<longleftrightarrow> targetable m1 \<noteq> targetable m2"
  using assms by (rule scan_difference)

theorem TargetableLabelsAreDifferent_iff_witness:
  "wf_map (Some [(''zone'', ''a'')]) \<and> wf_map (Some [(''zone'', ''b'')]) \<and>
   TargetableLabelsAreDifferent (Some [(''zone'', ''a'')]) (Some [(''zone'', ''b'')]) =
     (targetable (Some [(''zone'', ''a'')]) \<noteq> targetable (Some [(''zone'', ''b'')]))"
proof -
  have w: "wf_map (Some [(''zone'', ''a'')])" "wf_map (Some [(''zone'', ''b'')])"
    by (simp_all add: wf_map_def)
  show ?thesis using w TargetableLabelsAreDifferent_iff [OF w] by simp
qed

end
