(* ===== verification/Helpers.thy ===== *)
theory Helpers
  imports Utils
begin

text \<open>
  \<^verbatim>\<open>pkg/apis/assignments/v1alpha1/helpers.go\<close>: which nodes a group targets, how an assignment is
  written to a node as a label and a taint and removed again, and how a pod rule is turned into
  JSON patch operations. \<^verbatim>\<open>Taint.MatchTaint\<close> belongs to the upstream library: it is the argument
  \<open>match\<close>, and \<open>match_taint_law\<close> is its documented behaviour.
\<close>

section \<open>Taint deletion\<close>

datatype taintError = TaintNotFound taint

type_synonym taint_match = "taint \<Rightarrow> taint \<Rightarrow> bool"

definition match_taint_law :: "taint_match \<Rightarrow> bool" where
  "match_taint_law match \<longleftrightarrow>
     (\<forall>a b. match a b \<longleftrightarrow> taint_Key a = taint_Key b \<and> taint_Effect a = taint_Effect b)"

fun deleteTaintsByKey :: "taint list \<Rightarrow> string \<Rightarrow> taint list \<times> bool" where
  "deleteTaintsByKey [] taintKey = ([], False)"
| "deleteTaintsByKey (t # ts) taintKey =
     (let (newTaints, deleted) = deleteTaintsByKey ts taintKey in
      if taintKey = taint_Key t then (newTaints, True) else (t # newTaints, deleted))"

fun deleteTaint :: "taint_match \<Rightarrow> taint list \<Rightarrow> taint \<Rightarrow> taint list \<times> bool" where
  "deleteTaint match [] taintToDelete = ([], False)"
| "deleteTaint match (t # ts) taintToDelete =
     (let (newTaints, deleted) = deleteTaint match ts taintToDelete in
      if match taintToDelete t then (newTaints, True) else (t # newTaints, deleted))"

text \<open>\<^verbatim>\<open>deleteTaints\<close> threads the taint list, the errors and the last \<^verbatim>\<open>removed\<close> flag.\<close>

fun deleteTaints_loop ::
    "taint_match \<Rightarrow> taint list \<Rightarrow> taint list \<Rightarrow> taintError list \<Rightarrow> bool
     \<Rightarrow> taintError list \<times> bool \<times> taint list" where
  "deleteTaints_loop match [] newTaints allErrs removed = (allErrs, removed, newTaints)"
| "deleteTaints_loop match (t # ts) newTaints allErrs removed =
     (let (nt, r) = (if length (taint_Effect t) > 0 then deleteTaint match newTaints t
                     else deleteTaintsByKey newTaints (taint_Key t))
      in deleteTaints_loop match ts nt (if r then allErrs else allErrs @ [TaintNotFound t]) r)"

definition deleteTaints ::
    "taint_match \<Rightarrow> taint list \<Rightarrow> taint list \<Rightarrow> taintError list \<times> bool \<times> taint list" where
  "deleteTaints match taintsToRemove newTaints =
     deleteTaints_loop match taintsToRemove newTaints [] False"

lemma deleteTaintsByKey_eq:
  "deleteTaintsByKey ts key = (filter (\<lambda>t. taint_Key t \<noteq> key) ts, \<exists>t \<in> set ts. taint_Key t = key)"
  by (induction ts key rule: deleteTaintsByKey.induct) auto

lemma deleteTaint_eq:
  "deleteTaint match ts d = (filter (\<lambda>t. \<not> match d t) ts, \<exists>t \<in> set ts. match d t)"
  by (induction match ts d rule: deleteTaint.induct) auto

text \<open>Does \<^verbatim>\<open>deleteTaints\<close> take \<open>t\<close> out when asked to remove \<open>r\<close>?\<close>

definition removes :: "taint_match \<Rightarrow> taint \<Rightarrow> taint \<Rightarrow> bool" where
  "removes match r t = (if taint_Effect r \<noteq> [] then match r t else taint_Key t = taint_Key r)"

lemma deleteTaints_loop_taints:
  "snd (snd (deleteTaints_loop match rs ts errs b)) =
     filter (\<lambda>t. \<forall>r \<in> set rs. \<not> removes match r t) ts"
proof (induction match rs ts errs b rule: deleteTaints_loop.induct)
  case (2 match r rs ts errs b)
  have step: "fst (if length (taint_Effect r) > 0 then deleteTaint match ts r
                   else deleteTaintsByKey ts (taint_Key r)) = filter (\<lambda>t. \<not> removes match r t) ts"
    by (simp add: deleteTaint_eq deleteTaintsByKey_eq removes_def)
  obtain nt d where nd: "(if length (taint_Effect r) > 0 then deleteTaint match ts r
                   else deleteTaintsByKey ts (taint_Key r)) = (nt, d)" by force
  with step have "nt = filter (\<lambda>t. \<not> removes match r t) ts" by simp
  then show ?case
    using 2 [OF nd [symmetric] refl] nd by (simp add: Let_def conj_commute)
qed simp

lemma deleteTaints_taints:
  "snd (snd (deleteTaints match rs ts)) = filter (\<lambda>t. \<forall>r \<in> set rs. \<not> removes match r t) ts"
  by (simp add: deleteTaints_def deleteTaints_loop_taints)

section \<open>Targeting\<close>

fun match_labels :: "(string \<times> string) list \<Rightarrow> string gomap \<Rightarrow> bool \<Rightarrow> bool" where
  "match_labels [] m matched = matched"
| "match_labels ((k, v) # rest) m matched =
     (case mget m k of
        Some val \<Rightarrow> if v = val then match_labels rest m True else False
      | None \<Rightarrow> False)"

definition TargetsNode :: "nag \<Rightarrow> node \<Rightarrow> bool" where
  "TargetsNode nag node =
     (case mget (node_Labels node) ProtectedNodeLabelKey of
        Some val \<Rightarrow> if val = ProtectedLabelValue then False
                    else match_labels (nag_TargetLabels nag) (node_Labels node) True
      | None \<Rightarrow> match_labels (nag_TargetLabels nag) (node_Labels node) True)"

definition Spec_TargetsPod :: "podAssignmentRuleSpec \<Rightarrow> pod \<Rightarrow> bool" where
  "Spec_TargetsPod s pod = match_labels (par_TargetLabels s) (pod_Labels pod) True"

definition Par_TargetsPod :: "podAssignmentRule \<Rightarrow> pod \<Rightarrow> bool" where
  "Par_TargetsPod r pod = Spec_TargetsPod (par_Spec r) pod"

definition Cpar_TargetsPod :: "clusterPodAssignmentRule \<Rightarrow> pod \<Rightarrow> bool" where
  "Cpar_TargetsPod r pod = Spec_TargetsPod (cpar_Spec r) pod"

lemma match_labels_iff [simp]:
  "match_labels al m b \<longleftrightarrow> (\<forall>(k, v) \<in> set al. mget m k = Some v) \<and> (al = [] \<longrightarrow> b)"
  by (induction al m b rule: match_labels.induct) (auto split: option.splits)

definition node_protected :: "node \<Rightarrow> bool" where
  "node_protected n \<longleftrightarrow> mget (node_Labels n) ProtectedNodeLabelKey = Some ProtectedLabelValue"

text \<open>A group targets a node exactly if the node is not protected and carries every target
  label with its value. The answer does not depend on the order of the map iteration, and a
  group without target labels targets every unprotected node.\<close>

theorem TargetsNode_iff:
  "TargetsNode nag n \<longleftrightarrow>
     \<not> node_protected n \<and> (\<forall>(k, v) \<in> set (nag_TargetLabels nag). mget (node_Labels n) k = Some v)"
  by (auto simp: TargetsNode_def node_protected_def split: option.splits)

theorem TargetsNode_iff_witness:
  "TargetsNode (demo_nag [] None) (demo_node ''n1'' [] [])"
  using TargetsNode_iff [of "demo_nag [] None" "demo_node ''n1'' [] []"]
  by (simp add: node_protected_def demo_defs)

section \<open>Assigning and unassigning a node\<close>

definition GetAssignment :: "nag \<Rightarrow> node \<Rightarrow> string option" where
  "GetAssignment nag node = mget (node_Labels node) (assign_key (nag_Name nag))"

definition SetLabel :: "nag \<Rightarrow> node \<Rightarrow> nodeAssignment \<Rightarrow> gopanic + node" where
  "SetLabel nag node na =
     (case mput (node_Labels node) (assign_key (nag_Name nag)) (na_Name na) of
        Inl p \<Rightarrow> Inl p
      | Inr m \<Rightarrow> Inr (set_node_Labels node m))"

definition RemoveLabel :: "nag \<Rightarrow> node \<Rightarrow> node" where
  "RemoveLabel nag node =
     set_node_Labels node
       (mdel (mdel (node_Labels node) (assign_key (nag_Name nag))) (packleft_key (nag_Name nag)))"

definition group_taints :: "nag \<Rightarrow> taint list" where
  "group_taints nag =
     (let k = assign_key (nag_Name nag); plk = packleft_key (nag_Name nag) in
      [\<lparr>taint_Key = k, taint_Value = '''', taint_Effect = TaintEffectNoSchedule\<rparr>,
       \<lparr>taint_Key = k, taint_Value = '''', taint_Effect = TaintEffectPreferNoSchedule\<rparr>,
       \<lparr>taint_Key = k, taint_Value = '''', taint_Effect = TaintEffectNoExecute\<rparr>,
       \<lparr>taint_Key = plk, taint_Value = '''', taint_Effect = TaintEffectNoSchedule\<rparr>,
       \<lparr>taint_Key = plk, taint_Value = '''', taint_Effect = TaintEffectPreferNoSchedule\<rparr>,
       \<lparr>taint_Key = plk, taint_Value = '''', taint_Effect = TaintEffectNoExecute\<rparr>])"

definition RemoveTaint :: "taint_match \<Rightarrow> nag \<Rightarrow> node \<Rightarrow> taintError list \<times> node" where
  "RemoveTaint match nag node =
     (case deleteTaints match (group_taints nag) (n_Taints node) of
        (allErrs, _, newTaints) \<Rightarrow> (allErrs, node\<lparr>n_Taints := newTaints\<rparr>))"

text \<open>\<^verbatim>\<open>SetTaint\<close> and \<^verbatim>\<open>Assign\<close> write defaults back through the assignment pointer: both return the
  assignment as they leave it.\<close>

definition SetTaint :: "nag \<Rightarrow> node \<Rightarrow> nodeAssignment \<Rightarrow> node \<times> nodeAssignment" where
  "SetTaint nag node na =
     (let na' = (if na_TaintEffect na = NodeAssignmentTaintEffectNotSpecified
                 then na\<lparr>na_TaintEffect := NodeAssignmentTaintEffectDefault\<rparr> else na)
      in (node\<lparr>n_Taints := n_Taints node @
            [\<lparr>taint_Key = assign_key (nag_Name nag), taint_Value = na_Name na',
              taint_Effect = na_TaintEffect na'\<rparr>]\<rparr>, na'))"

definition Assign :: "nag \<Rightarrow> node \<Rightarrow> nodeAssignment \<Rightarrow> gopanic + (node \<times> nodeAssignment)" where
  "Assign nag node na0 =
     (let na = (if na_Mode na0 = NodeAssignmentModeUndefined
                then na0\<lparr>na_Mode := NodeAssignmentModeDefault\<rparr> else na0)
      in if na_Mode na = NodeAssignmentModeLabelAndTaint then
           (case SetLabel nag node na of Inl p \<Rightarrow> Inl p | Inr n \<Rightarrow> Inr (SetTaint nag n na))
         else if na_Mode na = NodeAssignmentModeLabelOnly then
           (case SetLabel nag node na of Inl p \<Rightarrow> Inl p | Inr n \<Rightarrow> Inr (n, na))
         else Inr (node, na))"

definition Unassign :: "taint_match \<Rightarrow> nag \<Rightarrow> node \<Rightarrow> taintError list \<times> node" where
  "Unassign match nag node = RemoveTaint match nag (RemoveLabel nag node)"

text \<open>The taints of a group: one of its two keys and one of the three effects Kubernetes knows.\<close>

definition group_taint :: "nag \<Rightarrow> taint \<Rightarrow> bool" where
  "group_taint nag t \<longleftrightarrow>
     taint_Key t \<in> {assign_key (nag_Name nag), packleft_key (nag_Name nag)} \<and>
     taint_Effect t \<in> {TaintEffectNoSchedule, TaintEffectPreferNoSchedule, TaintEffectNoExecute}"

definition group_key :: "nag \<Rightarrow> string \<Rightarrow> bool" where
  "group_key nag k \<longleftrightarrow> k = assign_key (nag_Name nag) \<or> k = packleft_key (nag_Name nag)"

lemmas taint_effect_defs =
  TaintEffectNoSchedule_def TaintEffectPreferNoSchedule_def TaintEffectNoExecute_def

lemmas mode_defs = NodeAssignmentModeLabelOnly_def NodeAssignmentModeDefault_def
  NodeAssignmentModeLabelAndTaint_def NodeAssignmentModeUndefined_def

lemma removes_six:
  assumes "match_taint_law match" and "e1 \<noteq> []" and "e2 \<noteq> []" and "e3 \<noteq> []"
  shows "(\<forall>r \<in> set [\<lparr>taint_Key = k, taint_Value = v, taint_Effect = e1\<rparr>, \<lparr>taint_Key = k, taint_Value = v, taint_Effect = e2\<rparr>,
      \<lparr>taint_Key = k, taint_Value = v, taint_Effect = e3\<rparr>, \<lparr>taint_Key = k', taint_Value = v, taint_Effect = e1\<rparr>,
      \<lparr>taint_Key = k', taint_Value = v, taint_Effect = e2\<rparr>, \<lparr>taint_Key = k', taint_Value = v, taint_Effect = e3\<rparr>].
      \<not> removes match r t) \<longleftrightarrow> \<not> (taint_Key t \<in> {k, k'} \<and> taint_Effect t \<in> {e1, e2, e3})"
  using assms by (simp add: removes_def match_taint_law_def) blast

lemma group_taints_removes:
  assumes "match_taint_law match"
  shows "(\<forall>r \<in> set (group_taints nag). \<not> removes match r t) \<longleftrightarrow> \<not> group_taint nag t"
  unfolding group_taints_def group_taint_def Let_def
  by (rule removes_six [OF assms]) (simp_all add: taint_effect_defs)

lemma Unassign_taints:
  "match_taint_law match \<Longrightarrow>
     n_Taints (snd (Unassign match nag n)) = filter (\<lambda>t. \<not> group_taint nag t) (n_Taints n)"
  using deleteTaints_taints [of match "group_taints nag" "n_Taints n"]
  by (auto simp: Unassign_def RemoveTaint_def RemoveLabel_def group_taints_removes split: prod.splits)

lemma Unassign_labels:
  "node_Labels (snd (Unassign match nag n)) =
     mdel (mdel (node_Labels n) (assign_key (nag_Name nag))) (packleft_key (nag_Name nag))"
  by (auto simp: Unassign_def RemoveTaint_def RemoveLabel_def set_node_Labels_def split: prod.splits)

lemma Unassign_label:
  "mget (node_Labels (snd (Unassign match nag n))) k =
     (if group_key nag k then None else mget (node_Labels n) k)"
  by (auto simp: Unassign_labels gomap_simps group_key_def)

lemma Unassign_eq:
  "match_taint_law match \<Longrightarrow> snd (Unassign match nag n) =
     (RemoveLabel nag n)\<lparr>n_Taints := filter (\<lambda>t. \<not> group_taint nag t) (n_Taints n)\<rparr>"
  using Unassign_taints [of match nag n]
  by (auto simp: Unassign_def RemoveTaint_def RemoveLabel_def set_node_Labels_def split: prod.splits)

lemma Unassign_name [simp]: "node_Name (snd (Unassign match nag n)) = node_Name n"
  by (auto simp: Unassign_def RemoveTaint_def RemoveLabel_def split: prod.splits)

lemma RemoveLabel_simps [simp]:
  "n_Taints (RemoveLabel nag n) = n_Taints n" "node_Name (RemoveLabel nag n) = node_Name n"
  by (simp_all add: RemoveLabel_def)

text \<open>After \<^verbatim>\<open>Unassign\<close> the node has no label and no taint of the group left, and every other
  label and taint is as it was, in the same order.\<close>

theorem Unassign_removes_group:
  assumes "match_taint_law match"
  shows "GetAssignment nag (snd (Unassign match nag n)) = None \<and>
    mget (node_Labels (snd (Unassign match nag n))) (packleft_key (nag_Name nag)) = None \<and>
    (\<forall>k. mget (node_Labels (snd (Unassign match nag n))) k =
       (if group_key nag k then None else mget (node_Labels n) k)) \<and>
    n_Taints (snd (Unassign match nag n)) = filter (\<lambda>t. \<not> group_taint nag t) (n_Taints n)"
  using assms by (simp add: GetAssignment_def Unassign_label Unassign_taints group_key_def)

section \<open>What an assignment writes\<close>

definition effective_mode :: "nodeAssignment \<Rightarrow> string" where
  "effective_mode na = (if na_Mode na = NodeAssignmentModeUndefined
                        then NodeAssignmentModeDefault else na_Mode na)"

definition effective_effect :: "nodeAssignment \<Rightarrow> string" where
  "effective_effect na = (if na_TaintEffect na = NodeAssignmentTaintEffectNotSpecified
                          then NodeAssignmentTaintEffectDefault else na_TaintEffect na)"

definition known_mode :: "nodeAssignment \<Rightarrow> bool" where
  "known_mode na \<longleftrightarrow> effective_mode na \<in> {NodeAssignmentModeLabelOnly, NodeAssignmentModeLabelAndTaint}"

definition assignment_taint :: "nag \<Rightarrow> nodeAssignment \<Rightarrow> taint" where
  "assignment_taint nag na =
     \<lparr>taint_Key = assign_key (nag_Name nag), taint_Value = na_Name na,
      taint_Effect = effective_effect na\<rparr>"

text \<open>The node \<^verbatim>\<open>Assign\<close> leaves, in one equation.\<close>

definition assigned_node :: "nag \<Rightarrow> node \<Rightarrow> nodeAssignment \<Rightarrow> node" where
  "assigned_node nag n na =
     (if known_mode na then
        (set_node_Labels n (Some (AList.update (assign_key (nag_Name nag)) (na_Name na)
            (mitems (node_Labels n)))))
          \<lparr>n_Taints := n_Taints n @
             (if effective_mode na = NodeAssignmentModeLabelAndTaint then [assignment_taint nag na]
              else [])\<rparr>
      else n)"

lemma known_mode_cases:
  "known_mode na \<longleftrightarrow>
     na_Mode na = NodeAssignmentModeUndefined \<or> na_Mode na = NodeAssignmentModeLabelOnly \<or>
     na_Mode na = NodeAssignmentModeLabelAndTaint"
  by (auto simp: known_mode_def effective_mode_def mode_defs)

text \<open>\<^verbatim>\<open>Assign\<close> panics exactly when it must write a label to a node whose label map is nil.\<close>

lemma Assign_cases:
  "Assign nag n na =
     (if known_mode na \<and> node_Labels n = None then Inl NilMapWrite
      else Inr (assigned_node nag n na,
        if effective_mode na = NodeAssignmentModeLabelAndTaint
        then na\<lparr>na_Mode := effective_mode na, na_TaintEffect := effective_effect na\<rparr>
        else na\<lparr>na_Mode := effective_mode na\<rparr>))"
proof (cases "node_Labels n")
  case None
  then show ?thesis
    by (auto simp: Assign_def SetLabel_def mput_def known_mode_cases assigned_node_def
        effective_mode_def mode_defs)
next
  case (Some al)
  then show ?thesis
    by (auto simp: Assign_def SetLabel_def SetTaint_def mput_def known_mode_cases assigned_node_def
        effective_mode_def effective_effect_def assignment_taint_def Let_def mode_defs)
qed

lemma assigned_node_label:
  "mget (node_Labels (assigned_node nag n na)) k =
     (if known_mode na \<and> k = assign_key (nag_Name nag) then Some (na_Name na)
      else mget (node_Labels n) k)"
  by (simp add: assigned_node_def update_conv' mget_def)

lemma assigned_node_simps [simp]:
  "node_Name (assigned_node nag n na) = node_Name n"
  "n_Unschedulable (assigned_node nag n na) = n_Unschedulable n"
  "n_Conditions (assigned_node nag n na) = n_Conditions n"
  by (simp_all add: assigned_node_def)

lemma assigned_node_GetAssignment:
  "known_mode na \<Longrightarrow> GetAssignment nag (assigned_node nag n na) = Some (na_Name na)"
  by (simp add: GetAssignment_def assigned_node_label)

text \<open>\<^verbatim>\<open>Assign\<close> never fails except by a panic, and it panics exactly when the mode writes a label
  and the node has no label map at all; otherwise a known mode leaves the group label on the node.\<close>

theorem Assign_total:
  "(Assign nag n na = Inl NilMapWrite \<longleftrightarrow> known_mode na \<and> node_Labels n = None) \<and>
   (\<forall>p. Assign nag n na = Inl p \<longrightarrow> p = NilMapWrite) \<and>
   (\<forall>n' na'. Assign nag n na = Inr (n', na') \<longrightarrow>
      (if known_mode na then GetAssignment nag n' = Some (na_Name na) else n' = n))"
  by (auto simp: Assign_cases assigned_node_GetAssignment, simp add: assigned_node_def)

text \<open>Taking a group off a node undoes an assignment: whatever the mode, unassigning the assigned
  node gives the same node as unassigning the node before the assignment.\<close>

theorem Unassign_Assign:
  assumes "match_taint_law match" and "Assign nag n na = Inr (n', na')"
    and "effective_effect na \<in> {TaintEffectNoSchedule, TaintEffectPreferNoSchedule, TaintEffectNoExecute}"
  shows "snd (Unassign match nag n') = snd (Unassign match nag n)"
proof -
  have n': "n' = assigned_node nag n na" and lab: "known_mode na \<longrightarrow> node_Labels n \<noteq> None"
    using assms(2) by (auto simp: Assign_cases split: if_splits)
  have gt: "group_taint nag (assignment_taint nag na)"
    using assms(3) by (simp add: group_taint_def assignment_taint_def)
  show ?thesis
  proof (cases "known_mode na")
    case True
    with lab obtain al where al: "node_Labels n = Some al" by auto
    show ?thesis
      unfolding Unassign_eq [OF assms(1)] n'
      using True gt al
      by (simp add: assigned_node_def RemoveLabel_def mdel_def delete_update_same set_node_Labels_def)
  qed (simp add: n' assigned_node_def)
qed

definition match_ref :: taint_match where
  "match_ref a b \<longleftrightarrow> taint_Key a = taint_Key b \<and> taint_Effect a = taint_Effect b"

lemma match_ref_law [simp]: "match_taint_law match_ref"
  by (simp add: match_taint_law_def match_ref_def)

theorem Unassign_removes_group_witness:
  "match_taint_law match_ref \<and>
   GetAssignment (demo_nag [] None) (snd (Unassign match_ref (demo_nag [] None)
     (demo_node ''n1'' [(''nag.assignments.kube-valet.io/io'', ''fast'')] []))) = None"
  using Unassign_removes_group [OF match_ref_law] match_ref_law by blast

theorem Assign_total_witness:
  "Assign (demo_nag [] None)
     ((demo_node ''n1'' [] [])\<lparr>n_meta := demo_meta ''n1'' None\<rparr>) (demo_assignment ''fast'' '''') =
     Inl NilMapWrite"
  using Assign_total [of "demo_nag [] None"
      "(demo_node ''n1'' [] [])\<lparr>n_meta := demo_meta ''n1'' None\<rparr>" "demo_assignment ''fast'' ''''"]
  by (simp add: known_mode_cases demo_defs mode_defs)

theorem Unassign_Assign_witness:
  "\<exists>n' na'. Assign (demo_nag [] None) (demo_node ''n1'' [(''zone'', ''a'')] [])
      (demo_assignment ''fast'' ''LabelAndTaint'') = Inr (n', na') \<and> n_Taints n' \<noteq> [] \<and>
    snd (Unassign match_ref (demo_nag [] None) n') =
      snd (Unassign match_ref (demo_nag [] None) (demo_node ''n1'' [(''zone'', ''a'')] []))"
proof -
  let ?n = "demo_node ''n1'' [(''zone'', ''a'')] []"
  let ?na = "demo_assignment ''fast'' ''LabelAndTaint''"
  have km: "known_mode ?na" by (simp add: known_mode_cases demo_assignment_def mode_defs)
  have A: "Assign (demo_nag [] None) ?n ?na = Inr (assigned_node (demo_nag [] None) ?n ?na,
     ?na\<lparr>na_Mode := effective_mode ?na, na_TaintEffect := effective_effect ?na\<rparr>)"
    by (simp add: Assign_cases demo_defs effective_mode_def mode_defs)
  have E: "effective_effect ?na \<in> {TaintEffectNoSchedule, TaintEffectPreferNoSchedule, TaintEffectNoExecute}"
    by (simp add: effective_effect_def demo_assignment_def NodeAssignmentTaintEffectNotSpecified_def
        NodeAssignmentTaintEffectDefault_def)
  have T: "n_Taints (assigned_node (demo_nag [] None) ?n ?na) \<noteq> []"
    using km by (simp add: assigned_node_def demo_node_def effective_mode_def demo_assignment_def mode_defs)
  show ?thesis using A T Unassign_Assign [OF match_ref_law A E] by blast
qed

section \<open>The controller's own writes never count as a targeting change\<close>

lemma assigned_node_targetable:
  "targetable (node_Labels (assigned_node nag n na)) = targetable (node_Labels n)"
  by (rule targetable_agree) (auto simp: assigned_node_label valet_key_def)

lemma Unassign_targetable:
  "targetable (node_Labels (snd (Unassign match nag n))) = targetable (node_Labels n)"
  by (rule targetable_agree) (auto simp: Unassign_label group_key_def valet_key_def)

lemma wf_map_assigned_node: "wf_map (node_Labels n) \<Longrightarrow> wf_map (node_Labels (assigned_node nag n na))"
  by (simp add: assigned_node_def wf_map_def distinct_update)

lemma wf_map_Unassign: "wf_map (node_Labels n) \<Longrightarrow> wf_map (node_Labels (snd (Unassign match nag n)))"
  by (simp add: Unassign_labels wf_map_mdel)

text \<open>Neither assigning a node to a group nor unassigning it changes what targeting depends on, so
  the update event the patch causes does not queue the groups again.\<close>

theorem own_writes_not_targeting:
  assumes "wf_map (node_Labels n)"
  shows "\<not> NodeTargetingHasChanged n (snd (Unassign match nag n)) \<and>
    (\<forall>na n' na'. Assign nag n na = Inr (n', na') \<longrightarrow> \<not> NodeTargetingHasChanged n n')"
proof (intro conjI allI impI)
  show "\<not> NodeTargetingHasChanged n (snd (Unassign match nag n))"
    using assms
    by (simp add: NodeTargetingHasChanged_def scan_difference wf_map_Unassign Unassign_targetable)
next
  fix na n' na'
  assume "Assign nag n na = Inr (n', na')"
  then have "n' = assigned_node nag n na" by (auto simp: Assign_cases split: if_splits)
  then show "\<not> NodeTargetingHasChanged n n'"
    using assms by (simp add: NodeTargetingHasChanged_def scan_difference wf_map_assigned_node
        assigned_node_targetable)
qed

theorem own_writes_not_targeting_witness:
  "wf_map (node_Labels (demo_node ''n1'' [(''zone'', ''a'')] [])) \<and>
   \<not> NodeTargetingHasChanged (demo_node ''n1'' [(''zone'', ''a'')] [])
       (snd (Unassign match_ref (demo_nag [] None) (demo_node ''n1'' [(''zone'', ''a'')] [])))"
proof -
  have w: "wf_map (node_Labels (demo_node ''n1'' [(''zone'', ''a'')] []))"
    by (simp add: wf_map_def demo_defs)
  show ?thesis using w own_writes_not_targeting [OF w] by blast
qed

text \<open>Protecting a node stops every group from targeting it, but the label that protects it is not
  a targeting change, so the node update does not queue any group: the node keeps the labels and
  taints it has until something else queues its groups.\<close>

theorem protecting_a_node_is_not_noticed:
  assumes "wf_map (node_Labels n)" and "node_Labels n \<noteq> None"
    and "mput (node_Labels n) ProtectedNodeLabelKey ProtectedLabelValue = Inr m"
  shows "\<not> TargetsNode nag (set_node_Labels n m) \<and> \<not> NodeTargetingHasChanged n (set_node_Labels n m)"
proof
  show "\<not> TargetsNode nag (set_node_Labels n m)"
    using mget_mput [OF assms(3), of ProtectedNodeLabelKey]
    by (simp add: TargetsNode_def)
  have "targetable m = targetable (node_Labels n)"
    by (rule targetable_agree) (auto simp: mget_mput [OF assms(3)] valet_key_def)
  then show "\<not> NodeTargetingHasChanged n (set_node_Labels n m)"
    using assms(1) wf_map_mput [OF assms(1,3)] by (simp add: NodeTargetingHasChanged_def scan_difference)
qed

theorem protecting_a_node_is_not_noticed_witness:
  "TargetsNode (demo_nag [] None) (demo_node ''n1'' [(''zone'', ''a'')] []) \<and>
   \<not> NodeTargetingHasChanged (demo_node ''n1'' [(''zone'', ''a'')] [])
      (set_node_Labels (demo_node ''n1'' [(''zone'', ''a'')] [])
        (Some [(''zone'', ''a''), (ProtectedNodeLabelKey, ProtectedLabelValue)]))"
proof -
  let ?n = "demo_node ''n1'' [(''zone'', ''a'')] []"
  have w: "wf_map (node_Labels ?n)" "node_Labels ?n \<noteq> None"
    by (simp_all add: wf_map_def demo_defs)
  have m: "mput (node_Labels ?n) ProtectedNodeLabelKey ProtectedLabelValue =
      Inr (Some [(''zone'', ''a''), (ProtectedNodeLabelKey, ProtectedLabelValue)])"
    by (simp add: mput_def demo_defs ProtectedNodeLabelKey_def)
  have "TargetsNode (demo_nag [] None) ?n"
    by (simp add: TargetsNode_def demo_defs ProtectedNodeLabelKey_def)
  then show ?thesis using protecting_a_node_is_not_noticed [OF w m] by blast
qed

end
