(* ===== verification/KubeApi.thy ===== *)
theory KubeApi
  imports Helpers "HOL-Library.Multiset"
begin

text \<open>
  The code outside the repository that the controllers call, gathered in one record: the node and
  group clients of the API server, \<^verbatim>\<open>json.Marshal\<close> of a node, \<^verbatim>\<open>CreateTwoWayMergePatch\<close>,
  \<^verbatim>\<open>MatchTaint\<close>, \<^verbatim>\<open>RetryOnConflict\<close>, and the order in which a \<^verbatim>\<open>range\<close> loop visits the keys of
  a map. Every controller definition takes this record as its argument \<open>K\<close>, as the Go code takes
  its clients; \<open>'s\<close> is the state of the API server, \<open>'d\<close> an encoded node and \<open>'p\<close> a patch.

  The locales \<open>node_api\<close> and \<open>nag_api\<close> state what the controllers rely on: the documented
  meaning of a successful call, and that a failed call changes nothing. They are interpreted on
  \<open>mem_kube\<close>, a server that keeps its nodes and groups in two lists.
\<close>

section \<open>The interface\<close>

record ('s, 'd, 'p) kube =
  k_nodesList :: "'s \<Rightarrow> (goerr + node list) \<times> 's"
  k_nodesGet :: "string \<Rightarrow> 's \<Rightarrow> (goerr + node) \<times> 's"
  k_nodesPatch :: "string \<Rightarrow> 'p \<Rightarrow> 's \<Rightarrow> goerr option \<times> 's"
  k_nagsGet :: "string \<Rightarrow> 's \<Rightarrow> (nag \<times> goerr option) \<times> 's"
  k_nagsUpdate :: "nag \<Rightarrow> 's \<Rightarrow> goerr option \<times> 's"
  k_marshal :: "node \<Rightarrow> goerr + 'd"
  k_createPatch :: "'d \<Rightarrow> 'd \<Rightarrow> goerr + 'p"
  k_patchBytes :: "'p \<Rightarrow> char list"
  k_match :: taint_match
  k_retry :: "('s \<Rightarrow> goerr option \<times> 's) \<Rightarrow> 's \<Rightarrow> goerr option \<times> 's"
  k_range :: "string list \<Rightarrow> string list"

text \<open>Marshal both nodes, build the two-way merge patch, and send it unless it is empty: the common
  second half of \<^verbatim>\<open>UpdateNodeAssignment\<close> and of \<^verbatim>\<open>patchNodeState\<close>.\<close>

definition send_node_patch ::
    "('s, 'd, 'p) kube \<Rightarrow> node \<Rightarrow> node \<Rightarrow> 's \<Rightarrow> goerr option \<times> 's" where
  "send_node_patch K oldNode newNode s =
     (case k_marshal K oldNode of
        Inl err \<Rightarrow> (Some err, s)
      | Inr oldData \<Rightarrow>
          (case k_marshal K newNode of
             Inl err \<Rightarrow> (Some err, s)
           | Inr newData \<Rightarrow>
               (case k_createPatch K oldData newData of
                  Inl err \<Rightarrow> (Some err, s)
                | Inr patchBytes \<Rightarrow>
                    if \<not> IsEmptyPatch (k_patchBytes K patchBytes)
                    then k_nodesPatch K (node_Name oldNode) patchBytes s
                    else (None, s))))"

section \<open>The meaning of a strategic merge patch on a node\<close>

text \<open>The label map is merged key by key: a key the patch does not mention keeps the server's value.
  The taint list has no merge key: it is replaced as a whole when it differs.\<close>

definition merge_labels :: "string gomap \<Rightarrow> string gomap \<Rightarrow> string gomap \<Rightarrow> string gomap" where
  "merge_labels old new cur =
     (let dels = filter (\<lambda>k. mget new k = None) (map fst (mitems old));
          sets = filter (\<lambda>(k, v). mget old k \<noteq> Some v) (mitems new);
          base = map_option (fold AList.delete dels) cur
      in if sets = [] then base
         else Some (fold (\<lambda>(k, v). AList.update k v) sets (mitems base)))"

definition merge_node :: "node \<Rightarrow> node \<Rightarrow> node \<Rightarrow> node" where
  "merge_node old new cur =
     (set_node_Labels cur (merge_labels (node_Labels old) (node_Labels new) (node_Labels cur)))
       \<lparr>n_Taints := (if n_Taints old = n_Taints new then n_Taints cur else n_Taints new)\<rparr>"

definition same_labels_taints :: "node \<Rightarrow> node \<Rightarrow> bool" where
  "same_labels_taints a b \<longleftrightarrow>
     (\<forall>k. mget (node_Labels a) k = mget (node_Labels b) k) \<and> n_Taints a = n_Taints b"

text \<open>Two versions of a node that differ in nothing but labels and taints.\<close>

definition node_variant :: "node \<Rightarrow> node \<Rightarrow> bool" where
  "node_variant a b \<longleftrightarrow>
     (set_node_Labels a None)\<lparr>n_Taints := []\<rparr> = (set_node_Labels b None)\<lparr>n_Taints := []\<rparr>"

definition update_view :: "string \<Rightarrow> (node \<Rightarrow> node) \<Rightarrow> node list \<Rightarrow> node list" where
  "update_view nm f ns = map (\<lambda>c. if node_Name c = nm then f c else c) ns"

definition names :: "node list \<Rightarrow> string list" where
  "names ns = map om_Name (map n_meta ns)"

lemma map_of_fold_delete:
  "map_of (fold AList.delete ks al) k = (if k \<in> set ks then None else map_of al k)"
  by (induction ks arbitrary: al) (auto simp: delete_conv')

lemma map_of_fold_update:
  "distinct (map fst sets) \<Longrightarrow>
   map_of (fold (\<lambda>(k, v). AList.update k v) sets al) k =
     (case map_of sets k of Some v \<Rightarrow> Some v | None \<Rightarrow> map_of al k)"
proof (induction sets arbitrary: al)
  case (Cons p sets)
  obtain a b where p: "p = (a, b)" by force
  have a: "map_of sets a = None"
    using Cons.prems by (auto simp: p map_of_eq_None_iff)
  show ?case
    using Cons by (auto simp: p a update_conv' split: option.splits)
qed simp

lemma merge_labels_get:
  assumes "wf_map old" and "wf_map new"
  shows "mget (merge_labels old new cur) k =
    (if mget new k = mget old k then mget cur k else mget new k)"
proof -
  let ?dels = "filter (\<lambda>k. mget new k = None) (map fst (mitems old))"
  let ?sets = "filter (\<lambda>(k, v). mget old k \<noteq> Some v) (mitems new)"
  have ds: "distinct (map fst ?sets)"
    using assms(2) by (simp add: wf_map_def distinct_map_filter)
  have del: "k \<in> set ?dels \<longleftrightarrow> mget new k = None \<and> mget old k \<noteq> None"
    by (auto simp: mget_def map_of_eq_None_iff image_iff)
  have sets: "map_of ?sets k = (if mget new k \<noteq> None \<and> mget old k \<noteq> mget new k then mget new k else None)"
  proof (cases "mget new k")
    case None
    then have "k \<notin> fst ` set (mitems new)" by (simp add: mget_def map_of_eq_None_iff)
    then show ?thesis using None by (auto simp: map_of_eq_None_iff)
  next
    case (Some v)
    have "(k, v) \<in> set (mitems new)" using Some assms(2) by (simp add: mitems_mget)
    then show ?thesis
      using Some assms(2) ds
      by (auto simp: map_of_eq_None_iff mitems_mget map_of_eq_Some_iff split: if_splits)
  qed
  have base: "map_of (mitems (map_option (fold AList.delete ?dels) cur)) k =
      (if k \<in> set ?dels then None else mget cur k)"
    by (cases cur) (simp_all add: map_of_fold_delete)
  show ?thesis
  proof (cases "?sets = []")
    case True
    then have "mget (merge_labels old new cur) k =
        map_of (mitems (map_option (fold AList.delete ?dels) cur)) k"
      by (simp only: merge_labels_def Let_def if_True mget_def simp_thms)
    then show ?thesis using base del sets True by (auto split: if_splits)
  next
    case False
    then have "mget (merge_labels old new cur) k =
        map_of (fold (\<lambda>(k, v). AList.update k v) ?sets
          (mitems (map_option (fold AList.delete ?dels) cur))) k"
      by (simp only: merge_labels_def Let_def if_False mget_Some)
    also have "\<dots> = (case map_of ?sets k of Some v \<Rightarrow> Some v
        | None \<Rightarrow> if k \<in> set ?dels then None else mget cur k)"
      by (simp only: map_of_fold_update [OF ds] base)
    finally show ?thesis using del sets by (auto split: if_splits option.splits)
  qed
qed

lemma merge_labels_fresh:
  "wf_map old \<Longrightarrow> wf_map new \<Longrightarrow> mget (merge_labels old new old) k = mget new k"
  by (simp add: merge_labels_get)

lemma wf_map_fold_delete: "distinct (map fst al) \<Longrightarrow> distinct (map fst (fold AList.delete ks al))"
  by (induction ks arbitrary: al) (auto simp: distinct_delete)

lemma wf_map_fold_update:
  "distinct (map fst al) \<Longrightarrow> distinct (map fst (fold (\<lambda>(k, v). AList.update k v) sets al))"
  by (induction sets arbitrary: al) (auto simp: distinct_update split: prod.splits)

lemma wf_map_merge_labels: "wf_map cur \<Longrightarrow> wf_map (merge_labels old new cur)"
  by (cases cur) (auto simp: merge_labels_def Let_def wf_map_def wf_map_fold_delete wf_map_fold_update)

lemma merge_node_simps [simp]:
  "node_Name (merge_node old new cur) = node_Name cur"
  "n_Taints (merge_node old new cur) =
     (if n_Taints old = n_Taints new then n_Taints cur else n_Taints new)"
  "node_Labels (merge_node old new cur) =
     merge_labels (node_Labels old) (node_Labels new) (node_Labels cur)"
  by (simp_all add: merge_node_def set_node_Labels_def)

text \<open>A patch between nodes with the same labels and taints changes nothing.\<close>

lemma merge_labels_id:
  assumes "wf_map old" and "wf_map new" and "\<And>k. mget old k = mget new k"
  shows "merge_labels old new cur = cur"
proof -
  have "filter (\<lambda>k. mget new k = None) (map fst (mitems old)) = []"
    using assms(3) by (auto simp: filter_empty_conv mget_def map_of_eq_None_iff)
      (metis fst_conv image_eqI map_of_eq_None_iff)
  moreover have "filter (\<lambda>(k, v). mget old k \<noteq> Some v) (mitems new) = []"
    using assms by (auto simp: filter_empty_conv mitems_mget)
  ultimately show ?thesis by (cases cur) (simp_all add: merge_labels_def)
qed

lemma merge_node_id:
  assumes "wf_map (node_Labels a)" and "wf_map (node_Labels b)" and "same_labels_taints a b"
  shows "merge_node a b c = c"
  using assms by (simp add: merge_node_def merge_labels_id same_labels_taints_def)

lemma node_variant_refl [simp]: "node_variant n n"
  by (simp add: node_variant_def)

lemma node_variant_name: "node_variant a b \<Longrightarrow> node_Name a = node_Name b"
  by (metis node_variant_def node.ext_inject node.surjective node.update_convs(2) set_node_Labels_simps(2))

lemma node_variant_set [simp]:
  "node_variant n (set_node_Labels n m)" "node_variant n (n\<lparr>n_Taints := ts\<rparr>)"
  by (simp_all add: node_variant_def set_node_Labels_def)

lemma node_variant_trans: "node_variant a b \<Longrightarrow> node_variant b c \<Longrightarrow> node_variant a c"
  by (simp add: node_variant_def)

lemma node_variant_Unassign: "node_variant n (snd (Unassign match nag n))"
  by (auto simp: Unassign_def RemoveTaint_def RemoveLabel_def node_variant_def set_node_Labels_def
      split: prod.splits)

lemma node_variant_assigned: "node_variant n (assigned_node nag n na)"
  by (auto simp: assigned_node_def node_variant_def set_node_Labels_def)

section \<open>Views of the server's nodes\<close>

lemma names_update_view [simp]:
  "(\<And>c. node_Name (f c) = node_Name c) \<Longrightarrow> names (update_view nm f ns) = names ns"
  by (induction ns) (auto simp: update_view_def names_def)

lemma update_view_other: "nm \<notin> set (names ns) \<Longrightarrow> update_view nm f ns = ns"
  by (induction ns) (auto simp: update_view_def names_def)

lemma update_view_id: "update_view nm (\<lambda>c. c) ns = ns"
  by (induction ns) (auto simp: update_view_def)

lemma find_Some_iff_names:
  "distinct (names ns) \<Longrightarrow> find (\<lambda>n. node_Name n = nm) ns = Some n \<longleftrightarrow> n \<in> set ns \<and> node_Name n = nm"
  by (induction ns) (auto simp: names_def)

lemma find_update_view:
  assumes "\<And>c. node_Name (f c) = node_Name c"
  shows "find (\<lambda>n. node_Name n = nm) (update_view nm' f ns) =
    (if nm = nm' then map_option f (find (\<lambda>n. node_Name n = nm) ns)
     else find (\<lambda>n. node_Name n = nm) ns)"
  using assms by (induction ns) (auto simp: update_view_def)

lemma names_mem: "n \<in> set ns \<Longrightarrow> node_Name n \<in> set (names ns)"
  by (auto simp: names_def)

lemma find_names: "find (\<lambda>n. node_Name n = nm) ns = None \<longleftrightarrow> nm \<notin> set (names ns)"
  by (induction ns) (auto simp: names_def)

section \<open>The contract of the node client\<close>

locale node_api =
  fixes K :: "('s, 'd, 'p) kube"
    and view :: "'s \<Rightarrow> node list"
  assumes list_ok: "k_nodesList K s = (Inr ns, s') \<Longrightarrow> ns = view s \<and> s' = s"
    and list_err: "k_nodesList K s = (Inl e, s') \<Longrightarrow> s' = s"
    and get_ok: "k_nodesGet K nm s = (Inr n, s') \<Longrightarrow>
      s' = s \<and> find (\<lambda>n. node_Name n = nm) (view s) = Some n"
    and get_err: "k_nodesGet K nm s = (Inl e, s') \<Longrightarrow> s' = s"
    and patch_ok: "node_variant old new \<Longrightarrow> k_marshal K old = Inr a \<Longrightarrow> k_marshal K new = Inr b \<Longrightarrow>
      k_createPatch K a b = Inr p \<Longrightarrow> k_nodesPatch K nm p s = (None, s') \<Longrightarrow>
      view s' = update_view nm (merge_node old new) (view s)"
    and patch_err: "k_nodesPatch K nm p s = (Some e, s') \<Longrightarrow> view s' = view s"
    and empty_patch: "node_variant old new \<Longrightarrow> k_marshal K old = Inr a \<Longrightarrow> k_marshal K new = Inr b \<Longrightarrow>
      k_createPatch K a b = Inr p \<Longrightarrow> IsEmptyPatch (k_patchBytes K p) \<Longrightarrow> same_labels_taints old new"
    and match_law: "match_taint_law (k_match K)"
    and range_perm: "mset (k_range K ks) = mset ks"
begin

lemma send_node_patch_ok:
  assumes "send_node_patch K old new s = (None, s')" and "node_variant old new"
    and "wf_map (node_Labels old)" and "wf_map (node_Labels new)"
  shows "view s' = update_view (node_Name old) (merge_node old new) (view s)"
proof -
  obtain a b p where abp: "k_marshal K old = Inr a" "k_marshal K new = Inr b" "k_createPatch K a b = Inr p"
    using assms(1) by (auto simp: send_node_patch_def split: sum.splits)
  show ?thesis
  proof (cases "IsEmptyPatch (k_patchBytes K p)")
    case True
    then have "s' = s" using assms(1) abp by (simp add: send_node_patch_def)
    moreover have "merge_node old new = (\<lambda>c. c)"
      using merge_node_id [OF assms(3,4) empty_patch [OF assms(2) abp True]] by auto
    ultimately show ?thesis by (simp add: update_view_id)
  next
    case False
    then have "k_nodesPatch K (node_Name old) p s = (None, s')"
      using assms(1) abp by (simp add: send_node_patch_def)
    then show ?thesis by (rule patch_ok [OF assms(2) abp])
  qed
qed

lemma send_node_patch_err:
  "send_node_patch K old new s = (Some e, s') \<Longrightarrow> view s' = view s"
  by (auto simp: send_node_patch_def patch_err split: sum.splits if_splits)

lemma send_node_patch_names [simp]:
  assumes "node_variant old new" "wf_map (node_Labels old)" "wf_map (node_Labels new)"
  shows "names (view (snd (send_node_patch K old new s))) = names (view s)"
proof -
  obtain r s' where r: "send_node_patch K old new s = (r, s')" by force
  then show ?thesis
    using send_node_patch_ok [OF _ assms, of s s'] send_node_patch_err [of old new s]
    by (cases r) auto
qed

lemma range_set: "set (k_range K ks) = set ks"
  by (metis range_perm set_mset_mset)

end

text \<open>A server on which no call fails.\<close>

locale reliable_node_api = node_api +
  assumes list_total: "\<exists>ns s'. k_nodesList K s = (Inr ns, s')"
    and get_total: "nm \<in> set (names (view s)) \<Longrightarrow> \<exists>n s'. k_nodesGet K nm s = (Inr n, s')"
    and patch_total: "nm \<in> set (names (view s)) \<Longrightarrow> \<exists>s'. k_nodesPatch K nm p s = (None, s')"
    and marshal_total: "\<exists>d. k_marshal K n = Inr d"
    and createPatch_total: "\<exists>p. k_createPatch K a b = Inr p"
begin

lemma send_node_patch_total:
  assumes "node_Name old \<in> set (names (view s))"
  shows "\<exists>s'. send_node_patch K old new s = (None, s')"
proof -
  obtain a b where ab: "k_marshal K old = Inr a" "k_marshal K new = Inr b"
    using marshal_total by metis
  obtain p where p: "k_createPatch K a b = Inr p" using createPatch_total by metis
  show ?thesis
    using patch_total [OF assms, of p] by (simp add: send_node_patch_def ab p)
qed

lemma list_view: "k_nodesList K s = (Inr (view s), s)"
  using list_total [of s] list_ok by metis

end

section \<open>The contract of the group client and of RetryOnConflict\<close>

definition find_nag :: "string \<Rightarrow> nag list \<Rightarrow> nag option" where
  "find_nag nm gs = find (\<lambda>g. nag_Name g = nm) gs"

text \<open>\<^verbatim>\<open>RetryOnConflict\<close> runs its function once or more; every attempt but the last ended in a
  conflict, and the result is that of the last attempt.\<close>

inductive retry_run :: "('s \<Rightarrow> goerr option \<times> 's) \<Rightarrow> 's \<Rightarrow> goerr option \<Rightarrow> 's \<Rightarrow> bool" where
  last_attempt: "f s = (r, s') \<Longrightarrow> retry_run f s r s'"
| conflict: "f s = (Some Conflict, s1) \<Longrightarrow> retry_run f s1 r s' \<Longrightarrow> retry_run f s r s'"

inductive_cases retry_runE: "retry_run f s r s'"

locale nag_api =
  fixes K :: "('s, 'd, 'p) kube"
    and nagview :: "'s \<Rightarrow> nag list"
  assumes nag_get_ok: "k_nagsGet K nm s = ((g, None), s') \<Longrightarrow> s' = s \<and> find_nag nm (nagview s) = Some g"
    and nag_get_err: "k_nagsGet K nm s = ((g, Some e), s') \<Longrightarrow> s' = s"
    and nag_update_ok: "k_nagsUpdate K g s = (None, s') \<Longrightarrow>
      (\<forall>x. find_nag (nag_Name g) (nagview s') = Some x \<longrightarrow>
         om_Finalizers (nag_meta x) = om_Finalizers (nag_meta g)) \<and>
      (\<forall>nm. nm \<noteq> nag_Name g \<longrightarrow> find_nag nm (nagview s') = find_nag nm (nagview s))"
    and nag_update_err: "k_nagsUpdate K g s = (Some e, s') \<Longrightarrow> nagview s' = nagview s"
    and nag_update_empty: "nag_Name g = [] \<Longrightarrow> fst (k_nagsUpdate K g s) \<noteq> None"
    and nag_get_zero: "k_nagsGet K nm s = ((g, Some e), s') \<Longrightarrow> nag_Name g = []"
    and retry_law: "retry_run f s (fst (k_retry K f s)) (snd (k_retry K f s))"
begin

text \<open>If the retried function succeeded at the end, some attempt made the final transition, from a
  state that the attempts before it reached by conflicts.\<close>

lemma retry_success:
  assumes "retry_run f s None s'" and "P s"
    and "\<And>s1 s2. P s1 \<Longrightarrow> f s1 = (Some Conflict, s2) \<Longrightarrow> P s2"
  shows "\<exists>s0. P s0 \<and> f s0 = (None, s')"
  using assms by (induction f s "None :: goerr option" s' rule: retry_run.induct) blast+

end

text \<open>The two clients talk to the same server: writing a group leaves the nodes alone, and the other
  way round.\<close>

locale cluster_api = node_api K view + nag_api K nagview
  for K :: "('s, 'd, 'p) kube" and view and nagview +
  assumes nag_update_view: "k_nagsUpdate K g s = (r, s') \<Longrightarrow> view s' = view s"
    and node_patch_nagview: "k_nodesPatch K nm p s = (r, s') \<Longrightarrow> nagview s' = nagview s"

section \<open>A server that keeps its objects in lists\<close>

record mem =
  mem_nodes :: "node list"
  mem_nags :: "nag list"

definition mem_nodesList :: "mem \<Rightarrow> (goerr + node list) \<times> mem" where
  "mem_nodesList s = (Inr (mem_nodes s), s)"

definition mem_nodesGet :: "string \<Rightarrow> mem \<Rightarrow> (goerr + node) \<times> mem" where
  "mem_nodesGet nm s =
     (case find (\<lambda>n. node_Name n = nm) (mem_nodes s) of
        None \<Rightarrow> (Inl (NotFound nm), s) | Some n \<Rightarrow> (Inr n, s))"

definition mem_nodesPatch :: "string \<Rightarrow> node \<times> node \<Rightarrow> mem \<Rightarrow> goerr option \<times> mem" where
  "mem_nodesPatch nm p s =
     (if nm \<in> set (names (mem_nodes s))
      then (None, s\<lparr>mem_nodes := update_view nm (merge_node (fst p) (snd p)) (mem_nodes s)\<rparr>)
      else (Some (NotFound nm), s))"

definition empty_nag :: nag where
  "empty_nag = \<lparr>nag_meta = demo_meta '''' None,
     nag_Spec = \<lparr>nags_TargetLabels = [], nags_DefaultAssignment = None, nags_Assignments = []\<rparr>,
     nag_NumMatched = 0\<rparr>"

definition mem_nagsGet :: "string \<Rightarrow> mem \<Rightarrow> (nag \<times> goerr option) \<times> mem" where
  "mem_nagsGet nm s =
     (case find_nag nm (mem_nags s) of
        None \<Rightarrow> ((empty_nag, Some (NotFound nm)), s) | Some g \<Rightarrow> ((g, None), s))"

definition mem_nagsUpdate :: "nag \<Rightarrow> mem \<Rightarrow> goerr option \<times> mem" where
  "mem_nagsUpdate g s =
     (if nag_Name g \<noteq> [] \<and> nag_Name g \<in> nag_Name ` set (mem_nags s)
      then (None, s\<lparr>mem_nags := map (\<lambda>x. if nag_Name x = nag_Name g then g else x) (mem_nags s)\<rparr>)
      else (Some (NotFound (nag_Name g)), s))"

definition label_change :: "node \<Rightarrow> node \<Rightarrow> bool" where
  "label_change a b \<longleftrightarrow>
     any_in (\<lambda>k. mget (node_Labels a) k \<noteq> mget (node_Labels b) k)
       (map fst (mitems (node_Labels a)) @ map fst (mitems (node_Labels b)))
     \<or> n_Taints a \<noteq> n_Taints b"

definition mem_retry :: "(mem \<Rightarrow> goerr option \<times> mem) \<Rightarrow> mem \<Rightarrow> goerr option \<times> mem" where
  "mem_retry f s = f s"

definition mem_kube :: "(mem, node, node \<times> node) kube" where
  "mem_kube = \<lparr>k_nodesList = mem_nodesList, k_nodesGet = mem_nodesGet, k_nodesPatch = mem_nodesPatch,
     k_nagsGet = mem_nagsGet, k_nagsUpdate = mem_nagsUpdate, k_marshal = Inr,
     k_createPatch = (\<lambda>a b. Inr (a, b)),
     k_patchBytes = (\<lambda>(a, b). if label_change a b then ''{...}'' else ''{}''),
     k_match = match_ref, k_retry = mem_retry, k_range = (\<lambda>ks. ks)\<rparr>"

lemma mem_kube_simps [simp]:
  "k_nodesList mem_kube = mem_nodesList" "k_nodesGet mem_kube = mem_nodesGet"
  "k_nodesPatch mem_kube = mem_nodesPatch" "k_nagsGet mem_kube = mem_nagsGet"
  "k_nagsUpdate mem_kube = mem_nagsUpdate" "k_marshal mem_kube = Inr"
  "k_createPatch mem_kube a b = Inr (a, b)"
  "k_patchBytes mem_kube (a, b) = (if label_change a b then ''{...}'' else ''{}'')"
  "k_match mem_kube = match_ref" "k_retry mem_kube = mem_retry" "k_range mem_kube ks = ks"
  by (simp_all add: mem_kube_def)

lemma label_change_iff: "\<not> label_change a b \<longleftrightarrow> same_labels_taints a b"
proof -
  have "(\<forall>k \<in> set (map fst (mitems (node_Labels a)) @ map fst (mitems (node_Labels b))).
      mget (node_Labels a) k = mget (node_Labels b) k) \<longleftrightarrow>
    (\<forall>k. mget (node_Labels a) k = mget (node_Labels b) k)"
  proof (intro iffI allI ballI)
    fix k
    assume *: "\<forall>k \<in> set (map fst (mitems (node_Labels a)) @ map fst (mitems (node_Labels b))).
      mget (node_Labels a) k = mget (node_Labels b) k"
    show "mget (node_Labels a) k = mget (node_Labels b) k"
    proof (cases "k \<in> fst ` set (mitems (node_Labels a)) \<union> fst ` set (mitems (node_Labels b))")
      case True
      with * show ?thesis by auto
    next
      case False
      then have "mget (node_Labels a) k = None" "mget (node_Labels b) k = None"
        by (simp_all add: mget_def map_of_eq_None_iff)
      then show ?thesis by simp
    qed
  qed auto
  then show ?thesis
    by (simp add: label_change_def same_labels_taints_def del: set_append set_map)
qed

interpretation mem_node: node_api mem_kube mem_nodes
proof (unfold_locales, goal_cases)
  case 7
  then show ?case by (auto simp: label_change_iff [symmetric] IsEmptyPatch_def split: if_splits)
qed (auto simp: mem_nodesList_def mem_nodesGet_def mem_nodesPatch_def split: option.splits if_splits)

interpretation mem_reliable: reliable_node_api mem_kube mem_nodes
proof (unfold_locales, goal_cases)
  case (2 nm s)
  then have "find (\<lambda>n. node_Name n = nm) (mem_nodes s) \<noteq> None" using find_names by metis
  then show ?case by (auto simp: mem_nodesGet_def)
qed (simp_all add: mem_nodesList_def mem_nodesPatch_def)

lemma find_nag_map_other:
  "nm \<noteq> nm' \<Longrightarrow> nag_Name g = nm' \<Longrightarrow>
   find_nag nm (map (\<lambda>x. if nag_Name x = nm' then g else x) gs) = find_nag nm gs"
  by (induction gs) (auto simp: find_nag_def)

lemma find_nag_map_same:
  "find_nag nm (map (\<lambda>x. if nag_Name x = nm then g else x) gs) = Some x \<Longrightarrow> nag_Name g = nm \<Longrightarrow> x = g"
  by (induction gs) (auto simp: find_nag_def split: if_splits)

interpretation mem_nag: nag_api mem_kube mem_nags
  by unfold_locales
    (auto simp: mem_nagsGet_def mem_nagsUpdate_def mem_retry_def empty_nag_def demo_meta_def
      find_nag_map_other intro: retry_run.last_attempt dest: find_nag_map_same
      split: option.splits if_splits)

interpretation mem_cluster: cluster_api mem_kube mem_nodes mem_nags
  by unfold_locales (auto simp: mem_nagsUpdate_def mem_nodesPatch_def split: if_splits)

end
