(* ===== verification/GoFloat.thy ===== *)
theory GoFloat
  imports Complex_Main Prelude
begin

text \<open>
  The floating-point arithmetic the program uses: \<^verbatim>\<open>float32\<close> for percentages of a node count
  and \<^verbatim>\<open>float64\<close> for the fullness of a node. A finite value is the rational number it stands
  for, rounded to nearest (ties to even) with 24 or 53 significant bits after every operation.
  Every finite quantity here is the quotient or product of 64-bit integers, so no intermediate
  leaves the exponent range of either format: the model needs no overflow to infinity and no
  subnormals. Division by zero gives an infinity or NaN, and NaN compares with nothing.
\<close>

section \<open>Rounding to p significant bits\<close>

fun bits :: "nat \<Rightarrow> nat" where
  "bits n = (if n = 0 then 0 else Suc (bits (n div 2)))"

declare bits.simps [simp del]

text \<open>The exponent \<open>e\<close> with \<open>2 powi e \<le> x < 2 powi (e + 1)\<close>.\<close>

definition expo :: "rat \<Rightarrow> int" where
  "expo x = (case quotient_of x of (a, b) \<Rightarrow>
     let e = int (bits (nat a)) - int (bits (nat b)) in if 2 powi e \<le> x then e else e - 1)"

definition round_even :: "rat \<Rightarrow> int" where
  "round_even x = (let f = \<lfloor>x\<rfloor>; r = x - of_int f in
     if r < 1 / 2 then f else if 1 / 2 < r then f + 1 else if even f then f else f + 1)"

definition round_sig :: "nat \<Rightarrow> rat \<Rightarrow> rat" where
  "round_sig p x = (if x = 0 then 0
     else let u = 2 powi (expo \<bar>x\<bar> - int p + 1) in sgn x * of_int (round_even (\<bar>x\<bar> / u)) * u)"

lemma bits_bounds: "0 < n \<Longrightarrow> 2 ^ (bits n - 1) \<le> n \<and> n < 2 ^ bits n"
proof (induction n rule: bits.induct)
  case (1 n)
  show ?case
  proof (cases "n div 2 = 0")
    case True
    with 1 have "n = 1" by auto
    then show ?thesis by (simp add: bits.simps [of "Suc 0"] bits.simps [of 0])
  next
    case False
    with 1 have IH: "2 ^ (bits (n div 2) - 1) \<le> n div 2" "n div 2 < 2 ^ bits (n div 2)"
      by auto
    have pos: "0 < bits (n div 2)"
      using False by (subst bits.simps) simp
    have p2: "2 ^ bits (n div 2) = 2 * (2::nat) ^ (bits (n div 2) - 1)"
      using pos by (metis Suc_diff_1 power_Suc)
    define k where "k = (2::nat) ^ (bits (n div 2) - 1)"
    have "bits n = Suc (bits (n div 2))" using 1(2) by (subst bits.simps) simp
    moreover have "k \<le> n div 2" "n div 2 < 2 * k" "2 ^ bits (n div 2) = 2 * k"
      using IH p2 by (simp_all add: k_def)
    ultimately show ?thesis by (simp, linarith)
  qed
qed

lemma powi_diff_nat: "(2::rat) powi (int m - int n) = 2 ^ m / 2 ^ n"
  by (simp add: power_int_diff)

lemma expo_bounds:
  assumes "0 < x"
  shows "2 powi expo x \<le> x" and "x < 2 powi (expo x + 1)"
proof -
  obtain a b where q: "quotient_of x = (a, b)" by force
  have b: "0 < b" using quotient_of_denom_pos [OF q] .
  have x: "x = of_int a / of_int b" using quotient_of_div [OF q] .
  have a: "0 < a" using assms b unfolding x by (simp add: zero_less_divide_iff)
  let ?m = "bits (nat a)" and ?n = "bits (nat b)"
  have am: "2 ^ (?m - 1) \<le> nat a" "nat a < 2 ^ ?m"
    using bits_bounds [of "nat a"] a by auto
  have bn: "2 ^ (?n - 1) \<le> nat b" "nat b < 2 ^ ?n"
    using bits_bounds [of "nat b"] b by auto
  have mpos: "0 < ?m" and npos: "0 < ?n"
    using a b by (auto simp: bits.simps [of "nat a"] bits.simps [of "nat b"])
  have A1: "(2::rat) ^ (?m - 1) \<le> of_int a" and A2: "of_int a < (2::rat) ^ ?m"
    using am a by (metis int_nat_eq of_int_le_iff of_int_numeral of_int_of_nat_eq of_int_power
        of_nat_le_iff of_nat_numeral of_nat_power order_less_imp_le,
      metis am(2) a int_nat_eq of_int_of_nat_eq of_nat_less_numeral_power_cancel_iff
        order_less_imp_le of_nat_less_iff of_nat_numeral of_nat_power)
  have B1: "(2::rat) ^ (?n - 1) \<le> of_int b" and B2: "of_int b < (2::rat) ^ ?n"
    using bn b by (metis int_nat_eq of_int_le_iff of_int_numeral of_int_of_nat_eq of_int_power
        of_nat_le_iff of_nat_numeral of_nat_power order_less_imp_le,
      metis bn(2) b int_nat_eq of_int_of_nat_eq of_nat_less_numeral_power_cancel_iff
        order_less_imp_le of_nat_less_iff of_nat_numeral of_nat_power)
  let ?e = "int ?m - int ?n"
  have bq: "(0::rat) < of_int b" using b by simp
  have up: "x < 2 powi (?e + 1)"
  proof -
    have "x < 2 ^ ?m / of_int b" unfolding x using A2 bq by (simp add: divide_strict_right_mono)
    also have "\<dots> \<le> 2 ^ ?m / 2 ^ (?n - 1)"
      using B1 bq by (intro divide_left_mono mult_pos_pos) simp_all
    also have "\<dots> = 2 powi (int ?m - int (?n - 1))" by (simp add: powi_diff_nat)
    also have "int ?m - int (?n - 1) = ?e + 1" using npos by simp
    finally show ?thesis .
  qed
  have low: "2 powi (?e - 1) \<le> x"
  proof -
    have "?e - 1 = int (?m - 1) - int ?n" using mpos by simp
    then have "2 powi (?e - 1) = (2::rat) ^ (?m - 1) / 2 ^ ?n" by (simp only: powi_diff_nat)
    also have "\<dots> \<le> of_int a / 2 ^ ?n" using A1 by (simp add: divide_right_mono)
    also have "\<dots> \<le> of_int a / of_int b"
      using B2 a bq by (intro divide_left_mono) auto
    finally show ?thesis by (simp add: x)
  qed
  have E: "expo x = (if 2 powi ?e \<le> x then ?e else ?e - 1)"
    by (simp add: expo_def q Let_def)
  show "2 powi expo x \<le> x" using low by (simp add: E)
  show "x < 2 powi (expo x + 1)" using up by (auto simp: E)
qed

lemma round_even_err: "\<bar>of_int (round_even x) - x\<bar> \<le> 1 / 2"
proof -
  have "of_int \<lfloor>x\<rfloor> \<le> x" "x < of_int \<lfloor>x\<rfloor> + 1" by linarith+
  then show ?thesis unfolding round_even_def Let_def by (auto simp: abs_le_iff)
qed

lemma round_even_of_int [simp]: "round_even (of_int k) = k"
  by (simp add: round_even_def)

lemma round_even_nonneg: "0 \<le> x \<Longrightarrow> 0 \<le> round_even x"
  by (simp add: round_even_def Let_def)

lemma round_sig_err:
  assumes "x \<noteq> 0"
  shows "\<bar>round_sig p x - x\<bar> \<le> 2 powi (expo \<bar>x\<bar> - int p)"
proof -
  let ?u = "(2::rat) powi (expo \<bar>x\<bar> - int p + 1)"
  have u: "0 < ?u" by simp
  have "round_sig p x - x = sgn x * (of_int (round_even (\<bar>x\<bar> / ?u)) - \<bar>x\<bar> / ?u) * ?u"
    using assms u by (simp add: round_sig_def Let_def algebra_simps mult_sgn_abs abs_mult_sgn)
  then have "\<bar>round_sig p x - x\<bar> = \<bar>of_int (round_even (\<bar>x\<bar> / ?u)) - \<bar>x\<bar> / ?u\<bar> * ?u"
    using assms u by (simp add: abs_mult abs_sgn_eq)
  also have "\<dots> \<le> 1 / 2 * ?u"
    using u by (intro mult_right_mono round_even_err) auto
  also have "\<dots> = 2 powi (expo \<bar>x\<bar> - int p)"
    by (simp add: power_int_add)
  finally show ?thesis .
qed

lemma round_sig_0 [simp]: "round_sig p 0 = 0"
  by (simp add: round_sig_def)

lemma round_sig_nonneg: "0 \<le> x \<Longrightarrow> 0 \<le> round_sig p x"
  by (auto simp: round_sig_def Let_def intro!: mult_nonneg_nonneg round_even_nonneg)

text \<open>Integers of at most \<open>p\<close> bits are exact.\<close>

lemma round_sig_int:
  assumes "\<bar>k\<bar> < 2 ^ p"
  shows "round_sig p (of_int k) = of_int k"
proof (cases "k = 0")
  case False
  let ?x = "of_int \<bar>k\<bar> :: rat"
  have x: "0 < ?x" using False by simp
  have "(2::rat) powi expo ?x \<le> ?x" using expo_bounds(1) [OF x] .
  also have "?x < 2 ^ p"
    using assms by (metis of_int_less_iff of_int_numeral of_int_power)
  finally have "(2::rat) powi expo ?x < 2 powi int p" by (simp add: power_int_of_nat)
  then have e: "expo ?x < int p" using power_int_increasing [of "int p" "expo ?x" "2::rat"] by fastforce
  define j where "j = nat (int p - 1 - expo ?x)"
  have j: "expo ?x - int p + 1 = - int j" using e by (simp add: j_def)
  have u: "(2::rat) powi (expo ?x - int p + 1) = 1 / 2 ^ j"
    unfolding j by (simp add: power_int_minus divide_inverse)
  have "?x / (1 / 2 ^ j) = of_int (\<bar>k\<bar> * 2 ^ j)" by simp
  then have "round_even (?x / (1 / 2 ^ j)) = \<bar>k\<bar> * 2 ^ j"
    by (metis round_even_of_int)
  then have "round_sig p (of_int k) = sgn (of_int k) * of_int (\<bar>k\<bar> * 2 ^ j) * (1 / 2 ^ j)"
    using False u by (simp add: round_sig_def Let_def)
  then show ?thesis by (simp add: sgn_if)
qed simp

section \<open>float32: a percentage of a count, truncated to int\<close>

text \<open>\<^verbatim>\<open>int(x)\<close> truncates towards zero. A value outside the range of \<^verbatim>\<open>int\<close> is
  implementation-dependent in Go: the model takes the result of the amd64 conversion
  instruction.\<close>

definition trunc_rat :: "rat \<Rightarrow> int" where
  "trunc_rat x = (if 0 \<le> x then \<lfloor>x\<rfloor> else \<lceil>x\<rceil>)"

definition int_of_float :: "rat \<Rightarrow> int" where
  "int_of_float x = (let t = trunc_rat x in if fits64 t then t else - (2 ^ 63))"

text \<open>\<^verbatim>\<open>int(float32(n) * float32(p) / 100.0)\<close>\<close>

definition percent_of :: "int \<Rightarrow> int \<Rightarrow> int" where
  "percent_of n p = int_of_float
     (round_sig 24 (round_sig 24 (round_sig 24 (of_int n) * round_sig 24 (of_int p)) / 100))"

lemma int_of_float_floor:
  assumes "0 \<le> x" and "\<lfloor>x\<rfloor> < 2 ^ 63"
  shows "int_of_float x = \<lfloor>x\<rfloor>"
proof -
  have "0 \<le> \<lfloor>x\<rfloor>" using assms(1) by simp
  then show ?thesis using assms by (simp add: int_of_float_def trunc_rat_def fits64_def)
qed

lemma fits64_int_of_float [simp]: "fits64 (int_of_float x)"
  by (simp add: int_of_float_def Let_def fits64_def)

text \<open>Dividing an integer below \<open>2 ^ 24\<close> by 100 in \<^verbatim>\<open>float32\<close> never reaches the next
  integer: the rounding error is at most \<open>2 powi -7\<close>, the distance at least one hundredth.\<close>

lemma floor_round_div_100:
  assumes "0 \<le> N" and "N < 2 ^ 24"
  shows "\<lfloor>round_sig 24 (of_int N / 100)\<rfloor> = N div 100"
proof (cases "N mod 100 = 0")
  case True
  then have "(of_int N :: rat) / 100 = of_int (N div 100)"
    by (metis div_mult_mod_eq add.right_neutral nonzero_mult_div_cancel_right of_int_mult
        of_int_numeral zero_neq_numeral)
  moreover have "\<bar>N div 100\<bar> < 2 ^ 24" using assms by simp
  ultimately show ?thesis by (simp add: round_sig_int)
next
  case False
  let ?x = "(of_int N :: rat) / 100"
  have N: "0 < N" using False assms(1) by (metis le_less mod_0)
  then have x: "0 < ?x" by simp
  have "2 powi expo ?x \<le> ?x" using expo_bounds(1) [OF x] .
  also have "?x < 2 ^ 18" using assms(2) by simp
  finally have "(2::rat) powi expo ?x < 2 powi 18" by simp
  then have e: "expo ?x < 18"
    using power_int_increasing [of 18 "expo ?x" "2::rat"] by fastforce
  have "\<bar>round_sig 24 ?x - ?x\<bar> \<le> 2 powi (expo \<bar>?x\<bar> - int 24)"
    by (rule round_sig_err) (use x in simp)
  also have "\<dots> \<le> 2 powi (- 7)"
    using e x by (intro power_int_increasing) auto
  also have "(2::rat) powi (- 7) = 1 / 128"
    by (simp add: power_int_minus)
  finally have err: "\<bar>round_sig 24 ?x - ?x\<bar> \<le> 1 / 128" .
  have "N = 100 * (N div 100) + N mod 100" by simp
  then have "?x = of_int (N div 100) + of_int (N mod 100) / 100"
    by (metis (no_types) add_divide_distrib nonzero_mult_div_cancel_left of_int_add of_int_mult
        of_int_numeral zero_neq_numeral)
  moreover have "1 \<le> N mod 100" "N mod 100 \<le> 99"
    using False assms(1) pos_mod_bound [of 100 N] pos_mod_sign [of 100 N] by linarith+
  then have "(of_int 1 :: rat) \<le> of_int (N mod 100)" "(of_int (N mod 100) :: rat) \<le> of_int 99"
    by (simp_all only: of_int_le_iff)
  ultimately show ?thesis using err by (intro floor_unique) linarith+
qed

theorem percent_of_exact:
  assumes "0 \<le> n" and "0 \<le> p" and "n < 2 ^ 24" and "p < 2 ^ 24" and "n * p < 2 ^ 24"
  shows "percent_of n p = n * p div 100"
proof -
  have n: "round_sig 24 (of_int n) = of_int n" and p: "round_sig 24 (of_int p) = of_int p"
    using assms by (simp_all add: round_sig_int)
  have np: "round_sig 24 (of_int n * of_int p) = of_int (n * p)"
    using round_sig_int [of "n * p" 24] assms by simp
  have fl: "\<lfloor>round_sig 24 ((of_int (n * p) :: rat) / 100)\<rfloor> = n * p div 100"
    using floor_round_div_100 [of "n * p"] assms by simp
  have "0 \<le> round_sig 24 ((of_int (n * p) :: rat) / 100)"
    using assms by (intro round_sig_nonneg) simp
  moreover have "n * p div 100 < 2 ^ 63" using assms(5) by simp
  ultimately show ?thesis
    unfolding percent_of_def n p np using fl by (metis int_of_float_floor)
qed

section \<open>float64 with infinities and NaN\<close>

datatype gofloat = Fin rat | PInf | NInf | NaN

instantiation gofloat :: ord
begin

fun less_gofloat :: "gofloat \<Rightarrow> gofloat \<Rightarrow> bool" where
  "Fin a < Fin b \<longleftrightarrow> a < b"
| "Fin a < PInf \<longleftrightarrow> True"
| "NInf < Fin b \<longleftrightarrow> True"
| "NInf < PInf \<longleftrightarrow> True"
| "(_ :: gofloat) < _ \<longleftrightarrow> False"

definition less_eq_gofloat :: "gofloat \<Rightarrow> gofloat \<Rightarrow> bool" where
  "less_eq_gofloat a b \<longleftrightarrow> a < b \<or> (a = b \<and> a \<noteq> NaN)"

instance ..

end

text \<open>The \<^verbatim>\<open>==\<close> of \<^verbatim>\<open>float64\<close>, under which NaN differs from itself.\<close>

definition float_eq :: "gofloat \<Rightarrow> gofloat \<Rightarrow> bool" where
  "float_eq a b \<longleftrightarrow> a = b \<and> a \<noteq> NaN"

definition float64_div :: "rat \<Rightarrow> rat \<Rightarrow> gofloat" where
  "float64_div x y = (if y = 0 then if x = 0 then NaN else if 0 < x then PInf else NInf
                      else Fin (round_sig 53 (x / y)))"

text \<open>\<^verbatim>\<open>float64(a) / float64(b)\<close> for two \<^verbatim>\<open>int64\<close> values.\<close>

definition float64_ratio :: "int \<Rightarrow> int \<Rightarrow> gofloat" where
  "float64_ratio a b = float64_div (round_sig 53 (of_int a)) (round_sig 53 (of_int b))"

lemma gofloat_irrefl [simp]: "\<not> (a :: gofloat) < a"
  by (cases a) auto

lemma gofloat_trans: "(a :: gofloat) < b \<Longrightarrow> b < c \<Longrightarrow> a < c"
  by (cases a; cases b; cases c) auto

lemma gofloat_total: "a \<noteq> NaN \<Longrightarrow> b \<noteq> NaN \<Longrightarrow> (a :: gofloat) < b \<or> a = b \<or> b < a"
  by (cases a; cases b) auto

lemma gofloat_NaN [simp]: "\<not> NaN < a" "\<not> a < NaN"
  by (cases a; simp)+

lemma round_sig_eq_0_int: "\<bar>k\<bar> < 2 ^ p \<Longrightarrow> round_sig p (of_int k) = 0 \<longleftrightarrow> k = 0"
  by (simp add: round_sig_int)

lemma float64_ratio_not_NaN:
  assumes "b \<noteq> 0" and "\<bar>b\<bar> < 2 ^ 53"
  shows "float64_ratio a b \<noteq> NaN"
  using assms by (simp add: float64_ratio_def float64_div_def round_sig_eq_0_int)

end
