(* ===== verification/WriterContext.thy ===== *)
theory WriterContext
  imports KubeApi GoFloat
begin

text \<open>
  \<^verbatim>\<open>pkg/controller/nodeassignment/writer_context.go\<close>: one reconciliation of a
  NodeAssignmentGroup. \<^verbatim>\<open>Update\<close> lists the nodes, splits them into targeted and untargeted ones and
  computes how many nodes each assignment lacks or has too many; \<^verbatim>\<open>Reconcile\<close> then walks over the
  targeted nodes, takes surplus nodes and default nodes off in memory, hands free nodes to the first
  assignment in the list that still lacks one, gives the rest to the default assignment, and finally
  unassigns on the server every node that was taken off and not given away again.

  A function returns its Go result (a panic or the returned values), the context it mutated and the
  state of the server.
\<close>

section \<open>State\<close>

record writerContext =
  wc_Nag :: nag
  wc_KnownAssignments :: "string set"
  wc_TargetedNodes :: "node list"
  wc_UntargetedNodes :: "node list"
  wc_CurrentAssignments :: "string \<rightharpoonup> int"
  wc_AssignmentChanges :: "string \<rightharpoonup> int"
  wc_UnassignedNodeNames :: "string list"

text \<open>Adding a key to, and deleting it from, a map used as a set; incrementing a counter map, where a
  missing key counts from zero.\<close>

definition set_add :: "string \<Rightarrow> string list \<Rightarrow> string list" where
  "set_add x xs = (if x \<in> set xs then xs else xs @ [x])"

definition set_del :: "string \<Rightarrow> string list \<Rightarrow> string list" where
  "set_del x xs = filter (\<lambda>y. y \<noteq> x) xs"

definition count_add :: "string \<Rightarrow> int \<Rightarrow> (string \<rightharpoonup> int) \<Rightarrow> (string \<rightharpoonup> int)" where
  "count_add k d m = m(k \<mapsto> wrap64 ((case m k of None \<Rightarrow> 0 | Some v \<Rightarrow> v) + d))"

definition drop_if_zero :: "string \<Rightarrow> (string \<rightharpoonup> int) \<Rightarrow> (string \<rightharpoonup> int)" where
  "drop_if_zero k m = (if m k = Some 0 then m(k := None) else m)"

section \<open>Update\<close>

definition updateKnownAssignments :: "writerContext \<Rightarrow> writerContext" where
  "updateKnownAssignments wc =
     wc\<lparr>wc_KnownAssignments :=
          set (map na_Name (nag_Assignments (wc_Nag wc))) \<union>
          (case nag_Default (wc_Nag wc) of None \<Rightarrow> {} | Some a \<Rightarrow> {na_Name a})\<rparr>"

type_synonym 's step = "(gopanic + goerr option) \<times> writerContext \<times> 's"

text \<open>The second result of \<open>UpdateNodeAssignment\<close> is the assignment as \<^verbatim>\<open>Assign\<close> left it behind the
  pointer.\<close>

definition UpdateNodeAssignment ::
    "('s, 'd, 'p) kube \<Rightarrow> writerContext \<Rightarrow> node \<Rightarrow> nodeAssignment option \<Rightarrow> 's
     \<Rightarrow> (gopanic + goerr option \<times> nodeAssignment option) \<times> writerContext \<times> 's" where
  "UpdateNodeAssignment K wc node na s =
     (case (case na of
              Some a \<Rightarrow> (case Assign (wc_Nag wc) node a of
                           Inl p \<Rightarrow> Inl p
                         | Inr (n, a') \<Rightarrow> Inr (n, Some a'))
            | None \<Rightarrow> Inr (snd (Unassign (k_match K) (wc_Nag wc) node), None)) of
        Inl p \<Rightarrow> (Inl p, wc, s)
      | Inr (assignedNode, na') \<Rightarrow>
          (case send_node_patch K node assignedNode s of
             (Some err, s') \<Rightarrow> (Inr (Some err, na'), wc, s')
           | (None, s') \<Rightarrow>
               (Inr (None, na'),
                wc\<lparr>wc_UnassignedNodeNames := set_del (node_Name assignedNode) (wc_UnassignedNodeNames wc)\<rparr>,
                s')))"

fun nodeSets_loop :: "('s, 'd, 'p) kube \<Rightarrow> writerContext \<Rightarrow> node list \<Rightarrow> 's \<Rightarrow> 's step" where
  "nodeSets_loop K wc [] s = (Inr None, wc, s)"
| "nodeSets_loop K wc (node0 # rest) s =
     (let (node, wc1) =
        (case GetAssignment (wc_Nag wc) node0 of
           Some ca \<Rightarrow>
             if ca \<notin> wc_KnownAssignments wc
             then (snd (Unassign (k_match K) (wc_Nag wc) node0),
                   wc\<lparr>wc_UnassignedNodeNames := set_add (node_Name node0) (wc_UnassignedNodeNames wc)\<rparr>)
             else (node0, wc)
         | None \<Rightarrow> (node0, wc))
      in if TargetsNode (wc_Nag wc) node
         then nodeSets_loop K (wc1\<lparr>wc_TargetedNodes := wc_TargetedNodes wc1 @ [node]\<rparr>) rest s
         else (case GetAssignment (wc_Nag wc) node of
                 None \<Rightarrow> nodeSets_loop K wc1 rest s
               | Some curAssign \<Rightarrow>
                   (case UpdateNodeAssignment K wc1 node None s of
                      (Inl p, wc2, s2) \<Rightarrow> (Inl p, wc2, s2)
                    | (Inr (Some err, _), wc2, s2) \<Rightarrow> (Inr (Some err), wc2, s2)
                    | (Inr (None, _), wc2, s2) \<Rightarrow> nodeSets_loop K wc2 rest s2)))"

definition updateNodeSets :: "('s, 'd, 'p) kube \<Rightarrow> writerContext \<Rightarrow> 's \<Rightarrow> 's step" where
  "updateNodeSets K wc s =
     (case k_nodesList K s of
        (Inl err, s') \<Rightarrow> (Inl FatalExit, wc, s')
      | (Inr items, s') \<Rightarrow> nodeSets_loop K wc items s')"

definition count_assignment :: "nag \<Rightarrow> node \<Rightarrow> (string \<rightharpoonup> int) \<Rightarrow> (string \<rightharpoonup> int)" where
  "count_assignment nag node m =
     (case GetAssignment nag node of
        None \<Rightarrow> m
      | Some a \<Rightarrow>
          (case nag_Default nag of
             None \<Rightarrow> count_add a 1 m
           | Some dflt \<Rightarrow> if a \<noteq> na_Name dflt then count_add a 1 m else m))"

definition updateCurrentAssignments :: "writerContext \<Rightarrow> writerContext" where
  "updateCurrentAssignments wc =
     wc\<lparr>wc_CurrentAssignments :=
          fold (count_assignment (wc_Nag wc)) (wc_TargetedNodes wc) Map.empty\<rparr>"

text \<open>The number of nodes an assignment asks for when \<open>n\<close> nodes are targeted.\<close>

definition desired_nodes :: "nat \<Rightarrow> nodeAssignment \<Rightarrow> int" where
  "desired_nodes n a =
     (let desired = percent_of (int n) (na_PercentDesired a);
          desired1 = (if desired = 0 then 1 else desired)
      in if na_NumDesired a > desired1 then na_NumDesired a else desired1)"

definition set_change :: "writerContext \<Rightarrow> nodeAssignment \<Rightarrow> (string \<rightharpoonup> int) \<Rightarrow> (string \<rightharpoonup> int)" where
  "set_change wc a m =
     (let desired = desired_nodes (length (wc_TargetedNodes wc)) a;
          curNum = (case wc_CurrentAssignments wc (na_Name a) of None \<Rightarrow> 0 | Some n \<Rightarrow> n);
          d = wrap64 (desired - curNum)
      in if d \<noteq> 0 then m(na_Name a \<mapsto> d) else m)"

definition updateAssignmentChanges :: "writerContext \<Rightarrow> writerContext" where
  "updateAssignmentChanges wc =
     wc\<lparr>wc_AssignmentChanges := fold (set_change wc) (nag_Assignments (wc_Nag wc)) Map.empty\<rparr>"

text \<open>\<^verbatim>\<open>Update\<close> drops the error of \<^verbatim>\<open>updateNodeSets\<close>; only a panic or exit stops it.\<close>

definition Update :: "('s, 'd, 'p) kube \<Rightarrow> writerContext \<Rightarrow> 's \<Rightarrow> (gopanic + unit) \<times> writerContext \<times> 's" where
  "Update K wc s =
     (case updateNodeSets K (updateKnownAssignments wc) s of
        (Inl p, wc1, s1) \<Rightarrow> (Inl p, wc1, s1)
      | (Inr _, wc1, s1) \<Rightarrow>
          (Inr (), updateAssignmentChanges (updateCurrentAssignments wc1), s1))"

definition empty_writerContext :: "nag \<Rightarrow> writerContext" where
  "empty_writerContext nag = \<lparr>wc_Nag = nag, wc_KnownAssignments = {}, wc_TargetedNodes = [],
     wc_UntargetedNodes = [], wc_CurrentAssignments = Map.empty, wc_AssignmentChanges = Map.empty,
     wc_UnassignedNodeNames = []\<rparr>"

definition NewWriterContext ::
    "('s, 'd, 'p) kube \<Rightarrow> nag \<Rightarrow> 's \<Rightarrow> (gopanic + unit) \<times> writerContext \<times> 's" where
  "NewWriterContext K nag s = Update K (empty_writerContext nag) s"

section \<open>Reconcile\<close>

definition use_change :: "string \<Rightarrow> writerContext \<Rightarrow> writerContext" where
  "use_change a wc =
     wc\<lparr>wc_AssignmentChanges := drop_if_zero a (count_add a (-1) (wc_AssignmentChanges wc))\<rparr>"

definition release_change :: "string \<Rightarrow> writerContext \<Rightarrow> writerContext" where
  "release_change a wc =
     wc\<lparr>wc_AssignmentChanges := drop_if_zero a (count_add a 1 (wc_AssignmentChanges wc))\<rparr>"

fun assignNode_loop ::
    "('s, 'd, 'p) kube \<Rightarrow> writerContext \<Rightarrow> node \<Rightarrow> nodeAssignment list \<Rightarrow> 's
     \<Rightarrow> (gopanic + bool \<times> goerr option) \<times> writerContext \<times> 's" where
  "assignNode_loop K wc node [] s = (Inr (False, None), wc, s)"
| "assignNode_loop K wc node (a # as) s =
     (case wc_AssignmentChanges wc (na_Name a) of
        None \<Rightarrow> assignNode_loop K wc node as s
      | Some d \<Rightarrow>
          if d > 0 then
            (case UpdateNodeAssignment K wc node (Some a) s of
               (Inl p, wc', s') \<Rightarrow> (Inl p, wc', s')
             | (Inr (Some err, _), wc', s') \<Rightarrow> (Inr (False, Some err), wc', s')
             | (Inr (None, _), wc', s') \<Rightarrow> (Inr (True, None), use_change (na_Name a) wc', s'))
          else assignNode_loop K wc node as s)"

definition assignNode ::
    "('s, 'd, 'p) kube \<Rightarrow> writerContext \<Rightarrow> node \<Rightarrow> 's
     \<Rightarrow> (gopanic + bool \<times> goerr option) \<times> writerContext \<times> 's" where
  "assignNode K wc node s = assignNode_loop K wc node (nag_Assignments (wc_Nag wc)) s"

text \<open>Does \<^verbatim>\<open>Reconcile\<close> take the node off the assignment \<open>ca\<close> it carries?\<close>

definition must_unassign :: "writerContext \<Rightarrow> string \<Rightarrow> bool" where
  "must_unassign wc ca =
     (case wc_AssignmentChanges wc ca of
        Some d \<Rightarrow> if d < 0 then True
                  else (case nag_Default (wc_Nag wc) of None \<Rightarrow> False | Some df \<Rightarrow> ca = na_Name df)
      | None \<Rightarrow> (case nag_Default (wc_Nag wc) of None \<Rightarrow> False | Some df \<Rightarrow> ca = na_Name df))"

definition unassign_in_memory ::
    "('s, 'd, 'p) kube \<Rightarrow> writerContext \<Rightarrow> node \<Rightarrow> string \<Rightarrow> node \<times> writerContext" where
  "unassign_in_memory K wc node ca =
     (snd (Unassign (k_match K) (wc_Nag wc) node),
      release_change ca
        (wc\<lparr>wc_UnassignedNodeNames := set_add (node_Name node) (wc_UnassignedNodeNames wc)\<rparr>))"

definition set_default :: "nodeAssignment option \<Rightarrow> writerContext \<Rightarrow> writerContext" where
  "set_default na wc =
     wc\<lparr>wc_Nag := (wc_Nag wc)\<lparr>nag_Spec := (nag_Spec (wc_Nag wc))\<lparr>nags_DefaultAssignment := na\<rparr>\<rparr>\<rparr>"

text \<open>The part of the loop body from \<^verbatim>\<open>assignNode\<close> on: a node that no assignment takes goes to the
  default assignment.\<close>

definition place_node :: "('s, 'd, 'p) kube \<Rightarrow> writerContext \<Rightarrow> node \<Rightarrow> 's \<Rightarrow> 's step" where
  "place_node K wc node s =
     (case assignNode K wc node s of
        (Inl p, wc1, s1) \<Rightarrow> (Inl p, wc1, s1)
      | (Inr (True, err), wc1, s1) \<Rightarrow> (Inr None, wc1, s1)
      | (Inr (False, err), wc1, s1) \<Rightarrow>
          (if GetAssignment (wc_Nag wc1) node = None then
             (case nag_Default (wc_Nag wc1) of
                None \<Rightarrow> (Inr None, wc1, s1)
              | Some df \<Rightarrow>
                  (case UpdateNodeAssignment K wc1 node (Some df) s1 of
                     (Inl p, wc2, s2) \<Rightarrow> (Inl p, wc2, s2)
                   | (Inr (err', na'), wc2, s2) \<Rightarrow> (Inr err', set_default na' wc2, s2)))
           else (Inr None, wc1, s1)))"

definition reconcileNode ::
    "('s, 'd, 'p) kube \<Rightarrow> writerContext \<Rightarrow> node \<Rightarrow> 's \<Rightarrow> (gopanic + goerr option) \<times> node \<times> writerContext \<times> 's" where
  "reconcileNode K wc node s =
     (case GetAssignment (wc_Nag wc) node of
        Some ca \<Rightarrow>
          if must_unassign wc ca
          then (case unassign_in_memory K wc node ca of
                  (node1, wc1) \<Rightarrow> (case place_node K wc1 node1 s of (r, wc2, s2) \<Rightarrow> (r, node1, wc2, s2)))
          else (Inr None, node, wc, s)
      | None \<Rightarrow> (case place_node K wc node s of (r, wc2, s2) \<Rightarrow> (r, node, wc2, s2)))"

text \<open>The loop returns the targeted nodes as it leaves them in memory; an error of the default
  assignment stops it.\<close>

fun reconcile_loop ::
    "('s, 'd, 'p) kube \<Rightarrow> writerContext \<Rightarrow> node list \<Rightarrow> 's
     \<Rightarrow> (gopanic + goerr option) \<times> node list \<times> writerContext \<times> 's" where
  "reconcile_loop K wc [] s = (Inr None, [], wc, s)"
| "reconcile_loop K wc (node # rest) s =
     (case reconcileNode K wc node s of
        (Inr None, node', wc1, s1) \<Rightarrow>
          (case reconcile_loop K wc1 rest s1 of (r, rest', wc2, s2) \<Rightarrow> (r, node' # rest', wc2, s2))
      | (r, node', wc1, s1) \<Rightarrow> (r, node' # rest, wc1, s1))"

definition UnassignNodeByName ::
    "('s, 'd, 'p) kube \<Rightarrow> writerContext \<Rightarrow> string \<Rightarrow> 's \<Rightarrow> 's step" where
  "UnassignNodeByName K wc name s =
     (case k_nodesGet K name s of
        (Inl err, s1) \<Rightarrow> (Inr (Some err), wc, s1)
      | (Inr node, s1) \<Rightarrow>
          (case UpdateNodeAssignment K wc node None s1 of
             (Inl p, wc2, s2) \<Rightarrow> (Inl p, wc2, s2)
           | (Inr (err, _), wc2, s2) \<Rightarrow> (Inr err, wc2, s2)))"

text \<open>The clean-up loop logs an error and goes on.\<close>

fun cleanup_loop ::
    "('s, 'd, 'p) kube \<Rightarrow> writerContext \<Rightarrow> string list \<Rightarrow> 's \<Rightarrow> 's step" where
  "cleanup_loop K wc [] s = (Inr None, wc, s)"
| "cleanup_loop K wc (nm # nms) s =
     (case UnassignNodeByName K wc nm s of
        (Inl p, wc1, s1) \<Rightarrow> (Inl p, wc1, s1)
      | (Inr _, wc1, s1) \<Rightarrow> cleanup_loop K wc1 nms s1)"

definition Reconcile :: "('s, 'd, 'p) kube \<Rightarrow> writerContext \<Rightarrow> 's \<Rightarrow> 's step" where
  "Reconcile K wc s =
     (case reconcile_loop K wc (wc_TargetedNodes wc) s of
        (Inl p, nodes, wc1, s1) \<Rightarrow> (Inl p, wc1\<lparr>wc_TargetedNodes := nodes\<rparr>, s1)
      | (Inr (Some err), nodes, wc1, s1) \<Rightarrow> (Inr (Some err), wc1\<lparr>wc_TargetedNodes := nodes\<rparr>, s1)
      | (Inr None, nodes, wc1, s1) \<Rightarrow>
          cleanup_loop K (wc1\<lparr>wc_TargetedNodes := nodes\<rparr>)
            (k_range K (wc_UnassignedNodeNames wc1)) s1)"

fun unassignAll_loop :: "('s, 'd, 'p) kube \<Rightarrow> writerContext \<Rightarrow> node list \<Rightarrow> 's \<Rightarrow> 's step" where
  "unassignAll_loop K wc [] s = (Inr None, wc, s)"
| "unassignAll_loop K wc (node # rest) s =
     (case UpdateNodeAssignment K wc node None s of
        (Inl p, wc1, s1) \<Rightarrow> (Inl p, wc1, s1)
      | (Inr _, wc1, s1) \<Rightarrow> unassignAll_loop K wc1 rest s1)"

definition UnassignAllNodes :: "('s, 'd, 'p) kube \<Rightarrow> writerContext \<Rightarrow> 's \<Rightarrow> 's step" where
  "UnassignAllNodes K wc s =
     (case k_nodesList K s of
        (Inl err, s1) \<Rightarrow> (Inr (Some err), wc, s1)
      | (Inr items, s1) \<Rightarrow> unassignAll_loop K wc items s1)"

end
