(* ===== verification/Plan.thy ===== *)
theory Plan
  imports WriterContext
begin

text \<open>
  The abstract specification of \<^verbatim>\<open>Reconcile\<close>: what happens to the assignment each targeted node
  carries, with the server, the taints and the in-memory copies left out. A node's assignment is a
  \<open>string option\<close>, the outstanding changes are a total function (a missing entry is 0), and the
  group contributes the names of its assignments in order and the name of its default.
  \<open>ReconcileRefinement\<close> shows that the labels the code leaves on the server are those of the plan.
\<close>

section \<open>The plan\<close>

type_synonym demand = "string \<Rightarrow> int"

fun pick :: "string list \<Rightarrow> demand \<Rightarrow> string option" where
  "pick [] ch = None"
| "pick (a # as) ch = (if ch a > 0 then Some a else pick as ch)"

definition place :: "string list \<Rightarrow> string option \<Rightarrow> demand \<Rightarrow> string option \<times> demand" where
  "place as dflt ch =
     (case pick as ch of Some a \<Rightarrow> (Some a, ch(a := ch a - 1)) | None \<Rightarrow> (dflt, ch))"

definition plan_step ::
    "string list \<Rightarrow> string option \<Rightarrow> demand \<Rightarrow> string option \<Rightarrow> string option \<times> demand" where
  "plan_step as dflt ch cur =
     (case cur of
        None \<Rightarrow> place as dflt ch
      | Some c \<Rightarrow> if ch c < 0 \<or> dflt = Some c then place as dflt (ch(c := ch c + 1))
                  else (Some c, ch))"

fun plan ::
    "string list \<Rightarrow> string option \<Rightarrow> demand \<Rightarrow> string option list \<Rightarrow> string option list \<times> demand" where
  "plan as dflt ch [] = ([], ch)"
| "plan as dflt ch (cur # rest) =
     (let (r, ch1) = plan_step as dflt ch cur; (rs, ch2) = plan as dflt ch1 rest in (r # rs, ch2))"

definition occ :: "string \<Rightarrow> string option list \<Rightarrow> int" where
  "occ x cs = int (count_list cs (Some x))"

lemma occ_simps [simp]:
  "occ x [] = 0"
  "occ x (c # cs) = (if c = Some x then 1 else 0) + occ x cs"
  by (simp_all add: occ_def)

lemma occ_nonneg [simp]: "0 \<le> occ x cs"
  by (simp add: occ_def)

lemma pick_Some: "pick as ch = Some a \<Longrightarrow> a \<in> set as \<and> 0 < ch a"
  by (induction as) (auto split: if_splits)

lemma pick_None: "pick as ch = None \<longleftrightarrow> (\<forall>a \<in> set as. ch a \<le> 0)"
  by (induction as) auto

lemma length_plan [simp]: "length (fst (plan as dflt ch cs)) = length cs"
  by (induction cs arbitrary: ch) (simp_all add: Let_def split_beta)

section \<open>One step\<close>

text \<open>A step moves one unit between the node and the demand: nothing is lost for any name but the
  default's.\<close>

lemma plan_step_conserve:
  assumes "plan_step as dflt ch cur = (r, ch')" and "Some x \<noteq> dflt"
  shows "(if r = Some x then 1 else 0) + ch' x = (if cur = Some x then 1 else 0) + ch x"
  using assms
  by (auto simp: plan_step_def place_def split: option.splits if_splits)

lemma plan_step_sign:
  assumes "plan_step as dflt ch cur = (r, ch')" and "Some x \<noteq> dflt"
  shows "(ch x \<le> 0 \<longrightarrow> ch' x \<le> 0) \<and> (0 \<le> ch x \<longrightarrow> 0 \<le> ch' x)"
  using assms pick_Some [of as ch] pick_Some [of as "ch(the cur := ch (the cur) + 1)"]
  by (fastforce simp: plan_step_def place_def split: option.splits if_splits)

text \<open>A node of an assignment with a surplus is taken off it.\<close>

lemma plan_step_surplus:
  assumes "plan_step as dflt ch (Some x) = (r, ch')" and "Some x \<noteq> dflt" and "ch x < 0"
  shows "ch' x = ch x + 1"
  using assms pick_Some [of as "ch(x := ch x + 1)"]
  by (auto simp: plan_step_def place_def split: option.splits)

lemma plan_step_gain:
  assumes "plan_step as dflt ch cur = (Some x, ch')" and "Some x \<noteq> dflt" and "cur \<noteq> Some x"
  shows "0 < ch x"
proof -
  have place: "0 < m x" if "place as dflt m = (Some x, ch')" for m
  proof (cases "pick as m")
    case None
    then show ?thesis using that assms(2) by (simp add: place_def)
  next
    case (Some a)
    then show ?thesis using that pick_Some [OF Some] by (simp add: place_def)
  qed
  show ?thesis
  proof (cases cur)
    case None
    then show ?thesis using place [of ch] assms(1) by (simp add: plan_step_def)
  next
    case (Some c)
    then show ?thesis
      using place [of "ch(c := ch c + 1)"] assms(1,3) by (auto simp: plan_step_def split: if_splits)
  qed
qed

text \<open>A node falls to the default only when no assignment lacks a node.\<close>

lemma place_default:
  assumes "place as dflt ch = (r, ch')" and "x \<in> set as" and "dflt \<notin> Some ` set as" and "0 < ch x"
  shows "r \<in> Some ` set as"
proof (cases "pick as ch")
  case None
  then show ?thesis using assms(2,4) pick_None [of as ch] by fastforce
next
  case (Some a)
  then have "r = Some a" using assms(1) by (simp add: place_def)
  then show ?thesis using pick_Some [OF Some] by simp
qed

lemma plan_step_default:
  assumes "plan_step as dflt ch cur = (r, ch')" and "x \<in> set as" and "dflt \<notin> Some ` set as"
    and "0 < ch' x"
  shows "r \<noteq> None \<and> r \<noteq> dflt"
proof -
  have xd: "Some x \<noteq> dflt" using assms(2,3) by auto
  have pos: "0 < ch x" using plan_step_sign [OF assms(1) xd] assms(4) by linarith
  have ok: "s \<in> Some ` set as \<Longrightarrow> s \<noteq> None \<and> s \<noteq> dflt" for s using assms(3) by auto
  show ?thesis
  proof (cases cur)
    case None
    then have "place as dflt ch = (r, ch')" using assms(1) by (simp add: plan_step_def)
    from place_default [OF this assms(2,3) pos] show ?thesis by (rule ok)
  next
    case (Some c)
    show ?thesis
    proof (cases "ch c < 0 \<or> dflt = Some c")
      case True
      then have "place as dflt (ch(c := ch c + 1)) = (r, ch')"
        using assms(1) Some by (simp add: plan_step_def)
      moreover have "0 < (ch(c := ch c + 1)) x" using pos by auto
      ultimately have "r \<in> Some ` set as" using place_default assms(2,3) by blast
      then show ?thesis by (rule ok)
    next
      case False
      with Some assms(1) show ?thesis by (auto simp: plan_step_def)
    qed
  qed
qed

section \<open>The whole plan\<close>

lemma plan_ConsE:
  assumes "plan as dflt ch (cur # rest) = (res, ch')"
  obtains r ch1 rs where "plan_step as dflt ch cur = (r, ch1)" "plan as dflt ch1 rest = (rs, ch')"
    "res = r # rs"
  using assms by (auto simp: Let_def split: prod.splits)

lemma plan_conserve:
  "plan as dflt ch cs = (res, ch') \<Longrightarrow> Some x \<noteq> dflt \<Longrightarrow> occ x res + ch' x = occ x cs + ch x"
proof (induction cs arbitrary: ch res)
  case (Cons c cs)
  from Cons.prems(1) obtain r ch1 rs where *: "plan_step as dflt ch c = (r, ch1)"
    "plan as dflt ch1 cs = (rs, ch')" "res = r # rs" by (rule plan_ConsE)
  show ?case
    using plan_step_conserve [OF *(1) Cons.prems(2)] Cons.IH [OF *(2) Cons.prems(2)] *(3) by simp
qed simp

lemma plan_sign:
  "plan as dflt ch cs = (res, ch') \<Longrightarrow> Some x \<noteq> dflt \<Longrightarrow>
   (ch x \<le> 0 \<longrightarrow> ch' x \<le> 0) \<and> (0 \<le> ch x \<longrightarrow> 0 \<le> ch' x)"
proof (induction cs arbitrary: ch res)
  case (Cons c cs)
  from Cons.prems(1) obtain r ch1 rs where *: "plan_step as dflt ch c = (r, ch1)"
    "plan as dflt ch1 cs = (rs, ch')" "res = r # rs" by (rule plan_ConsE)
  show ?case
    using plan_step_sign [OF *(1) Cons.prems(2)] Cons.IH [OF *(2) Cons.prems(2)] by blast
qed simp

text \<open>A surplus that the nodes can cover is removed entirely.\<close>

lemma plan_surplus:
  "plan as dflt ch cs = (res, ch') \<Longrightarrow> Some x \<noteq> dflt \<Longrightarrow> ch x \<le> 0 \<Longrightarrow> - ch x \<le> occ x cs \<Longrightarrow> ch' x = 0"
proof (induction cs arbitrary: ch res)
  case (Cons c cs)
  from Cons.prems(1) obtain r ch1 rs where *: "plan_step as dflt ch c = (r, ch1)"
    "plan as dflt ch1 cs = (rs, ch')" "res = r # rs" by (rule plan_ConsE)
  have neg: "ch1 x \<le> 0" using plan_step_sign [OF *(1) Cons.prems(2)] Cons.prems(3) by blast
  have "- ch1 x \<le> occ x cs"
  proof (cases "c = Some x \<and> ch x < 0")
    case True
    then show ?thesis
      using plan_step_surplus [of as dflt ch x r ch1] * Cons.prems by simp
  next
    case False
    then have "ch x = 0 \<or> c \<noteq> Some x" using Cons.prems(3) by auto
    then show ?thesis
      using plan_step_gain [of as dflt ch c x ch1] * Cons.prems(2) plan_step_sign [OF *(1) Cons.prems(2)] plan_step_conserve [OF *(1) Cons.prems(2)] Cons.prems(3,4)
        occ_nonneg [of x cs] by (auto split: if_splits)
  qed
  then show ?case by (rule Cons.IH [OF *(2) Cons.prems(2) neg])
qed simp

text \<open>While some assignment of the list stays short, no node is left free or on the default.\<close>

lemma plan_shortage:
  "plan as dflt ch cs = (res, ch') \<Longrightarrow> x \<in> set as \<Longrightarrow> dflt \<notin> Some ` set as \<Longrightarrow> 0 < ch' x \<Longrightarrow>
   \<forall>r \<in> set res. r \<noteq> None \<and> r \<noteq> dflt"
proof (induction cs arbitrary: ch res)
  case (Cons c cs)
  from Cons.prems(1) obtain r ch1 rs where *: "plan_step as dflt ch c = (r, ch1)"
    "plan as dflt ch1 cs = (rs, ch')" "res = r # rs" by (rule plan_ConsE)
  have xd: "Some x \<noteq> dflt" using Cons.prems(2,3) by auto
  have "0 < ch1 x" using plan_sign [OF *(2) xd] Cons.prems(4) by linarith
  then show ?case
    using plan_step_default [OF *(1) Cons.prems(2,3)] Cons.IH [OF *(2) Cons.prems(2,3,4)] *(3) by simp
qed simp

definition demand_of :: "(string \<Rightarrow> int) \<Rightarrow> string list \<Rightarrow> string option list \<Rightarrow> demand" where
  "demand_of desired as cs x = (if x \<in> set as then desired x - occ x cs else 0)"

text \<open>Every listed assignment ends with at most the nodes it asks for, and with exactly that many
  unless the nodes ran out: then every node is assigned and none is on the default.\<close>

lemma plan_reaches_desired:
  assumes "plan as dflt (demand_of desired as cs) cs = (res, ch')"
    and "x \<in> set as" and "dflt \<notin> Some ` set as" and "0 \<le> desired x"
  shows "occ x res = desired x \<or>
    (occ x res < desired x \<and> (\<forall>r \<in> set res. r \<noteq> None \<and> r \<noteq> dflt))"
proof -
  have xd: "Some x \<noteq> dflt" using assms(2,3) by auto
  let ?ch = "demand_of desired as cs"
  have d: "?ch x = desired x - occ x cs" using assms(2) by (simp add: demand_of_def)
  have "occ x res + ch' x = desired x"
    using plan_conserve [OF assms(1) xd] d by simp
  moreover have "0 \<le> ch' x"
    using plan_sign [OF assms(1) xd] plan_surplus [OF assms(1) xd] d assms(4) by linarith
  moreover have "0 < ch' x \<Longrightarrow> \<forall>r \<in> set res. r \<noteq> None \<and> r \<noteq> dflt"
    by (rule plan_shortage [OF assms(1-3)])
  ultimately show ?thesis by (cases "ch' x = 0") auto
qed

text \<open>Once nothing is lacking or in excess, planning again moves no node.\<close>

lemma place_none: "\<forall>a \<in> set as. ch a \<le> 0 \<Longrightarrow> place as dflt ch = (dflt, ch)"
  using pick_None [of as ch] by (simp add: place_def)

lemma plan_stable:
  assumes "dflt \<notin> Some ` set as" and "None \<notin> set cs \<or> dflt = None"
    and "\<forall>a. Some a \<noteq> dflt \<longrightarrow> ch a = 0"
  shows "fst (plan as dflt ch cs) = cs"
  using assms
proof (induction cs arbitrary: ch)
  case (Cons c cs)
  have zero: "\<forall>a \<in> set as. ch a \<le> 0" using Cons.prems(1,3) by force
  obtain ch1 where st: "plan_step as dflt ch c = (c, ch1)" and z: "\<forall>a. Some a \<noteq> dflt \<longrightarrow> ch1 a = 0"
  proof (cases c)
    case None
    then have "dflt = None" using Cons.prems(2) by auto
    then have "plan_step as dflt ch c = (c, ch)"
      using place_none [OF zero, of dflt] None by (simp only: plan_step_def option.case)
    then show ?thesis using that Cons.prems(3) by blast
  next
    case (Some y)
    show ?thesis
    proof (cases "dflt = Some y")
      case True
      have "\<forall>a \<in> set as. (ch(y := ch y + 1)) a \<le> 0" using zero True Cons.prems(1) by auto
      from place_none [OF this, of dflt]
      have "plan_step as dflt ch c = (c, ch(y := ch y + 1))"
        using Some True by (simp only: plan_step_def option.case simp_thms if_True)
      moreover have "\<forall>a. Some a \<noteq> dflt \<longrightarrow> (ch(y := ch y + 1)) a = 0" using True Cons.prems(3) by auto
      ultimately show ?thesis by (rule that)
    next
      case False
      then show ?thesis using that [of ch] Some Cons.prems(3) by (auto simp: plan_step_def)
    qed
  qed
  have "fst (plan as dflt ch1 cs) = cs"
    using Cons.IH [OF Cons.prems(1) _ z] Cons.prems(2) by auto
  then show ?case using st by (simp add: Let_def split_beta)
qed simp


section \<open>Where a node can end\<close>

lemma place_range: "place as dflt ch = (r, ch') \<Longrightarrow> r \<in> Some ` set as \<or> r = dflt"
proof (cases "pick as ch")
  case (Some a)
  assume "place as dflt ch = (r, ch')"
  then have "r = Some a" using Some by (simp only: place_def option.case prod.inject)
  then show ?thesis using pick_Some [OF Some] by blast
qed (simp add: place_def)

lemma plan_step_range:
  "plan_step as dflt ch cur = (r, ch') \<Longrightarrow> r \<in> Some ` set as \<or> r = dflt \<or> (r = cur \<and> cur \<noteq> None)"
  by (auto simp: plan_step_def dest: place_range split: option.splits if_splits)

lemma plan_range:
  "plan as dflt ch cs = (res, ch') \<Longrightarrow> r \<in> set res \<Longrightarrow>
   r \<in> Some ` set as \<or> r = dflt \<or> (r \<in> set cs \<and> r \<noteq> None)"
proof (induction cs arbitrary: ch res)
  case (Cons c cs)
  from Cons.prems(1) obtain r1 ch1 rs where *: "plan_step as dflt ch c = (r1, ch1)"
    "plan as dflt ch1 cs = (rs, ch')" "res = r1 # rs" by (rule plan_ConsE)
  show ?case
    using plan_step_range [OF *(1)] Cons.IH [OF *(2)] Cons.prems(2) *(3) by auto
qed simp

end
