(* ===== verification/ReconcileRefinement.thy ===== *)
theory ReconcileRefinement
  imports Plan
begin

text \<open>
  \<^verbatim>\<open>Reconcile\<close> implements the plan: on a server that does not fail, the group label of every targeted
  node is, after the clean-up loop, what \<open>plan\<close> computes from the labels before. The link between
  memory and server is \<open>tracks\<close>: an assignment in memory is the label on the server, and a node
  that is free in memory has no label on the server or waits in \<^verbatim>\<open>UnassignedNodeNames\<close>.
\<close>

section \<open>Views\<close>

definition wf_node :: "node \<Rightarrow> bool" where
  "wf_node n \<longleftrightarrow> wf_map (node_Labels n) \<and> node_Labels n \<noteq> None"

definition wf_view :: "node list \<Rightarrow> bool" where
  "wf_view ns \<longleftrightarrow> distinct (names ns) \<and> (\<forall>n \<in> set ns. wf_node n)"

definition label_at :: "string \<Rightarrow> node list \<Rightarrow> string \<Rightarrow> string option" where
  "label_at g ns nm =
     (case find (\<lambda>n. node_Name n = nm) ns of
        None \<Rightarrow> None | Some n \<Rightarrow> mget (node_Labels n) (assign_key g))"

definition tracks :: "string \<Rightarrow> node list \<Rightarrow> string list \<Rightarrow> string \<Rightarrow> string option \<Rightarrow> bool" where
  "tracks g ns U nm r \<longleftrightarrow>
     (case r of Some x \<Rightarrow> label_at g ns nm = Some x \<and> nm \<notin> set U
      | None \<Rightarrow> label_at g ns nm = None \<or> nm \<in> set U)"

lemma merge_labels_not_None: "cur \<noteq> None \<Longrightarrow> merge_labels old new cur \<noteq> None"
  by (auto simp: merge_labels_def Let_def)

lemma wf_node_merge [simp]: "wf_node c \<Longrightarrow> wf_node (merge_node old new c)"
  by (simp add: wf_node_def wf_map_merge_labels merge_labels_not_None)

lemma wf_node_Unassign [simp]: "wf_node n \<Longrightarrow> wf_node (snd (Unassign match nag n))"
  by (auto simp: wf_node_def wf_map_Unassign) (auto simp: Unassign_labels mdel_def)

lemma wf_node_assigned [simp]: "wf_node n \<Longrightarrow> wf_node (assigned_node nag n na)"
  by (auto simp: wf_node_def wf_map_assigned_node) (auto simp: assigned_node_def)

lemma wf_view_update:
  assumes "wf_view ns"
  shows "wf_view (update_view nm (merge_node old new) ns)"
  using assms by (auto simp: wf_view_def) (auto simp: update_view_def)

lemma label_at_other: "nm' \<noteq> nm \<Longrightarrow> label_at g (update_view nm (merge_node o1 o2) ns) nm' = label_at g ns nm'"
  by (simp add: label_at_def find_update_view)

lemma label_at_merge:
  assumes "wf_view ns" and "nm \<in> set (names ns)" and "wf_node old" and "wf_node new"
    and "mget (node_Labels old) (assign_key g) \<noteq> mget (node_Labels new) (assign_key g) \<or>
         label_at g ns nm = mget (node_Labels new) (assign_key g)"
  shows "label_at g (update_view nm (merge_node old new) ns) nm = mget (node_Labels new) (assign_key g)"
proof -
  obtain c where c: "find (\<lambda>n. node_Name n = nm) ns = Some c"
    using assms(2) find_names [of nm ns] by (cases "find (\<lambda>n. node_Name n = nm) ns") auto
  then show ?thesis
    using assms(3-5) by (auto simp: label_at_def find_update_view merge_labels_get wf_node_def)
qed

lemma label_at_find: "n \<in> set ns \<Longrightarrow> distinct (names ns) \<Longrightarrow>
    label_at g ns (node_Name n) = mget (node_Labels n) (assign_key g)"
  using find_Some_iff_names [of ns "node_Name n" n] by (simp add: label_at_def)

section \<open>Counters\<close>

definition amount :: "(string \<rightharpoonup> int) \<Rightarrow> demand" where
  "amount m k = (case m k of None \<Rightarrow> 0 | Some v \<Rightarrow> v)"

lemma amount_empty [simp]: "amount Map.empty k = 0"
  by (simp add: amount_def)

lemma amount_count_add: "amount (count_add a d m) = (amount m)(a := wrap64 (amount m a + d))"
  by (auto simp: amount_def count_add_def fun_eq_iff split: option.splits)

lemma amount_drop_if_zero [simp]: "amount (drop_if_zero a m) = amount m"
  by (auto simp: amount_def drop_if_zero_def fun_eq_iff)

lemma amount_use: "amount (wc_AssignmentChanges (use_change a wc)) =
    (amount (wc_AssignmentChanges wc))(a := wrap64 (amount (wc_AssignmentChanges wc) a - 1))"
  by (simp add: use_change_def amount_count_add)

lemma amount_release: "amount (wc_AssignmentChanges (release_change a wc)) =
    (amount (wc_AssignmentChanges wc))(a := wrap64 (amount (wc_AssignmentChanges wc) a + 1))"
  by (simp add: release_change_def amount_count_add)

definition default_name :: "nag \<Rightarrow> string option" where
  "default_name nag = map_option na_Name (nag_Default nag)"

lemma must_unassign_iff:
  "must_unassign wc ca \<longleftrightarrow>
     amount (wc_AssignmentChanges wc) ca < 0 \<or> default_name (wc_Nag wc) = Some ca"
  by (auto simp: must_unassign_def amount_def default_name_def split: option.splits)

text \<open>No counter overflows while \<open>k\<close> nodes are still to be visited.\<close>

definition safe_changes :: "demand \<Rightarrow> string option \<Rightarrow> int \<Rightarrow> bool" where
  "safe_changes ch df k \<longleftrightarrow>
     (\<forall>x. fits64 (ch x)) \<and> (\<forall>d. df = Some d \<longrightarrow> ch d + k < 2 ^ 63)"

section \<open>Assignments as the loop leaves them\<close>

definition settled :: "nodeAssignment \<Rightarrow> nodeAssignment" where
  "settled na = (if effective_mode na = NodeAssignmentModeLabelAndTaint
     then na\<lparr>na_Mode := effective_mode na, na_TaintEffect := effective_effect na\<rparr>
     else na\<lparr>na_Mode := effective_mode na\<rparr>)"

lemma settled_simps [simp]: "na_Name (settled na) = na_Name na"
  by (simp add: settled_def)

lemma known_mode_settled [simp]: "known_mode (settled na) \<longleftrightarrow> known_mode na"
  by (auto simp: settled_def known_mode_def effective_mode_def mode_defs)

lemma Assign_ok: "node_Labels n \<noteq> None \<Longrightarrow> Assign nag n na = Inr (assigned_node nag n na, settled na)"
  by (simp add: Assign_cases settled_def)

text \<open>What the loop needs to know of the group, and keeps.\<close>

definition group_ok :: "string \<Rightarrow> nodeAssignment list \<Rightarrow> string option \<Rightarrow> nag \<Rightarrow> bool" where
  "group_ok g as df nag \<longleftrightarrow>
     nag_Name nag = g \<and> nag_Assignments nag = as \<and> default_name nag = df \<and>
     (\<forall>a \<in> set as. known_mode a) \<and> (\<forall>a. nag_Default nag = Some a \<longrightarrow> known_mode a)"

lemma group_ok_set_default:
  "group_ok g as df (wc_Nag wc) \<Longrightarrow> nag_Default (wc_Nag wc) = Some a \<Longrightarrow>
   group_ok g as df (wc_Nag (set_default (Some (settled a)) wc))"
  by (auto simp: group_ok_def set_default_def default_name_def)

section \<open>One server write\<close>

context reliable_node_api
begin

lemma update_assign:
  assumes "node_Name n \<in> set (names (view s))" and "wf_node n"
  shows "\<exists>s'. UpdateNodeAssignment K wc n (Some a) s =
      (Inr (None, Some (settled a)),
       wc\<lparr>wc_UnassignedNodeNames := set_del (node_Name n) (wc_UnassignedNodeNames wc)\<rparr>, s') \<and>
    view s' = update_view (node_Name n) (merge_node n (assigned_node (wc_Nag wc) n a)) (view s)"
proof -
  have lab: "node_Labels n \<noteq> None" using assms(2) by (simp add: wf_node_def)
  obtain s' where s': "send_node_patch K n (assigned_node (wc_Nag wc) n a) s = (None, s')"
    using send_node_patch_total [OF assms(1)] by blast
  have "view s' = update_view (node_Name n) (merge_node n (assigned_node (wc_Nag wc) n a)) (view s)"
    using send_node_patch_ok [OF s' node_variant_assigned] assms(2) wf_node_assigned [OF assms(2)]
    by (simp add: wf_node_def)
  then show ?thesis
    by (simp add: UpdateNodeAssignment_def Assign_ok [OF lab] s')
qed

lemma update_unassign:
  assumes "node_Name n \<in> set (names (view s))" and "wf_node n"
  shows "\<exists>s'. UpdateNodeAssignment K wc n None s =
      (Inr (None, None),
       wc\<lparr>wc_UnassignedNodeNames := set_del (node_Name n) (wc_UnassignedNodeNames wc)\<rparr>, s') \<and>
    view s' = update_view (node_Name n) (merge_node n (snd (Unassign (k_match K) (wc_Nag wc) n))) (view s)"
proof -
  obtain s' where s': "send_node_patch K n (snd (Unassign (k_match K) (wc_Nag wc) n)) s = (None, s')"
    using send_node_patch_total [OF assms(1)] by blast
  have "view s' = update_view (node_Name n) (merge_node n (snd (Unassign (k_match K) (wc_Nag wc) n))) (view s)"
    using send_node_patch_ok [OF s' node_variant_Unassign] assms(2) wf_node_Unassign [OF assms(2)]
    by (simp add: wf_node_def)
  then show ?thesis by (simp add: UpdateNodeAssignment_def s')
qed

text \<open>\<^verbatim>\<open>assignNode\<close> picks the first assignment of the list that lacks a node.\<close>

lemma assignNode_loop_pick:
  assumes "node_Name n \<in> set (names (view s))" and "wf_node n" and "\<forall>a \<in> set as. known_mode a"
  shows "case pick (map na_Name as) (amount (wc_AssignmentChanges wc)) of
      None \<Rightarrow> assignNode_loop K wc n as s = (Inr (False, None), wc, s)
    | Some x \<Rightarrow> \<exists>a s'. na_Name a = x \<and> known_mode a \<and> assignNode_loop K wc n as s =
        (Inr (True, None), use_change x
          (wc\<lparr>wc_UnassignedNodeNames := set_del (node_Name n) (wc_UnassignedNodeNames wc)\<rparr>), s') \<and>
        view s' = update_view (node_Name n) (merge_node n (assigned_node (wc_Nag wc) n a)) (view s)"
  using assms(3)
proof (induction as)
  case (Cons a as)
  show ?case
  proof (cases "0 < amount (wc_AssignmentChanges wc) (na_Name a)")
    case True
    then obtain d where d: "wc_AssignmentChanges wc (na_Name a) = Some d" "0 < d"
      by (auto simp: amount_def split: option.splits)
    show ?thesis
      using update_assign [OF assms(1,2), of wc a] True d Cons.prems by auto
  next
    case False
    then have eq: "assignNode_loop K wc n (a # as) s = assignNode_loop K wc n as s"
      by (auto simp: amount_def split: option.splits)
    have pk: "pick (map na_Name (a # as)) (amount (wc_AssignmentChanges wc)) =
        pick (map na_Name as) (amount (wc_AssignmentChanges wc))"
      using False by simp
    show ?thesis unfolding eq pk using Cons by simp
  qed
qed simp

end

section \<open>One iteration of the loop\<close>

text \<open>What an iteration for the node \<open>nm\<close> with outcome \<open>r\<close> does to the context and the server.\<close>

definition node_step ::
    "string \<Rightarrow> nodeAssignment list \<Rightarrow> string option \<Rightarrow> string \<Rightarrow> writerContext \<Rightarrow> node list
     \<Rightarrow> writerContext \<Rightarrow> node list \<Rightarrow> string option \<Rightarrow> bool" where
  "node_step g as df nm wc ns wc' ns' r \<longleftrightarrow>
     tracks g ns' (wc_UnassignedNodeNames wc') nm r \<and>
     (\<forall>nm'. nm' \<noteq> nm \<longrightarrow> label_at g ns' nm' = label_at g ns nm' \<and>
        (nm' \<in> set (wc_UnassignedNodeNames wc') \<longleftrightarrow> nm' \<in> set (wc_UnassignedNodeNames wc))) \<and>
     wf_view ns' \<and> names ns' = names ns \<and> group_ok g as df (wc_Nag wc')"

lemma set_set_del [simp]: "set (set_del x xs) = set xs - {x}"
  by (auto simp: set_del_def)

lemma set_set_add [simp]: "set (set_add x xs) = insert x (set xs)"
  by (auto simp: set_add_def)

lemma change_frames [simp]:
  "wc_Nag (use_change a wc) = wc_Nag wc" "wc_Nag (release_change a wc) = wc_Nag wc"
  "wc_UnassignedNodeNames (use_change a wc) = wc_UnassignedNodeNames wc"
  "wc_UnassignedNodeNames (release_change a wc) = wc_UnassignedNodeNames wc"
  by (simp_all add: use_change_def release_change_def)

lemma set_default_frames [simp]:
  "wc_AssignmentChanges (set_default na wc) = wc_AssignmentChanges wc"
  "wc_UnassignedNodeNames (set_default na wc) = wc_UnassignedNodeNames wc"
  by (simp_all add: set_default_def)

lemma node_step_write:
  assumes "wf_view ns" and "node_Name n \<in> set (names ns)" and "wf_node n" and "known_mode a"
    and "nag_Name nag = g" and "GetAssignment nag n = None"
    and "wc_UnassignedNodeNames wc' = set_del (node_Name n) (wc_UnassignedNodeNames wc)"
    and "group_ok g as df (wc_Nag wc')"
  shows "node_step g as df (node_Name n) wc ns wc'
    (update_view (node_Name n) (merge_node n (assigned_node nag n a)) ns) (Some (na_Name a))"
proof -
  have new: "mget (node_Labels (assigned_node nag n a)) (assign_key g) = Some (na_Name a)"
    using assms(4,5) by (simp add: assigned_node_label)
  have old: "mget (node_Labels n) (assign_key g) = None"
    using assms(5,6) by (simp add: GetAssignment_def)
  have "label_at g (update_view (node_Name n) (merge_node n (assigned_node nag n a)) ns) (node_Name n)
      = Some (na_Name a)"
    using label_at_merge [OF assms(1-3) wf_node_assigned [OF assms(3)], of g nag a] new old by simp
  then show ?thesis
    using assms(7,8) wf_view_update [OF assms(1)]
    by (simp add: node_step_def tracks_def label_at_other)
qed

lemma node_step_stay:
  assumes "wf_view ns" and "group_ok g as df (wc_Nag wc)" and "tracks g ns (wc_UnassignedNodeNames wc) nm r"
  shows "node_step g as df nm wc ns wc ns r"
  using assms by (simp add: node_step_def)

context reliable_node_api
begin

lemma place_node_plan:
  assumes wf: "wf_view (view s)" "node_Name n \<in> set (names (view s))" "wf_node n"
    and grp: "group_ok g as df (wc_Nag wc)"
    and free: "GetAssignment (wc_Nag wc) n = None"
    and tr: "tracks g (view s) (wc_UnassignedNodeNames wc) (node_Name n) None"
    and fits: "\<forall>x. fits64 (amount (wc_AssignmentChanges wc) x)"
  shows "\<exists>wc' s'. place_node K wc n s = (Inr None, wc', s') \<and>
    amount (wc_AssignmentChanges wc') = snd (place (map na_Name as) df (amount (wc_AssignmentChanges wc))) \<and>
    node_step g as df (node_Name n) wc (view s) wc' (view s')
      (fst (place (map na_Name as) df (amount (wc_AssignmentChanges wc))))"
proof -
  have A: "nag_Assignments (wc_Nag wc) = as" and g: "nag_Name (wc_Nag wc) = g"
    and km: "\<forall>a \<in> set as. known_mode a" and D: "map_option na_Name (nag_Default (wc_Nag wc)) = df"
    using grp by (auto simp: group_ok_def default_name_def)
  note P = assignNode_loop_pick [OF wf(2,3) km, of wc]
  show ?thesis
  proof (cases "pick (map na_Name as) (amount (wc_AssignmentChanges wc))")
    case None
    have asg: "assignNode K wc n s = (Inr (False, None), wc, s)"
      using P None by (simp add: assignNode_def A)
    have pl: "place (map na_Name as) df (amount (wc_AssignmentChanges wc)) = (df, amount (wc_AssignmentChanges wc))"
      using None by (simp add: place_def)
    show ?thesis
    proof (cases "nag_Default (wc_Nag wc)")
      case None
      then have "place_node K wc n s = (Inr None, wc, s)" "df = None"
        using D by (simp_all add: place_node_def asg free)
      then show ?thesis using node_step_stay [OF wf(1) grp tr] pl by auto
    next
      case (Some a)
      obtain s' where u: "UpdateNodeAssignment K wc n (Some a) s = (Inr (None, Some (settled a)),
          wc\<lparr>wc_UnassignedNodeNames := set_del (node_Name n) (wc_UnassignedNodeNames wc)\<rparr>, s')"
        and v: "view s' = update_view (node_Name n) (merge_node n (assigned_node (wc_Nag wc) n a)) (view s)"
        using update_assign [OF wf(2,3)] by blast
      let ?wc1 = "wc\<lparr>wc_UnassignedNodeNames := set_del (node_Name n) (wc_UnassignedNodeNames wc)\<rparr>"
      let ?wc' = "set_default (Some (settled a)) ?wc1"
      have pn: "place_node K wc n s = (Inr None, ?wc', s')"
        using Some by (simp add: place_node_def asg free u)
      have ka: "known_mode a" using grp Some by (simp add: group_ok_def)
      have go: "group_ok g as df (wc_Nag ?wc')"
        by (rule group_ok_set_default) (use grp Some in simp_all)
      have "node_step g as df (node_Name n) wc (view s) ?wc' (view s') (Some (na_Name a))"
        unfolding v by (rule node_step_write [OF wf ka g free _ go]) simp
      then show ?thesis using pn D Some by (auto simp: pl)
    qed
  next
    case (Some x)
    then obtain a s' where a: "na_Name a = x" "known_mode a"
      and al: "assignNode_loop K wc n as s = (Inr (True, None), use_change x
          (wc\<lparr>wc_UnassignedNodeNames := set_del (node_Name n) (wc_UnassignedNodeNames wc)\<rparr>), s')"
      and v: "view s' = update_view (node_Name n) (merge_node n (assigned_node (wc_Nag wc) n a)) (view s)"
      using P by auto
    let ?wc' = "use_change x (wc\<lparr>wc_UnassignedNodeNames := set_del (node_Name n) (wc_UnassignedNodeNames wc)\<rparr>)"
    have pn: "place_node K wc n s = (Inr None, ?wc', s')"
      by (simp add: place_node_def assignNode_def A al)
    have pos: "0 < amount (wc_AssignmentChanges wc) x" using pick_Some [OF Some] by simp
    then have "wrap64 (amount (wc_AssignmentChanges wc) x - 1) = amount (wc_AssignmentChanges wc) x - 1"
      using fits by (intro wrap64_id) (auto simp: fits64_def dest: spec [of _ x])
    then have am: "amount (wc_AssignmentChanges ?wc') =
        (amount (wc_AssignmentChanges wc))(x := amount (wc_AssignmentChanges wc) x - 1)"
      by (simp add: amount_use)
    have go: "group_ok g as df (wc_Nag ?wc')" using grp by simp
    have "node_step g as df (node_Name n) wc (view s) ?wc' (view s') (Some (na_Name a))"
      unfolding v by (rule node_step_write [OF wf a(2) g free _ go]) simp
    then show ?thesis using pn am a(1) by (simp add: place_def Some)
  qed
qed

end

lemma safe_release:
  assumes "safe_changes ch df k" and "1 \<le> k" and "ch c < 0 \<or> df = Some c"
  shows "wrap64 (ch c + 1) = ch c + 1" and "\<forall>x. fits64 ((ch(c := ch c + 1)) x)"
proof -
  have "ch c < 0 \<or> ch c + k < 2 ^ 63" "fits64 (ch c)" using assms by (auto simp: safe_changes_def)
  then have f: "fits64 (ch c + 1)" using assms(2) by (auto simp: fits64_def)
  then show "wrap64 (ch c + 1) = ch c + 1" by (rule wrap64_id)
  show "\<forall>x. fits64 ((ch(c := ch c + 1)) x)" using assms(1) f by (auto simp: safe_changes_def)
qed

lemma safe_place:
  assumes "\<forall>x. fits64 (m x)" and "\<forall>d. df = Some d \<longrightarrow> m d + k < 2 ^ 63"
    and "place as df m = (r, ch')"
  shows "safe_changes ch' df k"
proof (cases "pick as m")
  case None
  then show ?thesis using assms by (simp add: place_def safe_changes_def)
next
  case (Some a)
  have "0 < m a" using pick_Some [OF Some] by simp
  then have "fits64 (m a - 1)" using assms(1) by (auto simp: fits64_def dest: spec [of _ a])
  then show ?thesis using assms Some by (fastforce simp: place_def safe_changes_def)
qed

lemma plan_step_safe:
  assumes "safe_changes ch df k" and "1 \<le> k" and "plan_step as df ch cur = (r, ch')"
  shows "safe_changes ch' df (k - 1)"
proof -
  have base: "\<forall>x. fits64 (ch x)" "\<forall>d. df = Some d \<longrightarrow> ch d + (k - 1) < 2 ^ 63"
    using assms(1) by (auto simp: safe_changes_def)
  have stay: "safe_changes ch df (k - 1)" using assms(1) by (auto simp: safe_changes_def)
  show ?thesis
  proof (cases cur)
    case None
    then have "place as df ch = (r, ch')" using assms(3) by (simp add: plan_step_def)
    then show ?thesis by (rule safe_place [OF base])
  next
    case (Some c)
    show ?thesis
    proof (cases "ch c < 0 \<or> df = Some c")
      case True
      then have pl: "place as df (ch(c := ch c + 1)) = (r, ch')"
        using assms(3) Some by (simp add: plan_step_def)
      have "\<forall>d. df = Some d \<longrightarrow> (ch(c := ch c + 1)) d + (k - 1) < 2 ^ 63"
        using assms(1) by (auto simp: safe_changes_def)
      then show ?thesis using safe_place [OF safe_release(2) [OF assms(1,2) True] _ pl] by blast
    next
      case False
      then show ?thesis using assms(3) Some stay by (simp add: plan_step_def)
    qed
  qed
qed

context reliable_node_api
begin

lemma reconcileNode_plan:
  assumes wf: "wf_view (view s)" "node_Name n \<in> set (names (view s))" "wf_node n"
    and grp: "group_ok g as df (wc_Nag wc)"
    and tr: "tracks g (view s) (wc_UnassignedNodeNames wc) (node_Name n) (GetAssignment (wc_Nag wc) n)"
    and safe: "safe_changes (amount (wc_AssignmentChanges wc)) df k" "1 \<le> k"
    and st: "plan_step (map na_Name as) df (amount (wc_AssignmentChanges wc))
      (GetAssignment (wc_Nag wc) n) = (r, ch')"
  shows "\<exists>n' wc' s'. reconcileNode K wc n s = (Inr None, n', wc', s') \<and>
    amount (wc_AssignmentChanges wc') = ch' \<and>
    node_step g as df (node_Name n) wc (view s) wc' (view s') r"
proof (cases "GetAssignment (wc_Nag wc) n")
  case None
  have pl: "place (map na_Name as) df (amount (wc_AssignmentChanges wc)) = (r, ch')"
    using st None by (simp add: plan_step_def)
  have "\<forall>x. fits64 (amount (wc_AssignmentChanges wc) x)" using safe(1) by (simp add: safe_changes_def)
  from place_node_plan [OF wf grp None tr [unfolded None] this]
  show ?thesis using None by (auto simp: reconcileNode_def pl)
next
  case (Some c)
  have D: "default_name (wc_Nag wc) = df" and g: "nag_Name (wc_Nag wc) = g"
    using grp by (simp_all add: group_ok_def)
  show ?thesis
  proof (cases "amount (wc_AssignmentChanges wc) c < 0 \<or> df = Some c")
    case True
    let ?n1 = "snd (Unassign (k_match K) (wc_Nag wc) n)"
    let ?wc0 = "wc\<lparr>wc_UnassignedNodeNames := set_add (node_Name n) (wc_UnassignedNodeNames wc)\<rparr>"
    let ?wc1 = "release_change c ?wc0"
    have am: "amount (wc_AssignmentChanges ?wc1) = (amount (wc_AssignmentChanges wc))
        (c := amount (wc_AssignmentChanges wc) c + 1)"
      using safe_release(1) [OF safe True] by (simp add: amount_release)
    have pl: "place (map na_Name as) df (amount (wc_AssignmentChanges ?wc1)) = (r, ch')"
      using st Some True by (simp add: plan_step_def am)
    have free: "GetAssignment (wc_Nag ?wc1) ?n1 = None"
      by (simp add: GetAssignment_def Unassign_label group_key_def)
    have tr1: "tracks g (view s) (wc_UnassignedNodeNames ?wc1) (node_Name ?n1) None"
      by (simp add: tracks_def)
    have fits: "\<forall>x. fits64 (amount (wc_AssignmentChanges ?wc1) x)"
      unfolding am using safe_release(2) [OF safe True] .
    have wf1: "node_Name ?n1 \<in> set (names (view s))" "wf_node ?n1" using wf by simp_all
    have grp1: "group_ok g as df (wc_Nag ?wc1)" using grp by simp
    from place_node_plan [OF wf(1) wf1 grp1 free tr1 fits]
    obtain wc' s' where pn: "place_node K ?wc1 ?n1 s = (Inr None, wc', s')"
      and a': "amount (wc_AssignmentChanges wc') = ch'"
      and ns: "node_step g as df (node_Name n) ?wc1 (view s) wc' (view s') r"
      by (auto simp: pl)
    have "node_step g as df (node_Name n) wc (view s) wc' (view s') r"
      using ns by (simp add: node_step_def)
    then show ?thesis
      using Some True pn a' by (simp add: reconcileNode_def must_unassign_iff D unassign_in_memory_def)
  next
    case False
    then have r: "r = Some c" "ch' = amount (wc_AssignmentChanges wc)"
      using st Some by (simp_all add: plan_step_def)
    show ?thesis
      using node_step_stay [OF wf(1) grp tr] Some False r
      by (simp add: reconcileNode_def must_unassign_iff D)
  qed
qed

text \<open>The loop, for the nodes still to be visited.\<close>

lemma reconcile_loop_plan:
  assumes "wf_view (view s)" and "\<forall>n \<in> set nodes. node_Name n \<in> set (names (view s)) \<and> wf_node n"
    and "distinct (names nodes)" and "group_ok g as df (wc_Nag wc)"
    and "\<forall>n \<in> set nodes. tracks g (view s) (wc_UnassignedNodeNames wc) (node_Name n)
      (GetAssignment (wc_Nag wc) n)"
    and "safe_changes (amount (wc_AssignmentChanges wc)) df (int (length nodes))"
    and "plan (map na_Name as) df (amount (wc_AssignmentChanges wc))
      (map (GetAssignment (wc_Nag wc)) nodes) = (rs, ch')"
  shows "\<exists>nodes' wc' s'. reconcile_loop K wc nodes s = (Inr None, nodes', wc', s') \<and>
    amount (wc_AssignmentChanges wc') = ch' \<and> wf_view (view s') \<and> names (view s') = names (view s) \<and>
    group_ok g as df (wc_Nag wc') \<and>
    list_all2 (\<lambda>n r. tracks g (view s') (wc_UnassignedNodeNames wc') (node_Name n) r) nodes rs \<and>
    (\<forall>nm. nm \<notin> set (names nodes) \<longrightarrow> label_at g (view s') nm = label_at g (view s) nm \<and>
      (nm \<in> set (wc_UnassignedNodeNames wc') \<longleftrightarrow> nm \<in> set (wc_UnassignedNodeNames wc)))"
  using assms
proof (induction nodes arbitrary: wc s rs)
  case (Cons n nodes)
  let ?as = "map na_Name as" and ?ch = "amount (wc_AssignmentChanges wc)"
  from Cons.prems(7) obtain r ch1 rs1 where
    st: "plan_step ?as df ?ch (GetAssignment (wc_Nag wc) n) = (r, ch1)" and
    rest: "plan ?as df ch1 (map (GetAssignment (wc_Nag wc)) nodes) = (rs1, ch')" and rs: "rs = r # rs1"
    by (simp add: Let_def split: prod.splits)
  have k: "1 \<le> int (length (n # nodes))" by simp
  obtain n' wc1 s1 where rn: "reconcileNode K wc n s = (Inr None, n', wc1, s1)"
    and am: "amount (wc_AssignmentChanges wc1) = ch1"
    and ns: "node_step g as df (node_Name n) wc (view s) wc1 (view s1) r"
    using reconcileNode_plan [OF Cons.prems(1) _ _ Cons.prems(4) _ Cons.prems(6) k st]
      Cons.prems(2,5) by auto
  have g1: "nag_Name (wc_Nag wc1) = nag_Name (wc_Nag wc)"
    using ns Cons.prems(4) by (simp add: node_step_def group_ok_def)
  then have ga: "GetAssignment (wc_Nag wc1) = GetAssignment (wc_Nag wc)"
    by (simp add: GetAssignment_def fun_eq_iff)
  have other: "\<forall>m \<in> set nodes. node_Name m \<noteq> node_Name n"
    using Cons.prems(3) by (auto simp: names_def simp flip: image_comp) (metis image_eqI)
  have tr1: "\<forall>m \<in> set nodes. tracks g (view s1) (wc_UnassignedNodeNames wc1) (node_Name m)
      (GetAssignment (wc_Nag wc1) m)"
    using ns Cons.prems(5) other by (auto simp: node_step_def tracks_def ga split: option.splits)
  have safe1: "safe_changes (amount (wc_AssignmentChanges wc1)) df (int (length nodes))"
    using plan_step_safe [OF Cons.prems(6) k st] am by simp
  have rest1: "plan ?as df (amount (wc_AssignmentChanges wc1))
      (map (GetAssignment (wc_Nag wc1)) nodes) = (rs1, ch')"
    using rest am ga by simp
  have wf1: "wf_view (view s1)" "group_ok g as df (wc_Nag wc1)"
    "\<forall>m \<in> set nodes. node_Name m \<in> set (names (view s1)) \<and> wf_node m"
    using ns Cons.prems(2) by (auto simp: node_step_def)
  have dist: "distinct (names nodes)" using Cons.prems(3) by (simp add: names_def)
  from Cons.IH [OF wf1(1,3) dist wf1(2) tr1 safe1 rest1]
  obtain nodes' wc' s' where ih: "reconcile_loop K wc1 nodes s1 = (Inr None, nodes', wc', s')"
    "amount (wc_AssignmentChanges wc') = ch'" "wf_view (view s')" "names (view s') = names (view s1)"
    "group_ok g as df (wc_Nag wc')"
    "list_all2 (\<lambda>n r. tracks g (view s') (wc_UnassignedNodeNames wc') (node_Name n) r) nodes rs1"
    and fr: "\<forall>nm. nm \<notin> set (names nodes) \<longrightarrow> label_at g (view s') nm = label_at g (view s1) nm \<and>
      (nm \<in> set (wc_UnassignedNodeNames wc') \<longleftrightarrow> nm \<in> set (wc_UnassignedNodeNames wc1))"
    by blast
  have nm: "node_Name n \<notin> set (names nodes)" using Cons.prems(3) by (simp add: names_def)
  then have trn: "tracks g (view s') (wc_UnassignedNodeNames wc') (node_Name n) r"
    using ns fr by (auto simp: node_step_def tracks_def split: option.splits)
  have fr': "\<forall>nm. nm \<notin> set (names (n # nodes)) \<longrightarrow> label_at g (view s') nm = label_at g (view s) nm \<and>
      (nm \<in> set (wc_UnassignedNodeNames wc') \<longleftrightarrow> nm \<in> set (wc_UnassignedNodeNames wc))"
    using ns fr by (auto simp: node_step_def names_def)
  have "names (view s') = names (view s)" using ih(4) ns by (simp add: node_step_def)
  with ih rn rs trn fr' show ?case by auto
qed simp

end

section \<open>The clean-up loop and Reconcile\<close>

context reliable_node_api
begin

lemma cleanup_loop_labels:
  assumes "wf_view (view s)" and "set nms \<subseteq> set (names (view s))" and "nag_Name (wc_Nag wc) = g"
  shows "\<exists>wc' s'. cleanup_loop K wc nms s = (Inr None, wc', s') \<and> wc_Nag wc' = wc_Nag wc \<and>
    wf_view (view s') \<and> names (view s') = names (view s) \<and>
    (\<forall>nm. label_at g (view s') nm = (if nm \<in> set nms then None else label_at g (view s) nm))"
  using assms
proof (induction nms arbitrary: wc s)
  case (Cons nm nms)
  have nm: "nm \<in> set (names (view s))" using Cons.prems(2) by simp
  obtain n s0 where "k_nodesGet K nm s = (Inr n, s0)" using get_total [OF nm] by blast
  with get_ok [OF this] have get: "k_nodesGet K nm s = (Inr n, s)"
    and f: "find (\<lambda>n. node_Name n = nm) (view s) = Some n" by auto
  have n: "n \<in> set (view s)" "node_Name n = nm" "wf_node n"
    using f find_Some_iff_names [of "view s" nm n] Cons.prems(1) by (auto simp: wf_view_def)
  let ?n' = "snd (Unassign (k_match K) (wc_Nag wc) n)"
  let ?wc1 = "wc\<lparr>wc_UnassignedNodeNames := set_del (node_Name n) (wc_UnassignedNodeNames wc)\<rparr>"
  obtain s1 where u: "UpdateNodeAssignment K wc n None s = (Inr (None, None), ?wc1, s1)"
    and v: "view s1 = update_view nm (merge_node n ?n') (view s)"
    using update_unassign [of n s wc] nm n by auto
  have new: "mget (node_Labels ?n') (assign_key g) = None"
    using Cons.prems(3) by (simp add: Unassign_label group_key_def)
  have old: "label_at g (view s) nm = mget (node_Labels n) (assign_key g)"
    using f by (simp add: label_at_def)
  have lab: "label_at g (view s1) nm = None"
    unfolding v using label_at_merge [OF Cons.prems(1) nm n(3) wf_node_Unassign [OF n(3)], of g] new old by simp
  have wf1: "wf_view (view s1)" unfolding v by (rule wf_view_update [OF Cons.prems(1)])
  have nms1: "names (view s1) = names (view s)" unfolding v by simp
  have step: "cleanup_loop K wc (nm # nms) s = cleanup_loop K ?wc1 nms s1"
    by (simp add: UnassignNodeByName_def get u)
  have "set nms \<subseteq> set (names (view s1))" "nag_Name (wc_Nag ?wc1) = g"
    using Cons.prems(2,3) nms1 by auto
  from Cons.IH [OF wf1 this] obtain wc' s' where ih: "cleanup_loop K ?wc1 nms s1 = (Inr None, wc', s')"
    "wc_Nag wc' = wc_Nag ?wc1" "wf_view (view s')" "names (view s') = names (view s1)"
    and lab': "\<forall>nm. label_at g (view s') nm = (if nm \<in> set nms then None else label_at g (view s1) nm)"
    by blast
  have "\<forall>x. label_at g (view s') x = (if x \<in> set (nm # nms) then None else label_at g (view s) x)"
    using lab' lab label_at_other [of _ nm g n ?n' "view s"] by (auto simp: v)
  with ih step nms1 show ?case by auto
qed simp

lemma Reconcile_plan:
  assumes "wf_view (view s)"
    and "\<forall>n \<in> set (wc_TargetedNodes wc). node_Name n \<in> set (names (view s)) \<and> wf_node n"
    and "distinct (names (wc_TargetedNodes wc))" and "group_ok g as df (wc_Nag wc)"
    and "\<forall>n \<in> set (wc_TargetedNodes wc). tracks g (view s) (wc_UnassignedNodeNames wc) (node_Name n)
      (GetAssignment (wc_Nag wc) n)"
    and "safe_changes (amount (wc_AssignmentChanges wc)) df (int (length (wc_TargetedNodes wc)))"
    and "set (wc_UnassignedNodeNames wc) \<subseteq> set (names (view s))"
  shows "\<exists>wc' s'. Reconcile K wc s = (Inr None, wc', s') \<and>
    wf_view (view s') \<and> names (view s') = names (view s) \<and>
    map (\<lambda>n. label_at g (view s') (node_Name n)) (wc_TargetedNodes wc) =
      fst (plan (map na_Name as) df (amount (wc_AssignmentChanges wc))
        (map (GetAssignment (wc_Nag wc)) (wc_TargetedNodes wc))) \<and>
    (\<forall>nm. nm \<notin> set (names (wc_TargetedNodes wc)) \<longrightarrow> label_at g (view s') nm =
      (if nm \<in> set (wc_UnassignedNodeNames wc) then None else label_at g (view s) nm))"
proof -
  let ?T = "wc_TargetedNodes wc"
  obtain rs ch' where p: "plan (map na_Name as) df (amount (wc_AssignmentChanges wc))
      (map (GetAssignment (wc_Nag wc)) ?T) = (rs, ch')" by force
  obtain T' wc1 s1 where l: "reconcile_loop K wc ?T s = (Inr None, T', wc1, s1)"
    and wf1: "wf_view (view s1)" "names (view s1) = names (view s)" "group_ok g as df (wc_Nag wc1)"
    and tr: "list_all2 (\<lambda>n r. tracks g (view s1) (wc_UnassignedNodeNames wc1) (node_Name n) r) ?T rs"
    and fr: "\<forall>nm. nm \<notin> set (names ?T) \<longrightarrow> label_at g (view s1) nm = label_at g (view s) nm \<and>
      (nm \<in> set (wc_UnassignedNodeNames wc1) \<longleftrightarrow> nm \<in> set (wc_UnassignedNodeNames wc))"
    using reconcile_loop_plan [OF assms(1-6) p] by blast
  let ?wc2 = "wc1\<lparr>wc_TargetedNodes := T'\<rparr>"
  let ?U = "k_range K (wc_UnassignedNodeNames wc1)"
  have U: "set ?U = set (wc_UnassignedNodeNames wc1)" by (rule range_set)
  have "set (wc_UnassignedNodeNames wc1) \<subseteq> set (names (view s1))"
  proof
    fix x assume x: "x \<in> set (wc_UnassignedNodeNames wc1)"
    show "x \<in> set (names (view s1))"
    proof (cases "x \<in> set (names ?T)")
      case True
      then obtain n where "n \<in> set ?T" "x = node_Name n" by (auto simp: names_def)
      then show ?thesis using assms(2) wf1(2) by simp
    next
      case False
      then show ?thesis using fr x assms(7) wf1(2) by auto
    qed
  qed
  then have sub: "set ?U \<subseteq> set (names (view s1))" by (simp add: U)
  have gn: "nag_Name (wc_Nag ?wc2) = g" using wf1(3) by (simp add: group_ok_def)
  from cleanup_loop_labels [OF wf1(1) sub gn]
  obtain wc' s' where c: "cleanup_loop K ?wc2 ?U s1 = (Inr None, wc', s')" "wf_view (view s')"
      "names (view s') = names (view s1)"
    and lab: "\<forall>nm. label_at g (view s') nm = (if nm \<in> set ?U then None else label_at g (view s1) nm)"
    by blast
  have R: "Reconcile K wc s = (Inr None, wc', s')"
    using l c(1) by (simp add: Reconcile_def)
  have "label_at g (view s') (node_Name n) = r"
    if "tracks g (view s1) (wc_UnassignedNodeNames wc1) (node_Name n) r" for n r
    using that lab U by (auto simp: tracks_def split: option.splits)
  then have "list_all2 (\<lambda>n r. label_at g (view s') (node_Name n) = r) ?T rs"
    using tr by (auto elim: list_all2_mono)
  then have "map (\<lambda>n. label_at g (view s') (node_Name n)) ?T = rs"
    by (induction rule: list_all2_induct) auto
  moreover have "\<forall>nm. nm \<notin> set (names ?T) \<longrightarrow> label_at g (view s') nm =
      (if nm \<in> set (wc_UnassignedNodeNames wc) then None else label_at g (view s) nm)"
    using fr lab U by auto
  ultimately show ?thesis using R c wf1 p by auto
qed

end

end
