(* ===== verification/UpdateRefinement.thy ===== *)
theory UpdateRefinement
  imports ReconcileRefinement
begin

text \<open>
  What \<^verbatim>\<open>Update\<close> computes on a server that does not fail: the targeted nodes are the server's nodes
  with unknown assignments taken off in memory, the outstanding changes are the difference between
  the nodes each assignment asks for and the nodes it has, and an untargeted node keeps no label.
  Together with \<open>Reconcile_plan\<close> this gives the result of a whole reconciliation.
\<close>

section \<open>Taking off unknown assignments\<close>

definition known_names :: "nag \<Rightarrow> string set" where
  "known_names nag = set (map na_Name (nag_Assignments nag)) \<union> set_option (default_name nag)"

text \<open>A node as the loop of \<^verbatim>\<open>updateNodeSets\<close> keeps it in memory.\<close>

definition strip :: "taint_match \<Rightarrow> nag \<Rightarrow> node \<Rightarrow> node" where
  "strip match nag n =
     (case GetAssignment nag n of
        Some ca \<Rightarrow> if ca \<notin> known_names nag then snd (Unassign match nag n) else n
      | None \<Rightarrow> n)"

lemma strip_name [simp]: "node_Name (strip match nag n) = node_Name n"
  by (auto simp: strip_def split: option.splits)

lemma wf_node_strip [simp]: "wf_node n \<Longrightarrow> wf_node (strip match nag n)"
  by (auto simp: strip_def split: option.splits)

lemma names_strip [simp]: "names (map (strip match nag) ns) = names ns"
  by (simp add: names_def)

lemma names_filter: "set (names (filter P ns)) \<subseteq> set (names ns)"
  by (auto simp: names_def)

lemma distinct_names_filter: "distinct (names ns) \<Longrightarrow> distinct (names (filter P ns))"
  by (auto simp: names_def distinct_map_filter)

lemma GetAssignment_strip:
  "GetAssignment nag (strip match nag n) =
     (case GetAssignment nag n of
        Some ca \<Rightarrow> if ca \<in> known_names nag then Some ca else None | None \<Rightarrow> None)"
  by (auto simp: strip_def GetAssignment_def Unassign_label group_key_def split: option.splits)

lemma updateKnown_known [simp]:
  "wc_KnownAssignments (updateKnownAssignments wc) = known_names (wc_Nag wc)"
  "wc_Nag (updateKnownAssignments wc) = wc_Nag wc"
  "wc_TargetedNodes (updateKnownAssignments wc) = wc_TargetedNodes wc"
  "wc_UnassignedNodeNames (updateKnownAssignments wc) = wc_UnassignedNodeNames wc"
  by (auto simp: updateKnownAssignments_def known_names_def default_name_def split: option.splits)

text \<open>The assignment a node has for the rest of the reconciliation.\<close>

definition kept :: "taint_match \<Rightarrow> nag \<Rightarrow> node \<Rightarrow> string option" where
  "kept match nag n =
     (if TargetsNode nag (strip match nag n) then GetAssignment nag (strip match nag n) else None)"

definition targeted :: "taint_match \<Rightarrow> nag \<Rightarrow> node list \<Rightarrow> node list" where
  "targeted match nag ns = filter (TargetsNode nag) (map (strip match nag) ns)"

lemma targeted_simps [simp]:
  "targeted match nag [] = []"
  "targeted match nag (n # ns) = (if TargetsNode nag (strip match nag n)
     then strip match nag n # targeted match nag ns else targeted match nag ns)"
  by (simp_all add: targeted_def)

section \<open>The loop over the nodes\<close>

text \<open>What the loop has done after visiting the node \<open>n\<close>.\<close>

definition visited ::
    "taint_match \<Rightarrow> nag \<Rightarrow> node \<Rightarrow> writerContext \<Rightarrow> node list \<Rightarrow> writerContext \<Rightarrow> node list \<Rightarrow> bool" where
  "visited match nag n wc ns wc' ns' \<longleftrightarrow>
    wc_TargetedNodes wc' = wc_TargetedNodes wc @ targeted match nag [n] \<and>
    wc_KnownAssignments wc' = known_names nag \<and> wc_Nag wc' = nag \<and>
    wf_view ns' \<and> names ns' = names ns \<and>
    set (wc_UnassignedNodeNames wc') \<subseteq> set (names ns) \<and>
    tracks (nag_Name nag) ns' (wc_UnassignedNodeNames wc') (node_Name n) (kept match nag n) \<and>
    (\<forall>nm. nm \<noteq> node_Name n \<longrightarrow> label_at (nag_Name nag) ns' nm = label_at (nag_Name nag) ns nm \<and>
      (nm \<in> set (wc_UnassignedNodeNames wc') \<longleftrightarrow> nm \<in> set (wc_UnassignedNodeNames wc)))"

context reliable_node_api
begin

text \<open>One node: it is stripped, and patched if it is not targeted but assigned.\<close>

lemma nodeSets_step:
  assumes wf: "wf_view (view s)" "wf_node n" "node_Name n \<in> set (names (view s))"
    and lab: "label_at (nag_Name nag) (view s) (node_Name n) = GetAssignment nag n"
    and wc: "wc_KnownAssignments wc = known_names nag" "wc_Nag wc = nag"
    and U: "set (wc_UnassignedNodeNames wc) \<subseteq> set (names (view s))"
      "node_Name n \<notin> set (wc_UnassignedNodeNames wc)"
  shows "\<exists>wc' s'. nodeSets_loop K wc (n # rest) s = nodeSets_loop K wc' rest s' \<and> visited (k_match K) nag n wc (view s) wc' (view s')"
proof (cases "GetAssignment nag n")
  case None
  then have st: "strip (k_match K) nag n = n" by (simp add: strip_def)
  let ?wc' = "if TargetsNode nag n then wc\<lparr>wc_TargetedNodes := wc_TargetedNodes wc @ [n]\<rparr> else wc"
  have "nodeSets_loop K wc (n # rest) s = nodeSets_loop K ?wc' rest s" using None wc by simp
  moreover have "visited (k_match K) nag n wc (view s) ?wc' (view s)"
    using None wf wc U lab by (simp add: visited_def st kept_def tracks_def)
  ultimately show ?thesis by blast
next
  case (Some ca)
  show ?thesis
  proof (cases "ca \<in> known_names nag")
    case False
    then have st: "strip (k_match K) nag n = snd (Unassign (k_match K) nag n)" using Some by (simp add: strip_def)
    have free: "GetAssignment nag (snd (Unassign (k_match K) nag n)) = None"
      by (simp add: GetAssignment_def Unassign_label group_key_def)
    let ?wc1 = "wc\<lparr>wc_UnassignedNodeNames := set_add (node_Name n) (wc_UnassignedNodeNames wc)\<rparr>"
    let ?wc' = "if TargetsNode nag (strip (k_match K) nag n)
      then ?wc1\<lparr>wc_TargetedNodes := wc_TargetedNodes wc @ [strip (k_match K) nag n]\<rparr> else ?wc1"
    have "nodeSets_loop K wc (n # rest) s = nodeSets_loop K ?wc' rest s"
      using Some False wc free by (simp add: st)
    moreover have "visited (k_match K) nag n wc (view s) ?wc' (view s)"
      using wf wc U free by (simp add: visited_def st kept_def tracks_def)
    ultimately show ?thesis by blast
  next
    case True
    then have st: "strip (k_match K) nag n = n" using Some by (simp add: strip_def)
    show ?thesis
    proof (cases "TargetsNode nag n")
      case True
      let ?wc' = "wc\<lparr>wc_TargetedNodes := wc_TargetedNodes wc @ [n]\<rparr>"
      have "nodeSets_loop K wc (n # rest) s = nodeSets_loop K ?wc' rest s"
        using Some True \<open>ca \<in> known_names nag\<close> wc by simp
      moreover have "visited (k_match K) nag n wc (view s) ?wc' (view s)"
        using wf wc U lab Some True by (simp add: visited_def st kept_def tracks_def)
      ultimately show ?thesis by blast
    next
      case False
      let ?wc' = "wc\<lparr>wc_UnassignedNodeNames := set_del (node_Name n) (wc_UnassignedNodeNames wc)\<rparr>"
      let ?n' = "snd (Unassign (k_match K) nag n)"
      obtain s' where u: "UpdateNodeAssignment K wc n None s = (Inr (None, None), ?wc', s')"
        and v: "view s' = update_view (node_Name n) (merge_node n ?n') (view s)"
        using update_unassign [OF wf(3,2), of wc] wc by auto
      have new: "mget (node_Labels ?n') (assign_key (nag_Name nag)) = None"
        by (simp add: Unassign_label group_key_def)
      have old: "mget (node_Labels n) (assign_key (nag_Name nag)) = Some ca"
        using Some by (simp add: GetAssignment_def)
      have "label_at (nag_Name nag) (view s') (node_Name n) = None"
        unfolding v using label_at_merge [OF wf(1,3,2) wf_node_Unassign [OF wf(2)], of "nag_Name nag"] new old
        by simp
      then have "visited (k_match K) nag n wc (view s) ?wc' (view s')"
        using wf wc U False by (auto simp: visited_def st kept_def tracks_def v label_at_other wf_view_update)
      moreover have "nodeSets_loop K wc (n # rest) s = nodeSets_loop K ?wc' rest s'"
        using Some False \<open>ca \<in> known_names nag\<close> wc u by simp
      ultimately show ?thesis by blast
    qed
  qed
qed

lemma nodeSets_loop_reliable:
  assumes "wf_view (view s)" and "\<forall>n \<in> set ns. wf_node n \<and> node_Name n \<in> set (names (view s)) \<and>
      label_at (nag_Name nag) (view s) (node_Name n) = GetAssignment nag n \<and>
      node_Name n \<notin> set (wc_UnassignedNodeNames wc)"
    and "distinct (names ns)" and "wc_KnownAssignments wc = known_names nag" "wc_Nag wc = nag"
    and "set (wc_UnassignedNodeNames wc) \<subseteq> set (names (view s))"
  shows "\<exists>wc' s'. nodeSets_loop K wc ns s = (Inr None, wc', s') \<and>
    wc_TargetedNodes wc' = wc_TargetedNodes wc @ targeted (k_match K) nag ns \<and> wc_Nag wc' = nag \<and>
    wf_view (view s') \<and> names (view s') = names (view s) \<and>
    set (wc_UnassignedNodeNames wc') \<subseteq> set (names (view s)) \<and>
    (\<forall>n \<in> set ns. tracks (nag_Name nag) (view s') (wc_UnassignedNodeNames wc') (node_Name n)
      (kept (k_match K) nag n)) \<and>
    (\<forall>nm. nm \<notin> set (names ns) \<longrightarrow> label_at (nag_Name nag) (view s') nm = label_at (nag_Name nag) (view s) nm \<and>
      (nm \<in> set (wc_UnassignedNodeNames wc') \<longleftrightarrow> nm \<in> set (wc_UnassignedNodeNames wc)))"
  using assms
proof (induction ns arbitrary: wc s)
  case (Cons n ns)
  have n: "wf_node n" "node_Name n \<in> set (names (view s))"
    "label_at (nag_Name nag) (view s) (node_Name n) = GetAssignment nag n"
    "node_Name n \<notin> set (wc_UnassignedNodeNames wc)" using Cons.prems(2) by auto
  obtain wc1 s1 where eq: "nodeSets_loop K wc (n # ns) s = nodeSets_loop K wc1 ns s1"
    and v: "visited (k_match K) nag n wc (view s) wc1 (view s1)"
    using nodeSets_step [OF Cons.prems(1) n(1-3) Cons.prems(4,5,6) n(4)] by blast
  have ne: "node_Name m \<noteq> node_Name n" if "m \<in> set ns" for m
    using Cons.prems(3) that by (auto simp: names_def simp flip: image_comp) (metis image_eqI)
  have nn: "node_Name n \<notin> set (names ns)" and dist: "distinct (names ns)"
    using Cons.prems(3) by (simp_all add: names_def)
  have pre: "\<forall>m \<in> set ns. wf_node m \<and> node_Name m \<in> set (names (view s1)) \<and>
      label_at (nag_Name nag) (view s1) (node_Name m) = GetAssignment nag m \<and>
      node_Name m \<notin> set (wc_UnassignedNodeNames wc1)"
    using Cons.prems(2) v ne by (simp add: visited_def)
  have v': "wf_view (view s1)" "wc_KnownAssignments wc1 = known_names nag" "wc_Nag wc1 = nag"
    "set (wc_UnassignedNodeNames wc1) \<subseteq> set (names (view s1))" "names (view s1) = names (view s)"
    "wc_TargetedNodes wc1 = wc_TargetedNodes wc @ targeted (k_match K) nag [n]"
    using v by (auto simp: visited_def)
  obtain wc' s' where ih: "nodeSets_loop K wc1 ns s1 = (Inr None, wc', s')"
    "wc_TargetedNodes wc' = wc_TargetedNodes wc1 @ targeted (k_match K) nag ns" "wc_Nag wc' = nag"
    "wf_view (view s')" "names (view s') = names (view s1)"
    "set (wc_UnassignedNodeNames wc') \<subseteq> set (names (view s1))"
    and tr: "\<forall>n \<in> set ns. tracks (nag_Name nag) (view s') (wc_UnassignedNodeNames wc') (node_Name n)
      (kept (k_match K) nag n)"
    and fr: "\<forall>nm. nm \<notin> set (names ns) \<longrightarrow> label_at (nag_Name nag) (view s') nm = label_at (nag_Name nag) (view s1) nm \<and>
      (nm \<in> set (wc_UnassignedNodeNames wc') \<longleftrightarrow> nm \<in> set (wc_UnassignedNodeNames wc1))"
    using Cons.IH [OF v'(1) pre dist v'(2-4)] by blast
  have trn: "tracks (nag_Name nag) (view s') (wc_UnassignedNodeNames wc') (node_Name n)
      (kept (k_match K) nag n)"
    using v fr nn by (auto simp: visited_def tracks_def split: option.splits)
  have fr': "\<forall>nm. nm \<notin> set (names (n # ns)) \<longrightarrow>
      label_at (nag_Name nag) (view s') nm = label_at (nag_Name nag) (view s) nm \<and>
      (nm \<in> set (wc_UnassignedNodeNames wc') \<longleftrightarrow> nm \<in> set (wc_UnassignedNodeNames wc))"
    using v fr by (auto simp: visited_def names_def)
  have tg: "wc_TargetedNodes wc' = wc_TargetedNodes wc @ targeted (k_match K) nag (n # ns)"
    using ih(2) v'(6) by simp
  show ?case
    by (rule exI [of _ wc'], rule exI [of _ s']) (use eq ih trn tr fr' tg v'(5) in simp)
qed simp

end


section \<open>Current assignments and changes\<close>

lemma count_fold:
  assumes "0 \<le> amount m x" and "amount m x + int (length ns) < 2 ^ 63" and "default_name nag \<noteq> Some x"
  shows "amount (fold (count_assignment nag) ns m) x = amount m x + occ x (map (GetAssignment nag) ns)"
  using assms(1,2)
proof (induction ns arbitrary: m)
  case (Cons n ns)
  have one: "amount (count_assignment nag n m) x = amount m x + (if GetAssignment nag n = Some x then 1 else 0)"
  proof -
    have "wrap64 (amount m x + 1) = amount m x + 1"
      using Cons.prems by (intro wrap64_id) (simp add: fits64_def)
    then show ?thesis
      using assms(3)
      by (auto simp: count_assignment_def amount_count_add default_name_def split: option.splits)
  qed
  have "amount (fold (count_assignment nag) ns (count_assignment nag n m)) x =
      amount (count_assignment nag n m) x + occ x (map (GetAssignment nag) ns)"
    by (rule Cons.IH) (use Cons.prems one in auto)
  then show ?case using one by simp
qed simp

definition desired_of :: "nodeAssignment list \<Rightarrow> nat \<Rightarrow> string \<Rightarrow> int" where
  "desired_of as n x = (case find (\<lambda>a. na_Name a = x) as of Some a \<Rightarrow> desired_nodes n a | None \<Rightarrow> 0)"

lemma desired_of_in:
  "distinct (map na_Name as) \<Longrightarrow> a \<in> set as \<Longrightarrow> desired_of as n (na_Name a) = desired_nodes n a"
proof (induction as)
  case (Cons b as)
  then show ?case by (auto simp: desired_of_def)
qed simp

lemma fits64_percent_of: "fits64 (percent_of n p)"
  by (simp add: percent_of_def fits64_int_of_float)

lemma desired_nodes_bounds:
  assumes "0 \<le> na_NumDesired a" and "fits64 (na_NumDesired a)"
  shows "0 \<le> desired_nodes n a \<and> fits64 (desired_nodes n a)"
  using assms fits64_percent_of [of "int n" "na_PercentDesired a"]
  by (auto simp: desired_nodes_def Let_def fits64_def)

lemma set_change_fold:
  assumes "distinct (map na_Name as)"
  shows "amount (fold (set_change wc) as m) x =
    (case find (\<lambda>a. na_Name a = x) as of
       Some a \<Rightarrow> (let d = wrap64 (desired_nodes (length (wc_TargetedNodes wc)) a
                          - amount (wc_CurrentAssignments wc) x)
                  in if d \<noteq> 0 then d else amount m x)
     | None \<Rightarrow> amount m x)"
  using assms
proof (induction as arbitrary: m)
  case (Cons a as)
  have none: "find (\<lambda>b. na_Name b = na_Name a) as = None"
    using Cons.prems by (simp add: find_None_iff) (metis image_eqI)
  have st: "amount (set_change wc a m) y =
    (if y = na_Name a \<and> wrap64 (desired_nodes (length (wc_TargetedNodes wc)) a - amount (wc_CurrentAssignments wc) y) \<noteq> 0
     then wrap64 (desired_nodes (length (wc_TargetedNodes wc)) a - amount (wc_CurrentAssignments wc) y)
     else amount m y)" for y
    by (auto simp: set_change_def amount_def Let_def)
  show ?case
    using Cons none by (auto simp: st Let_def split: option.splits)
qed simp

text \<open>The changes \<^verbatim>\<open>updateAssignmentChanges\<close> finds are the demand the plan starts from.\<close>

lemma changes_demand:
  assumes "distinct (map na_Name (nag_Assignments (wc_Nag wc)))"
    and "default_name (wc_Nag wc) \<notin> Some ` na_Name ` set (nag_Assignments (wc_Nag wc))"
    and "\<forall>a \<in> set (nag_Assignments (wc_Nag wc)). 0 \<le> na_NumDesired a \<and> fits64 (na_NumDesired a)"
    and "int (length (wc_TargetedNodes wc)) < 2 ^ 63"
  shows "amount (wc_AssignmentChanges (updateAssignmentChanges (updateCurrentAssignments wc))) =
    demand_of (desired_of (nag_Assignments (wc_Nag wc)) (length (wc_TargetedNodes wc)))
      (map na_Name (nag_Assignments (wc_Nag wc)))
      (map (GetAssignment (wc_Nag wc)) (wc_TargetedNodes wc))" (is "?L = ?R")
proof
  fix x
  let ?as = "nag_Assignments (wc_Nag wc)" and ?T = "wc_TargetedNodes wc"
  let ?cur = "fold (count_assignment (wc_Nag wc)) ?T Map.empty"
  have L: "?L x = amount (fold (set_change (updateCurrentAssignments wc)) ?as Map.empty) x"
    by (simp add: updateAssignmentChanges_def updateCurrentAssignments_def)
  show "?L x = ?R x"
  proof (cases "find (\<lambda>a. na_Name a = x) ?as")
    case None
    then have "x \<notin> set (map na_Name ?as)" by (auto simp: find_None_iff)
    then show ?thesis
      unfolding L set_change_fold [OF assms(1)] using None by (simp add: demand_of_def)
  next
    case (Some a)
    then have a: "a \<in> set ?as" "na_Name a = x" by (auto simp: find_Some_iff)
    have dx: "default_name (wc_Nag wc) \<noteq> Some x" using assms(2) a by auto
    have cur: "amount ?cur x = occ x (map (GetAssignment (wc_Nag wc)) ?T)"
      using count_fold [of Map.empty x ?T "wc_Nag wc"] assms(4) dx by simp
    have le: "occ x (map (GetAssignment (wc_Nag wc)) ?T) \<le> int (length ?T)"
      using count_le_length [of "map (GetAssignment (wc_Nag wc)) ?T" "Some x"] by (simp add: occ_def)
    have b: "0 \<le> desired_nodes (length ?T) a" "fits64 (desired_nodes (length ?T) a)"
      using desired_nodes_bounds [of a "length ?T"] assms(3) a by auto
    have "wrap64 (desired_nodes (length ?T) a - amount ?cur x) = desired_nodes (length ?T) a - amount ?cur x"
      using b le assms(4) occ_nonneg [of x "map (GetAssignment (wc_Nag wc)) ?T"]
      by (intro wrap64_id) (simp only: fits64_def cur, linarith)
    then show ?thesis
      unfolding L set_change_fold [OF assms(1)]
      using Some a by (auto simp: updateCurrentAssignments_def demand_of_def desired_of_def cur Let_def)
  qed
qed


section \<open>A whole reconciliation\<close>

text \<open>What a group must satisfy for the counts to make sense: distinct assignment names, a default
  that is not one of them, known modes, and node counts that are 64-bit and not negative.\<close>

definition sane_group :: "nag \<Rightarrow> bool" where
  "sane_group nag \<longleftrightarrow>
     distinct (map na_Name (nag_Assignments nag)) \<and>
     default_name nag \<notin> Some ` na_Name ` set (nag_Assignments nag) \<and>
     (\<forall>a \<in> set (nag_Assignments nag). known_mode a \<and> 0 \<le> na_NumDesired a \<and> fits64 (na_NumDesired a)) \<and>
     (\<forall>a. nag_Default nag = Some a \<longrightarrow> known_mode a)"

text \<open>The goal of a reconciliation, stated of the assignments the targeted nodes end with: every
  assignment has as many nodes as it asks for, or the nodes ran out and then every one of them is in
  use; and every node is on an assignment of the group, or the group has no default.\<close>

definition satisfied :: "nag \<Rightarrow> string option list \<Rightarrow> bool" where
  "satisfied nag rs \<longleftrightarrow>
     (\<forall>a \<in> set (nag_Assignments nag).
        occ (na_Name a) rs = desired_nodes (length rs) a \<or>
        (occ (na_Name a) rs < desired_nodes (length rs) a \<and> (\<forall>r \<in> set rs. r \<noteq> None \<and> r \<noteq> default_name nag))) \<and>
     (\<forall>r \<in> set rs. (case r of Some x \<Rightarrow> x \<in> known_names nag | None \<Rightarrow> default_name nag = None))"

text \<open>What the plan makes of the assignments a list of nodes carries.\<close>

definition planned :: "nag \<Rightarrow> node list \<Rightarrow> string option list" where
  "planned nag T =
     (let as = map na_Name (nag_Assignments nag); cs = map (GetAssignment nag) T
      in fst (plan as (default_name nag) (demand_of (desired_of (nag_Assignments nag) (length T)) as cs) cs))"

definition outcome :: "taint_match \<Rightarrow> nag \<Rightarrow> node list \<Rightarrow> node list \<Rightarrow> string option list" where
  "outcome match nag ns ns' =
     map (\<lambda>n. label_at (nag_Name nag) ns' (node_Name n)) (targeted match nag ns)"

lemma length_targeted: "length (targeted match nag ns) \<le> length ns"
  by (simp add: targeted_def order_trans [OF length_filter_le])

lemma kept_targeted:
  "n \<in> set (targeted match nag ns) \<Longrightarrow> distinct (names ns) \<Longrightarrow>
   \<exists>m \<in> set ns. n = strip match nag m \<and> kept match nag m = GetAssignment nag n"
  by (auto simp: targeted_def kept_def)

lemma demand_safe:
  assumes "\<forall>a \<in> set as. 0 \<le> desired (na_Name a) \<and> fits64 (desired (na_Name a))"
    and "df \<notin> Some ` na_Name ` set as" and "int (length cs) < 2 ^ 63" and "k = int (length cs)"
  shows "safe_changes (demand_of desired (map na_Name as) cs) df k"
proof -
  have fit: "fits64 (demand_of desired (map na_Name as) cs x)" for x
  proof (cases "x \<in> set (map na_Name as)")
    case True
    then have d: "0 \<le> desired x" "fits64 (desired x)" using assms(1) by auto
    have "occ x cs \<le> int (length cs)" using count_le_length [of cs "Some x"] by (simp add: occ_def)
    then show ?thesis
      using d True assms(3) occ_nonneg [of x cs] by (simp only: demand_of_def fits64_def if_True) linarith
  qed (auto simp: demand_of_def fits64_def)
  have "demand_of desired (map na_Name as) cs d = 0" if "df = Some d" for d
    using assms(2) that by (auto simp: demand_of_def)
  then show ?thesis using fit assms(3,4) by (auto simp: safe_changes_def)
qed

context reliable_node_api
begin

lemma NewWriterContext_total:
  assumes "wf_view (view s)"
  shows "\<exists>wc s1. NewWriterContext K nag s = (Inr (), wc, s1) \<and> wc_Nag wc = nag \<and>
    wf_view (view s1) \<and> names (view s1) = names (view s)"
proof -
  let ?wc0 = "updateKnownAssignments (empty_writerContext nag)"
  have init: "wc_Nag (empty_writerContext nag) = nag" "wc_TargetedNodes (empty_writerContext nag) = []"
    "wc_UnassignedNodeNames (empty_writerContext nag) = []"
    by (simp_all add: empty_writerContext_def)
  have pre: "\<forall>n \<in> set (view s). wf_node n \<and> node_Name n \<in> set (names (view s)) \<and>
      label_at (nag_Name nag) (view s) (node_Name n) = GetAssignment nag n \<and>
      node_Name n \<notin> set (wc_UnassignedNodeNames ?wc0)"
    using assms(1) by (auto simp: wf_view_def label_at_find GetAssignment_def init) (simp add: names_def)
  have dist: "distinct (names (view s))" using assms(1) by (simp add: wf_view_def)
  obtain wc1 s1 where "nodeSets_loop K ?wc0 (view s) s = (Inr None, wc1, s1)"
    "wc_Nag wc1 = nag" "wf_view (view s1)" "names (view s1) = names (view s)"
    using nodeSets_loop_reliable [OF assms(1) pre dist] init by auto
  then show ?thesis
    by (simp add: NewWriterContext_def Update_def updateNodeSets_def list_view updateAssignmentChanges_def
        updateCurrentAssignments_def)
qed

lemma NewWriterContext_reliable:
  assumes "wf_view (view s)" and "sane_group nag" and "int (length (view s)) < 2 ^ 63"
  shows "\<exists>wc s1. NewWriterContext K nag s = (Inr (), wc, s1) \<and> wc_Nag wc = nag \<and>
    wc_TargetedNodes wc = targeted (k_match K) nag (view s) \<and>
    wf_view (view s1) \<and> names (view s1) = names (view s) \<and>
    set (wc_UnassignedNodeNames wc) \<subseteq> set (names (view s)) \<and>
    (\<forall>n \<in> set (view s). tracks (nag_Name nag) (view s1) (wc_UnassignedNodeNames wc) (node_Name n)
      (kept (k_match K) nag n)) \<and>
    amount (wc_AssignmentChanges wc) =
      demand_of (desired_of (nag_Assignments nag) (length (targeted (k_match K) nag (view s))))
        (map na_Name (nag_Assignments nag))
        (map (GetAssignment nag) (targeted (k_match K) nag (view s)))"
proof -
  let ?wc0 = "updateKnownAssignments (empty_writerContext nag)"
  have init: "wc_Nag (empty_writerContext nag) = nag" "wc_TargetedNodes (empty_writerContext nag) = []"
    "wc_UnassignedNodeNames (empty_writerContext nag) = []"
    by (simp_all add: empty_writerContext_def)
  have pre: "\<forall>n \<in> set (view s). wf_node n \<and> node_Name n \<in> set (names (view s)) \<and>
      label_at (nag_Name nag) (view s) (node_Name n) = GetAssignment nag n \<and>
      node_Name n \<notin> set (wc_UnassignedNodeNames ?wc0)"
    using assms(1) by (auto simp: wf_view_def label_at_find GetAssignment_def init) (simp add: names_def)
  have dist: "distinct (names (view s))" using assms(1) by (simp add: wf_view_def)
  obtain wc1 s1 where l: "nodeSets_loop K ?wc0 (view s) s = (Inr None, wc1, s1)"
    and p: "wc_TargetedNodes wc1 = targeted (k_match K) nag (view s)" "wc_Nag wc1 = nag"
      "wf_view (view s1)" "names (view s1) = names (view s)"
      "set (wc_UnassignedNodeNames wc1) \<subseteq> set (names (view s))"
      "\<forall>n \<in> set (view s). tracks (nag_Name nag) (view s1) (wc_UnassignedNodeNames wc1) (node_Name n)
        (kept (k_match K) nag n)"
    using nodeSets_loop_reliable [OF assms(1) pre dist] init by auto
  let ?wc = "updateAssignmentChanges (updateCurrentAssignments wc1)"
  have frames: "wc_Nag ?wc = wc_Nag wc1" "wc_TargetedNodes ?wc = wc_TargetedNodes wc1"
    "wc_UnassignedNodeNames ?wc = wc_UnassignedNodeNames wc1"
    by (simp_all add: updateAssignmentChanges_def updateCurrentAssignments_def)
  have new: "NewWriterContext K nag s = (Inr (), ?wc, s1)"
    by (simp add: NewWriterContext_def Update_def updateNodeSets_def list_view l)
  have "int (length (wc_TargetedNodes wc1)) < 2 ^ 63"
    using p(1) length_targeted [of "k_match K" nag "view s"] assms(3) by simp
  from changes_demand [OF _ _ _ this] assms(2)
  have "amount (wc_AssignmentChanges ?wc) =
      demand_of (desired_of (nag_Assignments nag) (length (targeted (k_match K) nag (view s))))
        (map na_Name (nag_Assignments nag)) (map (GetAssignment nag) (targeted (k_match K) nag (view s)))"
    by (simp add: sane_group_def p(1,2))
  with new p frames show ?thesis by auto
qed

text \<open>The whole reconciliation, from the listing of the nodes to the end of the clean-up loop.\<close>

lemma group_reconciled:
  assumes "wf_view (view s)" and "sane_group nag" and "int (length (view s)) < 2 ^ 63"
  shows "\<exists>wc s1 wc' s'. NewWriterContext K nag s = (Inr (), wc, s1) \<and> wc_Nag wc = nag \<and>
    Reconcile K wc s1 = (Inr None, wc', s') \<and> names (view s') = names (view s) \<and> wf_view (view s') \<and>
    outcome (k_match K) nag (view s) (view s') = planned nag (targeted (k_match K) nag (view s)) \<and>
    satisfied nag (outcome (k_match K) nag (view s) (view s')) \<and>
    (\<forall>nm. nm \<notin> set (names (targeted (k_match K) nag (view s))) \<longrightarrow>
      label_at (nag_Name nag) (view s') nm = None)"
proof -
  let ?T = "targeted (k_match K) nag (view s)" and ?as = "nag_Assignments nag" and ?g = "nag_Name nag"
  let ?cs = "map (GetAssignment nag) ?T" and ?df = "default_name nag"
  let ?des = "desired_of ?as (length ?T)"
  obtain wc s1 where new: "NewWriterContext K nag s = (Inr (), wc, s1)"
    and w: "wc_Nag wc = nag" "wc_TargetedNodes wc = ?T" "wf_view (view s1)" "names (view s1) = names (view s)"
      "set (wc_UnassignedNodeNames wc) \<subseteq> set (names (view s))"
    and tr: "\<forall>n \<in> set (view s). tracks ?g (view s1) (wc_UnassignedNodeNames wc) (node_Name n)
      (kept (k_match K) nag n)"
    and am: "amount (wc_AssignmentChanges wc) = demand_of ?des (map na_Name ?as) ?cs"
    using NewWriterContext_reliable [OF assms] by blast
  have dist: "distinct (names (view s))" using assms(1) by (simp add: wf_view_def)
  have T: "\<forall>n \<in> set ?T. node_Name n \<in> set (names (view s1)) \<and> wf_node n"
    using assms(1) w(4) by (auto simp: targeted_def wf_view_def names_def)
  have distT: "distinct (names ?T)"
    unfolding targeted_def by (rule distinct_names_filter) (simp add: dist)
  have grp: "group_ok ?g ?as ?df nag" using assms(2) by (simp add: group_ok_def sane_group_def)
  have trT: "\<forall>n \<in> set ?T. tracks ?g (view s1) (wc_UnassignedNodeNames wc) (node_Name n) (GetAssignment nag n)"
  proof
    fix n assume "n \<in> set ?T"
    from kept_targeted [OF this dist] obtain m where "m \<in> set (view s)" "n = strip (k_match K) nag m"
      "kept (k_match K) nag m = GetAssignment nag n" by blast
    then show "tracks ?g (view s1) (wc_UnassignedNodeNames wc) (node_Name n) (GetAssignment nag n)"
      using tr by (metis strip_name)
  qed
  have lenT: "int (length ?T) < 2 ^ 63" using length_targeted [of "k_match K" nag "view s"] assms(3) by simp
  have des: "\<forall>a \<in> set ?as. ?des (na_Name a) = desired_nodes (length ?T) a \<and> 0 \<le> ?des (na_Name a) \<and> fits64 (?des (na_Name a))"
    using assms(2) desired_nodes_bounds by (auto simp: sane_group_def desired_of_in)
  have safe: "safe_changes (amount (wc_AssignmentChanges wc)) ?df (int (length ?T))"
    unfolding am by (rule demand_safe) (use assms(2) des lenT in \<open>auto simp: sane_group_def\<close>)
  obtain rs ch' where pl: "plan (map na_Name ?as) ?df (demand_of ?des (map na_Name ?as) ?cs) ?cs = (rs, ch')"
    by force
  obtain wc' s' where rec: "Reconcile K wc s1 = (Inr None, wc', s')" "wf_view (view s')"
      "names (view s') = names (view s1)"
    and out: "map (\<lambda>n. label_at ?g (view s') (node_Name n)) ?T = rs"
    and rest: "\<forall>nm. nm \<notin> set (names ?T) \<longrightarrow> label_at ?g (view s') nm =
      (if nm \<in> set (wc_UnassignedNodeNames wc) then None else label_at ?g (view s1) nm)"
    using Reconcile_plan [OF w(3), of wc ?g ?as ?df] T distT grp trT safe w am pl by auto
  have len: "length rs = length ?T" using out by auto
  have "satisfied nag rs"
    unfolding satisfied_def
  proof (intro conjI ballI)
    fix a assume a: "a \<in> set ?as"
    show "occ (na_Name a) rs = desired_nodes (length rs) a \<or>
      (occ (na_Name a) rs < desired_nodes (length rs) a \<and> (\<forall>r \<in> set rs. r \<noteq> None \<and> r \<noteq> ?df))"
    proof -
      have d: "?des (na_Name a) = desired_nodes (length rs) a" "0 \<le> ?des (na_Name a)"
        using des a by (auto simp: len)
      have "na_Name a \<in> set (map na_Name ?as)" "?df \<notin> Some ` set (map na_Name ?as)"
        using a assms(2) by (auto simp: sane_group_def)
      from plan_reaches_desired [OF pl this d(2)] show ?thesis unfolding d(1) .
    qed
  next
    fix r assume r: "r \<in> set rs"
    have cs: "c = None \<or> (\<exists>x \<in> known_names nag. c = Some x)" if "c \<in> set ?cs" for c
      using that by (auto simp: targeted_def GetAssignment_strip split: option.splits if_splits)
    show "case r of Some x \<Rightarrow> x \<in> known_names nag | None \<Rightarrow> ?df = None"
    proof (cases r)
      case None
      then show ?thesis using plan_range [OF pl r] by auto
    next
      case (Some x)
      show ?thesis
      proof (cases "r \<in> set ?cs")
        case True
        then show ?thesis using cs Some by auto
      next
        case False
        then show ?thesis using plan_range [OF pl r] Some by (auto simp: known_names_def)
      qed
    qed
  qed
  moreover have "label_at ?g (view s') nm = None" if nm: "nm \<notin> set (names ?T)" for nm
  proof (cases "nm \<in> set (names (view s))")
    case True
    then obtain n where n: "n \<in> set (view s)" "node_Name n = nm" by (auto simp: names_def)
    have "kept (k_match K) nag n = None"
    proof (rule ccontr)
      assume "kept (k_match K) nag n \<noteq> None"
      then have "strip (k_match K) nag n \<in> set ?T"
        using n(1) by (simp add: kept_def targeted_def split: if_splits)
      from names_mem [OF this] show False using nm n(2) by simp
    qed
    then show ?thesis using tr n rest nm by (auto simp: tracks_def)
  next
    case False
    then show ?thesis using find_names [of nm "view s'"] rec(3) w(4) by (simp add: label_at_def)
  qed
  moreover have "planned nag ?T = rs" using pl by (simp add: planned_def)
  ultimately show ?thesis
    using new rec w(1,4) out by (auto simp: outcome_def)
qed

end


text \<open>When every assignment has exactly the nodes it asks for and the default has taken the rest, the
  plan changes nothing.\<close>

definition balanced :: "nag \<Rightarrow> node list \<Rightarrow> bool" where
  "balanced nag T \<longleftrightarrow>
     (\<forall>a \<in> set (nag_Assignments nag).
        occ (na_Name a) (map (GetAssignment nag) T) = desired_nodes (length T) a) \<and>
     (default_name nag = None \<or> (\<forall>n \<in> set T. GetAssignment nag n \<noteq> None))"

lemma planned_balanced:
  assumes "sane_group nag" and "balanced nag T"
  shows "planned nag T = map (GetAssignment nag) T"
proof -
  have "demand_of (desired_of (nag_Assignments nag) (length T)) (map na_Name (nag_Assignments nag))
      (map (GetAssignment nag) T) x = 0" for x
    using assms by (auto simp: demand_of_def sane_group_def balanced_def desired_of_in)
  moreover have "None \<notin> set (map (GetAssignment nag) T) \<or> default_name nag = None"
    using assms(2) by (auto simp: balanced_def)
  moreover have "default_name nag \<notin> Some ` set (map na_Name (nag_Assignments nag))"
    using assms(1) by (auto simp: sane_group_def)
  ultimately show ?thesis
    unfolding planned_def Let_def by (intro plan_stable) auto
qed


section \<open>The number of nodes an assignment asks for\<close>

text \<open>C33: below the range where \<^verbatim>\<open>float32\<close> loses integers, the \<^verbatim>\<open>float32\<close> computation of the desired
  number is exact: the largest of \<^verbatim>\<open>numDesired\<close>, the percentage of the targeted nodes rounded down,
  and one. An assignment that asks for nothing still gets a node.\<close>

theorem desired_nodes_value:
  assumes "0 \<le> na_PercentDesired a" and "na_PercentDesired a < 2 ^ 24" and "int n < 2 ^ 24"
    and "int n * na_PercentDesired a < 2 ^ 24"
  shows "desired_nodes n a = max (na_NumDesired a) (max 1 (int n * na_PercentDesired a div 100))"
proof -
  have "percent_of (int n) (na_PercentDesired a) = int n * na_PercentDesired a div 100"
    using assms by (intro percent_of_exact) auto
  moreover have "0 \<le> int n * na_PercentDesired a div 100"
    using assms(1) by (simp add: pos_imp_zdiv_nonneg_iff)
  ultimately show ?thesis by (auto simp: desired_nodes_def Let_def)
qed

theorem desired_nodes_value_witness:
  "desired_nodes 7 ((demo_assignment ''fast'' '''')\<lparr>na_PercentDesired := 50\<rparr>) = 3"
  using desired_nodes_value [of "(demo_assignment ''fast'' '''')\<lparr>na_PercentDesired := 50\<rparr>" 7]
  by (simp add: demo_assignment_def)

end
