(* ===== verification/NodeFrame.thy ===== *)
theory NodeFrame
  imports UpdateRefinement
begin

text \<open>
  What a reconciliation never touches: whatever the server answers (every call may fail), the labels
  that are not the group's two keys and the taints under other keys stay as they are on every node.
  The invariant compares the server and the in-memory copies by their \<open>foreign\<close> part.
\<close>

section \<open>The foreign part of a node\<close>

definition own_key :: "string \<Rightarrow> string \<Rightarrow> bool" where
  "own_key g k \<longleftrightarrow> k = assign_key g \<or> k = packleft_key g"

type_synonym foreign_part = "(string \<Rightarrow> string option) \<times> taint list"

definition foreign :: "string \<Rightarrow> node \<Rightarrow> foreign_part" where
  "foreign g n =
     (\<lambda>k. if own_key g k then None else mget (node_Labels n) k,
      filter (\<lambda>t. \<not> own_key g (taint_Key t)) (n_Taints n))"

definition fview :: "string \<Rightarrow> node list \<Rightarrow> (string \<times> foreign_part) list" where
  "fview g ns = map (\<lambda>n. (node_Name n, foreign g n)) ns"

lemma group_key_own: "group_key nag k \<longleftrightarrow> own_key (nag_Name nag) k"
  by (simp add: group_key_def own_key_def)

lemma foreign_assigned [simp]: "nag_Name nag = g \<Longrightarrow> foreign g (assigned_node nag n na) = foreign g n"
  by (auto simp: foreign_def assigned_node_label fun_eq_iff own_key_def)
    (simp add: assigned_node_def assignment_taint_def)

lemma filter_own_taints:
  "filter (\<lambda>t. \<not> group_taint nag t \<and> \<not> own_key (nag_Name nag) (taint_Key t)) ts =
   filter (\<lambda>t. \<not> own_key (nag_Name nag) (taint_Key t)) ts"
  by (rule filter_cong) (auto simp: group_taint_def own_key_def)

lemma foreign_Unassign [simp]:
  "match_taint_law match \<Longrightarrow> nag_Name nag = g \<Longrightarrow> foreign g (snd (Unassign match nag n)) = foreign g n"
  by (auto simp: foreign_def Unassign_label group_key_own Unassign_taints filter_own_taints)

lemma foreign_merge:
  assumes "wf_map (node_Labels old)" and "wf_map (node_Labels new)"
    and "foreign g old = foreign g c" and "foreign g new = foreign g old"
  shows "foreign g (merge_node old new c) = foreign g c"
proof -
  have l: "\<not> own_key g k \<Longrightarrow> mget (node_Labels new) k = mget (node_Labels old) k" for k
    using assms(4) by (simp add: foreign_def fun_eq_iff) meson
  have t: "filter (\<lambda>t. \<not> own_key g (taint_Key t)) (n_Taints new) = filter (\<lambda>t. \<not> own_key g (taint_Key t)) (n_Taints c)"
    using assms(3,4) by (simp add: foreign_def)
  show ?thesis
    by (auto simp: foreign_def merge_labels_get [OF assms(1,2)] l t fun_eq_iff)
qed

definition wf_labels :: "node list \<Rightarrow> bool" where
  "wf_labels ns \<longleftrightarrow> (\<forall>n \<in> set ns. wf_map (node_Labels n))"

text \<open>The server's nodes have the foreign parts \<open>fv\<close>; a node in memory agrees with them.\<close>

definition frame_ok :: "string \<Rightarrow> (string \<times> foreign_part) list \<Rightarrow> node list \<Rightarrow> bool" where
  "frame_ok g fv ns \<longleftrightarrow> fview g ns = fv \<and> distinct (names ns) \<and> wf_labels ns"

definition copy_ok :: "string \<Rightarrow> (string \<times> foreign_part) list \<Rightarrow> node \<Rightarrow> bool" where
  "copy_ok g fv n \<longleftrightarrow> wf_map (node_Labels n) \<and> (node_Name n, foreign g n) \<in> set fv"

definition wc_ok :: "string \<Rightarrow> (string \<times> foreign_part) list \<Rightarrow> writerContext \<Rightarrow> node list \<Rightarrow> bool" where
  "wc_ok g fv wc ns \<longleftrightarrow>
     nag_Name (wc_Nag wc) = g \<and> frame_ok g fv ns \<and> (\<forall>n \<in> set (wc_TargetedNodes wc). copy_ok g fv n)"

lemma frame_ok_copies: "frame_ok g fv ns \<Longrightarrow> n \<in> set ns \<Longrightarrow> copy_ok g fv n"
  by (auto simp: frame_ok_def copy_ok_def wf_labels_def fview_def)

lemma copy_ok_Unassign [simp]:
  "match_taint_law match \<Longrightarrow> nag_Name nag = g \<Longrightarrow> copy_ok g fv n \<Longrightarrow> copy_ok g fv (snd (Unassign match nag n))"
  by (simp add: copy_ok_def wf_map_Unassign)

lemma foreign_unique:
  assumes "frame_ok g fv ns" and "copy_ok g fv old" and "c \<in> set ns" and "node_Name c = node_Name old"
  shows "foreign g c = foreign g old"
proof -
  have d: "distinct (map fst (fview g ns))"
    using assms(1) by (auto simp: frame_ok_def fview_def names_def comp_def)
  have "(node_Name c, foreign g c) \<in> set (fview g ns)" using assms(3) by (simp add: fview_def)
  moreover have "(node_Name c, foreign g old) \<in> set (fview g ns)"
    using assms(1,2,4) by (simp add: frame_ok_def copy_ok_def)
  ultimately show ?thesis using d by (metis eq_key_imp_eq_value)
qed

lemma frame_ok_update:
  assumes "frame_ok g fv ns" and "copy_ok g fv old" and "wf_map (node_Labels new)"
    and "foreign g new = foreign g old"
  shows "frame_ok g fv (update_view (node_Name old) (merge_node old new) ns)"
proof -
  have f: "foreign g (merge_node old new c) = foreign g c" if "c \<in> set ns" "node_Name c = node_Name old" for c
    using foreign_merge [of old new g c] foreign_unique [OF assms(1,2) that] assms(2-4)
    by (simp add: copy_ok_def)
  have "fview g (update_view (node_Name old) (merge_node old new) ns) = fview g ns"
    using f by (auto simp: fview_def update_view_def)
  moreover have "wf_labels (update_view (node_Name old) (merge_node old new) ns)"
    using assms(1) by (auto simp: frame_ok_def wf_labels_def update_view_def wf_map_merge_labels)
  ultimately show ?thesis using assms(1) by (simp add: frame_ok_def)
qed

section \<open>The operations of the writer context\<close>

context node_api
begin

lemma UpdateNodeAssignment_frame:
  assumes "frame_ok (nag_Name (wc_Nag wc)) fv (view s)" and "copy_ok (nag_Name (wc_Nag wc)) fv n"
    and "UpdateNodeAssignment K wc n na s = (r, wc', s')"
  shows "frame_ok (nag_Name (wc_Nag wc)) fv (view s') \<and> wc_Nag wc' = wc_Nag wc \<and>
    (case na of None \<Rightarrow> (\<exists>e. r = Inr (e, None))
     | Some a \<Rightarrow> (\<exists>p. r = Inl p) \<or> (\<exists>e a'. r = Inr (e, Some a')))"
proof -
  let ?g = "nag_Name (wc_Nag wc)"
  have send: "frame_ok ?g fv (view s2)"
    if "send_node_patch K n n' s = (e, s2)" "node_variant n n'" "wf_map (node_Labels n')"
       "foreign ?g n' = foreign ?g n" for n' e s2
    using that send_node_patch_ok [of n n' s s2] send_node_patch_err [of n n' s _ s2]
      frame_ok_update [OF assms(1,2)] assms(1,2)
    by (cases e) (auto simp: copy_ok_def)
  show ?thesis
  proof (cases na)
    case None
    obtain e s2 where e: "send_node_patch K n (snd (Unassign (k_match K) (wc_Nag wc) n)) s = (e, s2)" by force
    have "frame_ok ?g fv (view s2)"
      by (rule send [OF e node_variant_Unassign])
        (use assms(2) in \<open>simp_all add: copy_ok_def wf_map_Unassign match_law\<close>)
    then show ?thesis
      using assms(3) None e by (auto simp: UpdateNodeAssignment_def split: option.splits)
  next
    case (Some a)
    show ?thesis
    proof (cases "Assign (wc_Nag wc) n a")
      case (Inl p)
      then show ?thesis using assms Some by (auto simp: UpdateNodeAssignment_def)
    next
      case (Inr na')
      then have na': "fst na' = assigned_node (wc_Nag wc) n a" by (auto simp: Assign_cases split: if_splits)
      obtain e s2 where e: "send_node_patch K n (assigned_node (wc_Nag wc) n a) s = (e, s2)" by force
      have "frame_ok ?g fv (view s2)"
        by (rule send [OF e node_variant_assigned])
          (use assms(2) in \<open>simp_all add: copy_ok_def wf_map_assigned_node\<close>)
      then show ?thesis
        using assms(3) Some Inr na' e by (cases na') (auto simp: UpdateNodeAssignment_def split: option.splits)
    qed
  qed
qed

end

context node_api
begin

lemma update_ok:
  assumes "wc_ok g fv wc (view s)" and "copy_ok g fv n" and "UpdateNodeAssignment K wc n na s = (r, wc', s')"
  shows "wc_ok g fv wc' (view s')"
proof -
  have "wc_TargetedNodes wc' = wc_TargetedNodes wc"
    using assms(3) by (auto simp: UpdateNodeAssignment_def split: sum.splits option.splits prod.splits)
  then show ?thesis
    using UpdateNodeAssignment_frame [of wc fv s n na r wc' s'] assms by (simp add: wc_ok_def)
qed

lemma nodeSets_loop_ok:
  assumes "wc_ok g fv wc (view s)" and "\<forall>n \<in> set ns. copy_ok g fv n"
    and "nodeSets_loop K wc ns s = (r, wc', s')"
  shows "wc_ok g fv wc' (view s')"
  using assms
proof (induction ns arbitrary: wc s)
  case (Cons n ns)
  have g: "nag_Name (wc_Nag wc) = g" using Cons.prems(1) by (simp add: wc_ok_def)
  obtain n1 wc1 where body: "(case GetAssignment (wc_Nag wc) n of
           Some ca \<Rightarrow>
             if ca \<notin> wc_KnownAssignments wc
             then (snd (Unassign (k_match K) (wc_Nag wc) n),
                   wc\<lparr>wc_UnassignedNodeNames := set_add (node_Name n) (wc_UnassignedNodeNames wc)\<rparr>)
             else (n, wc)
         | None \<Rightarrow> (n, wc)) = (n1, wc1)" by force
  have n1: "copy_ok g fv n1" and wc1: "wc_ok g fv wc1 (view s)" "wc_Nag wc1 = wc_Nag wc"
    using body Cons.prems(1,2) g match_law by (auto simp: wc_ok_def split: option.splits if_splits)
  have rest: "\<forall>n \<in> set ns. copy_ok g fv n" using Cons.prems(2) by simp
  show ?case
  proof (cases "TargetsNode (wc_Nag wc) n1")
    case True
    have "wc_ok g fv (wc1\<lparr>wc_TargetedNodes := wc_TargetedNodes wc1 @ [n1]\<rparr>) (view s)"
      using wc1 n1 by (auto simp: wc_ok_def)
    from Cons.IH [OF this rest] Cons.prems(3) True body show ?thesis by simp
  next
    case False
    show ?thesis
    proof (cases "GetAssignment (wc_Nag wc) n1")
      case None
      with Cons.IH [OF wc1(1) rest] Cons.prems(3) False body show ?thesis by simp
    next
      case (Some ca)
      obtain ru wc2 s2 where u: "UpdateNodeAssignment K wc1 n1 None s = (ru, wc2, s2)"
        by (cases "UpdateNodeAssignment K wc1 n1 None s") auto
      have ok: "wc_ok g fv wc2 (view s2)" by (rule update_ok [OF wc1(1) n1 u])
      show ?thesis
        using Cons.IH [OF ok rest] Cons.prems(3) False body Some u ok
        by (auto split: sum.splits option.splits)
    qed
  qed
qed simp

lemma assignNode_loop_ok:
  assumes "wc_ok g fv wc (view s)" and "copy_ok g fv n" and "assignNode_loop K wc n as s = (r, wc', s')"
  shows "wc_ok g fv wc' (view s')"
  using assms(3)
proof (induction as)
  case (Cons a as)
  obtain ru wc2 s2 where u: "UpdateNodeAssignment K wc n (Some a) s = (ru, wc2, s2)"
    by (cases "UpdateNodeAssignment K wc n (Some a) s") auto
  have ok: "wc_ok g fv wc2 (view s2)" by (rule update_ok [OF assms(1,2) u])
  moreover have "wc_ok g fv (use_change (na_Name a) wc2) (view s2)"
    using ok by (simp add: wc_ok_def use_change_def)
  ultimately show ?case
    using Cons u by (auto split: option.splits if_splits sum.splits)
qed (use assms(1) in simp)

lemma place_node_ok:
  assumes "wc_ok g fv wc (view s)" and "copy_ok g fv n" and "place_node K wc n s = (r, wc', s')"
  shows "wc_ok g fv wc' (view s')"
proof -
  obtain ra wc1 s1 where a: "assignNode K wc n s = (ra, wc1, s1)" by (cases "assignNode K wc n s") auto
  have ok1: "wc_ok g fv wc1 (view s1)"
    using assignNode_loop_ok [OF assms(1,2)] a by (simp add: assignNode_def)
  show ?thesis
  proof (cases "nag_Default (wc_Nag wc1)")
    case None
    then show ?thesis using assms(3) a ok1 by (auto simp: place_node_def split: sum.splits bool.splits if_splits)
  next
    case (Some df)
    obtain ru wc2 s2 where u: "UpdateNodeAssignment K wc1 n (Some df) s1 = (ru, wc2, s2)"
      by (cases "UpdateNodeAssignment K wc1 n (Some df) s1") auto
    have ok2: "wc_ok g fv wc2 (view s2)" by (rule update_ok [OF ok1 assms(2) u])
    then have ok3: "wc_ok g fv (set_default na' wc2) (view s2)" for na'
      by (simp add: wc_ok_def set_default_def)
    show ?thesis
      using assms(3) a ok1 ok2 ok3 Some u
      by (auto simp: place_node_def split: sum.splits bool.splits if_splits)
  qed
qed

lemma reconcileNode_ok:
  assumes "wc_ok g fv wc (view s)" and "copy_ok g fv n" and "reconcileNode K wc n s = (r, n', wc', s')"
  shows "wc_ok g fv wc' (view s') \<and> copy_ok g fv n'"
proof -
  have g: "nag_Name (wc_Nag wc) = g" using assms(1) by (simp add: wc_ok_def)
  have 1: "copy_ok g fv (snd (Unassign (k_match K) (wc_Nag wc) n))"
    using assms(2) g match_law by simp
  have 2: "wc_ok g fv (snd (unassign_in_memory K wc n ca)) (view s)" for ca
    using assms(1) by (simp add: wc_ok_def unassign_in_memory_def release_change_def)
  show ?thesis
    using assms(3) place_node_ok [OF assms(1,2)] place_node_ok [OF 2 1] assms(1,2) 1
    by (auto simp: reconcileNode_def unassign_in_memory_def split: option.splits if_splits prod.splits)
qed

lemma reconcile_loop_ok:
  assumes "wc_ok g fv wc (view s)" and "\<forall>n \<in> set ns. copy_ok g fv n"
    and "reconcile_loop K wc ns s = (r, ns', wc', s')"
  shows "wc_ok g fv wc' (view s') \<and> (\<forall>n \<in> set ns'. copy_ok g fv n)"
  using assms
proof (induction ns arbitrary: wc s r ns' wc' s')
  case (Cons n ns)
  obtain r1 n1 wc1 s1 where n1: "reconcileNode K wc n s = (r1, n1, wc1, s1)"
    by (cases "reconcileNode K wc n s") auto
  have ok: "wc_ok g fv wc1 (view s1)" "copy_ok g fv n1"
    using reconcileNode_ok [OF Cons.prems(1) _ n1] Cons.prems(2) by auto
  obtain r2 ns2 wc2 s2 where l: "reconcile_loop K wc1 ns s1 = (r2, ns2, wc2, s2)"
    by (cases "reconcile_loop K wc1 ns s1") auto
  show ?case
    using Cons.IH [OF ok(1) _ l] Cons.prems(2,3) ok n1 l by (auto split: sum.splits option.splits)
qed simp

lemma cleanup_loop_ok:
  assumes "wc_ok g fv wc (view s)" and "cleanup_loop K wc nms s = (r, wc', s')"
  shows "wc_ok g fv wc' (view s')"
  using assms
proof (induction nms arbitrary: wc s)
  case (Cons nm nms)
  obtain r1 wc1 s1 where u: "UnassignNodeByName K wc nm s = (r1, wc1, s1)"
    by (cases "UnassignNodeByName K wc nm s") auto
  have ok: "wc_ok g fv wc1 (view s1)"
  proof (cases "k_nodesGet K nm s")
    case (Pair q s2)
    show ?thesis
    proof (cases q)
      case (Inl e)
      then show ?thesis using u Pair get_err [of nm s e s2] Cons.prems(1) by (auto simp: UnassignNodeByName_def)
    next
      case (Inr n)
      with Pair get_ok [of nm s n s2] have s2: "s2 = s" and "find (\<lambda>n. node_Name n = nm) (view s) = Some n" by auto
      then have "n \<in> set (view s)" by (auto simp: find_Some_iff)
      then have c: "copy_ok g fv n" using Cons.prems(1) frame_ok_copies by (auto simp: wc_ok_def)
      obtain ru wc2 s3 where up: "UpdateNodeAssignment K wc n None s = (ru, wc2, s3)"
        by (cases "UpdateNodeAssignment K wc n None s") auto
      show ?thesis
        using update_ok [OF Cons.prems(1) c up] u up Pair Inr s2
        by (auto simp: UnassignNodeByName_def split: sum.splits prod.splits)
    qed
  qed
  show ?case using Cons.IH [OF ok] Cons.prems(2) u ok by (auto split: sum.splits)
qed simp

lemma unassignAll_loop_ok:
  assumes "wc_ok g fv wc (view s)" and "\<forall>n \<in> set ns. copy_ok g fv n"
    and "unassignAll_loop K wc ns s = (r, wc', s')"
  shows "wc_ok g fv wc' (view s')"
  using assms
proof (induction ns arbitrary: wc s)
  case (Cons n ns)
  obtain r1 wc1 s1 where u: "UpdateNodeAssignment K wc n None s = (r1, wc1, s1)"
    by (cases "UpdateNodeAssignment K wc n None s") auto
  have ok: "wc_ok g fv wc1 (view s1)" by (rule update_ok [OF Cons.prems(1) _ u]) (use Cons.prems(2) in simp)
  show ?case using Cons.IH [OF ok] Cons.prems(2,3) u ok by (auto split: sum.splits)
qed simp

lemma NewWriterContext_ok:
  assumes "frame_ok (nag_Name nag) fv (view s)" and "NewWriterContext K nag s = (r, wc, s')"
  shows "wc_ok (nag_Name nag) fv wc (view s')"
proof -
  let ?wc0 = "updateKnownAssignments (empty_writerContext nag)"
  have ok0: "wc_ok (nag_Name nag) fv ?wc0 (view s)"
    using assms(1) by (simp add: wc_ok_def empty_writerContext_def)
  obtain l s1 where ls: "k_nodesList K s = (l, s1)" by force
  obtain r1 wc1 s2 where u: "updateNodeSets K ?wc0 s = (r1, wc1, s2)" by (cases "updateNodeSets K ?wc0 s") auto
  have "wc_ok (nag_Name nag) fv wc1 (view s2)"
  proof (cases l)
    case (Inl e)
    then show ?thesis using u ls list_err [of s e s1] ok0 by (auto simp: updateNodeSets_def)
  next
    case (Inr ns)
    with ls list_ok have l: "k_nodesList K s = (Inr (view s), s)" by auto
    have c: "\<forall>n \<in> set (view s). copy_ok (nag_Name nag) fv n"
      using frame_ok_copies [OF assms(1)] by blast
    have "nodeSets_loop K ?wc0 (view s) s = (r1, wc1, s2)" using u l by (simp add: updateNodeSets_def)
    from nodeSets_loop_ok [OF ok0 c this] show ?thesis .
  qed
  then show ?thesis
    using assms(2) u
    by (auto simp: NewWriterContext_def Update_def wc_ok_def updateAssignmentChanges_def
        updateCurrentAssignments_def split: sum.splits)
qed

lemma Reconcile_ok:
  assumes "wc_ok g fv wc (view s)" and "Reconcile K wc s = (r, wc', s')"
  shows "wc_ok g fv wc' (view s')"
proof -
  obtain r1 ns wc1 s1 where l: "reconcile_loop K wc (wc_TargetedNodes wc) s = (r1, ns, wc1, s1)"
    by (cases "reconcile_loop K wc (wc_TargetedNodes wc) s") auto
  have ok: "wc_ok g fv wc1 (view s1)" "\<forall>n \<in> set ns. copy_ok g fv n"
    using reconcile_loop_ok [OF assms(1) _ l] assms(1) [unfolded wc_ok_def] by blast+
  then have ok1: "wc_ok g fv (wc1\<lparr>wc_TargetedNodes := ns\<rparr>) (view s1)" by (simp add: wc_ok_def)
  show ?thesis
    using assms(2) l ok1 cleanup_loop_ok [OF ok1] by (auto simp: Reconcile_def split: sum.splits option.splits)
qed

lemma UnassignAllNodes_ok:
  assumes "wc_ok g fv wc (view s)" and "UnassignAllNodes K wc s = (r, wc', s')"
  shows "wc_ok g fv wc' (view s')"
proof -
  obtain l s1 where ls: "k_nodesList K s = (l, s1)" by force
  show ?thesis
  proof (cases l)
    case (Inl e)
    then show ?thesis using assms ls list_err [of s e s1] by (auto simp: UnassignAllNodes_def)
  next
    case (Inr ns)
    with ls list_ok have l: "k_nodesList K s = (Inr (view s), s)" by auto
    have c: "\<forall>n \<in> set (view s). copy_ok g fv n"
      using frame_ok_copies assms(1) unfolding wc_ok_def by blast
    have "unassignAll_loop K wc (view s) s = (r, wc', s')" using assms(2) l by (simp add: UnassignAllNodes_def)
    from unassignAll_loop_ok [OF assms(1) c this] show ?thesis .
  qed
qed

end

end
