(* ===== verification/Queue.thy ===== *)
theory Queue
  imports Prelude
begin

text \<open>
  \<^verbatim>\<open>pkg/queues/retrying_work_queue.go\<close>: the work queue behind every controller. A worker takes a
  key, looks the object up in the cache, runs the controller's function on it, and either forgets
  the key or puts it back, at most five times in a row. The rate-limited queue itself belongs to
  client-go: it is a record of operations, and the locale \<open>rate_limited_queue\<close> states the
  documented behaviour the code relies on.
\<close>

section \<open>The client-go queue\<close>

record 'q workqueue =
  wq_Add :: "string \<Rightarrow> 'q \<Rightarrow> 'q"
  wq_Get :: "'q \<Rightarrow> (string \<times> bool) \<times> 'q"      \<comment> \<open>the key and the shutdown flag\<close>
  wq_Done :: "string \<Rightarrow> 'q \<Rightarrow> 'q"
  wq_AddRateLimited :: "string \<Rightarrow> 'q \<Rightarrow> 'q"
  wq_Forget :: "string \<Rightarrow> 'q \<Rightarrow> 'q"
  wq_NumRequeues :: "string \<Rightarrow> 'q \<Rightarrow> int"

text \<open>\<open>pend\<close> is the set of keys that will be handed out again, now or after their delay;
  \<open>busy\<close> the set of keys handed out and not yet done.\<close>

locale rate_limited_queue =
  fixes Q :: "'q workqueue"
    and pend :: "'q \<Rightarrow> string set"
    and busy :: "'q \<Rightarrow> string set"
  assumes add: "pend (wq_Add Q k q) = insert k (pend q)" "busy (wq_Add Q k q) = busy q"
      "wq_NumRequeues Q k' (wq_Add Q k q) = wq_NumRequeues Q k' q"
    and get: "wq_Get Q q = ((k, False), q') \<Longrightarrow>
      k \<in> pend q \<and> k \<notin> busy q \<and> pend q' = pend q - {k} \<and> busy q' = insert k (busy q) \<and>
      (\<forall>k'. wq_NumRequeues Q k' q' = wq_NumRequeues Q k' q)"
    and finished: "pend (wq_Done Q k q) = pend q" "busy (wq_Done Q k q) = busy q - {k}"
      "wq_NumRequeues Q k' (wq_Done Q k q) = wq_NumRequeues Q k' q"
    and limited: "pend (wq_AddRateLimited Q k q) = insert k (pend q)"
      "busy (wq_AddRateLimited Q k q) = busy q"
      "wq_NumRequeues Q k' (wq_AddRateLimited Q k q) =
         (if k' = k then wq_NumRequeues Q k q + 1 else wq_NumRequeues Q k' q)"
    and forget: "pend (wq_Forget Q k q) = pend q" "busy (wq_Forget Q k q) = busy q"
      "wq_NumRequeues Q k' (wq_Forget Q k q) = (if k' = k then 0 else wq_NumRequeues Q k' q)"

section \<open>RetryingWorkQueue\<close>

text \<open>\<open>'obj\<close> is the type of the cached objects, \<open>'s\<close> the state the controller's function works on.
  The indexer is \<open>None\<close> while it is nil; a lookup returns an error or whether the key exists.\<close>

record ('q, 'obj, 's) retryingWorkQueue =
  rwq_queue :: "'q workqueue"
  rwq_indexer :: "('s \<Rightarrow> string \<Rightarrow> goerr + 'obj option) option"
  rwq_businessLogicFunc :: "'obj \<Rightarrow> 's \<Rightarrow> (gopanic + goerr option) \<times> 's"

definition AddItem :: "('obj \<Rightarrow> goerr + string) \<Rightarrow> 'q workqueue \<Rightarrow> 'obj \<Rightarrow> 'q \<Rightarrow> 'q" where
  "AddItem keyFunc Q obj q =
     (case keyFunc obj of Inr key \<Rightarrow> wq_Add Q key q | Inl err \<Rightarrow> q)"

definition handleErr :: "'q workqueue \<Rightarrow> goerr option \<Rightarrow> string \<Rightarrow> 'q \<Rightarrow> 'q" where
  "handleErr Q err key q =
     (if err = None then wq_Forget Q key q
      else if wq_NumRequeues Q key q < 5 then wq_AddRateLimited Q key q
      else wq_Forget Q key q)"

text \<open>The deferred \<^verbatim>\<open>Done\<close> runs on every path, a panic of the controller's function included.\<close>

definition processNextItem ::
    "('q, 'obj, 's) retryingWorkQueue \<Rightarrow> 'q \<Rightarrow> 's \<Rightarrow> (gopanic + bool) \<times> 'q \<times> 's" where
  "processNextItem rwq q s =
     (let Q = rwq_queue rwq in
      case wq_Get Q q of
        ((key, True), q1) \<Rightarrow> (Inr False, q1, s)
      | ((key, False), q1) \<Rightarrow>
          (case rwq_indexer rwq of
             None \<Rightarrow>
               (Inr True, wq_Done Q key (handleErr Q (Some (OtherErr ''indexer has not been set'')) key q1), s)
           | Some getByKey \<Rightarrow>
               (case getByKey s key of
                  Inl err \<Rightarrow> (Inr True, wq_Done Q key (handleErr Q (Some err) key q1), s)
                | Inr None \<Rightarrow> (Inr True, wq_Done Q key (handleErr Q None key q1), s)
                | Inr (Some obj) \<Rightarrow>
                    (case rwq_businessLogicFunc rwq obj s of
                       (Inl p, s1) \<Rightarrow> (Inl p, wq_Done Q key q1, s1)
                     | (Inr err, s1) \<Rightarrow> (Inr True, wq_Done Q key (handleErr Q err key q1), s1)))))"

text \<open>\<^verbatim>\<open>runWorker\<close> loops until the queue is shut down; \<open>fuel\<close> bounds the number of items.\<close>

fun runWorker ::
    "nat \<Rightarrow> ('q, 'obj, 's) retryingWorkQueue \<Rightarrow> 'q \<Rightarrow> 's \<Rightarrow> (gopanic + bool) \<times> 'q \<times> 's" where
  "runWorker 0 rwq q s = (Inr True, q, s)"
| "runWorker (Suc fuel) rwq q s =
     (case processNextItem rwq q s of
        (Inr True, q1, s1) \<Rightarrow> runWorker fuel rwq q1 s1
      | r \<Rightarrow> r)"

lemma runWorker_add:
  "runWorker m rwq q s = (Inr True, q1, s1) \<Longrightarrow> runWorker (m + n) rwq q s = runWorker n rwq q1 s1"
proof (induction m arbitrary: q s)
  case (Suc m)
  then show ?case
    by (cases "processNextItem rwq q s") (auto split: sum.splits bool.splits)
qed simp

section \<open>What one item does to the queue\<close>

text \<open>The outcome of looking up and processing a key: a panic, or the error \<^verbatim>\<open>handleErr\<close> gets.\<close>

definition verdict ::
    "('q, 'obj, 's) retryingWorkQueue \<Rightarrow> string \<Rightarrow> 's \<Rightarrow> (gopanic + goerr option) \<times> 's" where
  "verdict rwq key s =
     (case rwq_indexer rwq of
        None \<Rightarrow> (Inr (Some (OtherErr ''indexer has not been set'')), s)
      | Some getByKey \<Rightarrow>
          (case getByKey s key of
             Inl err \<Rightarrow> (Inr (Some err), s)
           | Inr None \<Rightarrow> (Inr None, s)
           | Inr (Some obj) \<Rightarrow> rwq_businessLogicFunc rwq obj s))"

lemma processNextItem_verdict:
  "wq_Get (rwq_queue rwq) q = ((key, False), q1) \<Longrightarrow>
   processNextItem rwq q s =
     (case verdict rwq key s of
        (Inl p, s1) \<Rightarrow> (Inl p, wq_Done (rwq_queue rwq) key q1, s1)
      | (Inr err, s1) \<Rightarrow>
          (Inr True, wq_Done (rwq_queue rwq) key (handleErr (rwq_queue rwq) err key q1), s1))"
  by (auto simp: processNextItem_def verdict_def Let_def split: option.splits sum.splits prod.splits)

lemma processNextItem_quit:
  "wq_Get (rwq_queue rwq) q = ((key, True), q1) \<Longrightarrow> processNextItem rwq q s = (Inr False, q1, s)"
  by (simp add: processNextItem_def)

text \<open>What processing any key keeps, the worker keeps.\<close>

lemma runWorker_invariant:
  assumes "\<And>k s. I s \<Longrightarrow> I (snd (verdict rwq k s))" and "I s"
  shows "I (snd (snd (runWorker n rwq q s)))"
  using assms(2)
proof (induction n arbitrary: q s)
  case (Suc n)
  obtain k b q1 where g: "wq_Get (rwq_queue rwq) q = ((k, b), q1)" by (metis prod.exhaust)
  obtain r s1 where v: "verdict rwq k s = (r, s1)" by force
  then have s1: "I s1" using assms(1) [OF Suc.prems, of k] by simp
  show ?case
  proof (cases b)
    case True
    then show ?thesis using Suc.prems g by (simp add: processNextItem_quit)
  next
    case False
    then show ?thesis
      using Suc.IH [OF s1] s1 processNextItem_verdict [of rwq q k q1 s] g v by (cases r) auto
  qed
qed simp

context rate_limited_queue
begin

lemma handleErr_pend:
  "pend (handleErr Q err k q) =
     (if err \<noteq> None \<and> wq_NumRequeues Q k q < 5 then insert k (pend q) else pend q)"
  by (simp add: handleErr_def limited forget)

lemma handleErr_busy [simp]: "busy (handleErr Q err k q) = busy q"
  by (simp add: handleErr_def limited forget)

lemma handleErr_requeues:
  "wq_NumRequeues Q k' (handleErr Q err k q) =
     (if k' \<noteq> k then wq_NumRequeues Q k' q
      else if err \<noteq> None \<and> wq_NumRequeues Q k q < 5 then wq_NumRequeues Q k q + 1 else 0)"
  by (simp add: handleErr_def limited forget)

text \<open>One item: the key leaves the queue, comes back exactly if it failed fewer than five times
  before, and no key stays busy.\<close>

lemma item_step:
  assumes "rwq_queue rwq = Q" and "wq_Get Q q = ((k, False), q1)" and "verdict rwq k s = (Inr err, s1)"
  shows "\<exists>q'. processNextItem rwq q s = (Inr True, q', s1) \<and> busy q' = busy q \<and>
    pend q' = (if err \<noteq> None \<and> wq_NumRequeues Q k q < 5 then pend q else pend q - {k}) \<and>
    (\<forall>k'. wq_NumRequeues Q k' q' =
      (if k' \<noteq> k then wq_NumRequeues Q k' q
       else if err \<noteq> None \<and> wq_NumRequeues Q k q < 5 then wq_NumRequeues Q k q + 1 else 0))"
proof -
  have g: "k \<in> pend q" "k \<notin> busy q" "pend q1 = pend q - {k}" "busy q1 = insert k (busy q)"
    "\<forall>k'. wq_NumRequeues Q k' q1 = wq_NumRequeues Q k' q" using get [OF assms(2)] by auto
  show ?thesis
    using processNextItem_verdict [of rwq q k q1 s] assms g
    by (auto simp: finished handleErr_pend handleErr_requeues)
qed

text \<open>A panic does not leave the key busy either.\<close>

lemma item_panic:
  assumes "rwq_queue rwq = Q" and "wq_Get Q q = ((k, False), q1)" and "verdict rwq k s = (Inl p, s1)"
  shows "\<exists>q'. processNextItem rwq q s = (Inl p, q', s1) \<and> busy q' = busy q \<and> pend q' = pend q - {k}"
  using processNextItem_verdict [of rwq q k q1 s] assms get [OF assms(2)] by (auto simp: finished)

text \<open>A key whose processing always fails is handed out six times, then dropped.\<close>

lemma failing_key:
  assumes rwq: "rwq_queue rwq = Q"
    and fail: "\<And>s. \<exists>e s1. verdict rwq k s = (Inr (Some e), s1)"
    and ready: "\<And>q. pend q = {k} \<Longrightarrow> busy q = {} \<Longrightarrow> \<exists>q'. wq_Get Q q = ((k, False), q')"
    and start: "pend q = {k}" "busy q = {}" "wq_NumRequeues Q k q = int i" "i \<le> 5"
  shows "n \<le> 5 - i \<Longrightarrow> \<exists>q' s'. runWorker n rwq q s = (Inr True, q', s') \<and> pend q' = {k} \<and> busy q' = {} \<and>
      wq_NumRequeues Q k q' = int (i + n)"
    and "\<exists>q' s'. runWorker (6 - i) rwq q s = (Inr True, q', s') \<and> pend q' = {} \<and> busy q' = {} \<and>
      wq_NumRequeues Q k q' = 0"
proof -
  have step: "\<exists>q' s'. processNextItem rwq q s = (Inr True, q', s') \<and> busy q' = {} \<and>
      pend q' = (if j < 5 then {k} else {}) \<and> wq_NumRequeues Q k q' = (if j < 5 then int (Suc j) else 0)"
    if p: "pend q = {k}" "busy q = {}" "wq_NumRequeues Q k q = int j" for q s j
  proof -
    obtain q1 where g: "wq_Get Q q = ((k, False), q1)" using ready [OF p(1,2)] by blast
    obtain e s1 where v: "verdict rwq k s = (Inr (Some e), s1)" using fail by blast
    show ?thesis using item_step [OF rwq g v] p by auto
  qed
  have run: "\<exists>q' s'. runWorker n rwq q s = (Inr True, q', s') \<and> pend q' = {k} \<and> busy q' = {} \<and>
      wq_NumRequeues Q k q' = int (j + n)"
    if "pend q = {k}" "busy q = {}" "wq_NumRequeues Q k q = int j" "j + n \<le> 5" for q s j n
    using that
  proof (induction n arbitrary: q s j)
    case (Suc n)
    obtain q1 s1 where 1: "processNextItem rwq q s = (Inr True, q1, s1)" "busy q1 = {}" "pend q1 = {k}"
      "wq_NumRequeues Q k q1 = int (Suc j)" using step [OF Suc.prems(1-3), of s] Suc.prems(4) by auto
    show ?case using Suc.IH [OF 1(3,2,4), of s1] Suc.prems(4) 1(1) by auto
  qed simp
  then show "n \<le> 5 - i \<Longrightarrow> \<exists>q' s'. runWorker n rwq q s = (Inr True, q', s') \<and> pend q' = {k} \<and> busy q' = {} \<and>
      wq_NumRequeues Q k q' = int (i + n)" using start by auto
  have last: "\<exists>q' s'. runWorker (m + 1) rwq q s = (Inr True, q', s') \<and> pend q' = {} \<and> busy q' = {} \<and>
      wq_NumRequeues Q k q' = 0" if "pend q = {k}" "busy q = {}" "wq_NumRequeues Q k q = int j" "j + m = 5" for q s j m
    using that
  proof (induction m arbitrary: q s j)
    case 0
    then show ?case using step [OF 0(1-3), of s] by auto
  next
    case (Suc m)
    obtain q1 s1 where 1: "processNextItem rwq q s = (Inr True, q1, s1)" "busy q1 = {}" "pend q1 = {k}"
      "wq_NumRequeues Q k q1 = int (Suc j)" using step [OF Suc.prems(1-3), of s] Suc.prems(4) by auto
    show ?case using Suc.IH [OF 1(3,2,4), of s1] Suc.prems(4) 1(1) by auto
  qed
  have "6 - i = (5 - i) + 1" using start(4) by simp
  then show "\<exists>q' s'. runWorker (6 - i) rwq q s = (Inr True, q', s') \<and> pend q' = {} \<and> busy q' = {} \<and>
      wq_NumRequeues Q k q' = 0"
    using last [OF start(1-3), of "5 - i" s] start(4) by simp
qed

end


section \<open>A worker empties its queue\<close>

text \<open>What the documentation of the queue adds for a single worker: while a key is pending and none is being
  processed, \<^verbatim>\<open>Get\<close> hands one out; and the pending keys are finitely many.\<close>

locale draining_queue = rate_limited_queue +
  assumes handed_out: "pend q \<noteq> {} \<Longrightarrow> busy q = {} \<Longrightarrow> \<exists>k q'. wq_Get Q q = ((k, False), q')"
    and finite_pend: "finite (pend q)"

text \<open>How often a key can still be handed out, from the number of times it was put back.\<close>

definition attempts_left :: "int \<Rightarrow> nat" where
  "attempts_left r = (if r < 5 then nat (6 - r) else 1)"

lemma attempts_left_pos [simp]: "0 < attempts_left r"
  by (simp add: attempts_left_def)

lemma attempts_left_retry: "r < 5 \<Longrightarrow> attempts_left r = Suc (attempts_left (r + 1))"
  by (auto simp: attempts_left_def)

context draining_queue
begin

definition budget :: "'a \<Rightarrow> nat" where
  "budget q = (\<Sum>k \<in> pend q. attempts_left (wq_NumRequeues Q k q))"

lemma budget_step:
  assumes "k \<in> pend q" and "pend q' = (if again \<and> wq_NumRequeues Q k q < 5 then pend q else pend q - {k})"
    and "\<forall>k'. wq_NumRequeues Q k' q' =
      (if k' \<noteq> k then wq_NumRequeues Q k' q
       else if again \<and> wq_NumRequeues Q k q < 5 then wq_NumRequeues Q k q + 1 else 0)"
  shows "budget q' < budget q"
proof -
  have split: "budget q = attempts_left (wq_NumRequeues Q k q) + (\<Sum>k \<in> pend q - {k}. attempts_left (wq_NumRequeues Q k q))"
    unfolding budget_def using finite_pend assms(1) by (rule sum.remove)
  have rest: "(\<Sum>k \<in> pend q - {k}. attempts_left (wq_NumRequeues Q k q')) =
      (\<Sum>k \<in> pend q - {k}. attempts_left (wq_NumRequeues Q k q))"
    by (rule sum.cong) (simp_all add: assms(3))
  show ?thesis
  proof (cases "again \<and> wq_NumRequeues Q k q < 5")
    case True
    then have "budget q' = attempts_left (wq_NumRequeues Q k q + 1) + (\<Sum>k \<in> pend q - {k}. attempts_left (wq_NumRequeues Q k q'))"
      unfolding budget_def using assms(1-3) sum.remove [OF finite_pend assms(1), of "\<lambda>k. attempts_left (wq_NumRequeues Q k q')"] by simp
    then show ?thesis using split rest True by (simp add: attempts_left_retry)
  next
    case False
    then have "budget q' = (\<Sum>k \<in> pend q - {k}. attempts_left (wq_NumRequeues Q k q'))"
      unfolding budget_def using assms(2) by (simp only: if_False)
    then show ?thesis using split rest by simp
  qed
qed

text \<open>The key \<open>k\<close> is handed out when the worker takes its item number \<open>m\<close>.\<close>

definition processed_at where
  "processed_at rwq q s k m \<longleftrightarrow>
     (\<exists>q1 s1 q2. runWorker m rwq q s = (Inr True, q1, s1) \<and> wq_Get Q q1 = ((k, False), q2))"

text \<open>\<open>D k s\<close> is what processing the key \<open>k\<close> achieves and no later item undoes.\<close>

lemma drains_done:
  assumes rwq: "rwq_queue rwq = Q"
    and ok: "\<And>k s. I s \<Longrightarrow> \<exists>e s1. verdict rwq k s = (Inr e, s1) \<and> I s1 \<and> D k s1 \<and> (\<forall>k'. D k' s \<longrightarrow> D k' s1)"
    and "busy q = {}" and "I s"
  shows "\<exists>n q' s'. n \<le> budget q \<and> runWorker n rwq q s = (Inr True, q', s') \<and> pend q' = {} \<and> busy q' = {} \<and> I s' \<and>
    (\<forall>k \<in> pend q. \<exists>m < n. processed_at rwq q s k m) \<and> (\<forall>k. k \<in> pend q \<or> D k s \<longrightarrow> D k s')"
  using assms(3,4)
proof (induction "budget q" arbitrary: q s rule: less_induct)
  case less
  show ?case
  proof (cases "pend q = {}")
    case True
    then show ?thesis using less.prems by (intro exI [of _ 0]) simp
  next
    case False
    obtain k q1 where g: "wq_Get Q q = ((k, False), q1)" using handed_out [OF False less.prems(1)] by blast
    obtain e s1 where v: "verdict rwq k s = (Inr e, s1)" and i: "I s1" "D k s1" "\<forall>k'. D k' s \<longrightarrow> D k' s1"
      using ok [OF less.prems(2)] by blast
    obtain q2 where p: "processNextItem rwq q s = (Inr True, q2, s1)" and b: "busy q2 = {}"
      and pe: "pend q2 = (if e \<noteq> None \<and> wq_NumRequeues Q k q < 5 then pend q else pend q - {k})"
      and re: "\<forall>k'. wq_NumRequeues Q k' q2 = (if k' \<noteq> k then wq_NumRequeues Q k' q
        else if e \<noteq> None \<and> wq_NumRequeues Q k q < 5 then wq_NumRequeues Q k q + 1 else 0)"
      using item_step [OF rwq g v] less.prems by auto
    have lt: "budget q2 < budget q" using budget_step [OF _ pe re] get [OF g] by simp
    from less.hyps [OF lt b i(1)] obtain n q' s' where n: "n \<le> budget q2" "runWorker n rwq q2 s1 = (Inr True, q', s')"
      "pend q' = {}" "busy q' = {}" "I s'" "\<forall>k \<in> pend q2. \<exists>m < n. processed_at rwq q2 s1 k m"
      "\<forall>k. k \<in> pend q2 \<or> D k s1 \<longrightarrow> D k s'" by blast
    have "\<exists>m < Suc n. processed_at rwq q s x m" if x: "x \<in> pend q" for x
    proof (cases "x = k")
      case True
      then show ?thesis using g by (intro exI [of _ 0]) (simp add: processed_at_def)
    next
      case False
      then have "x \<in> pend q2" using x pe by simp
      then obtain m where "m < n" "processed_at rwq q2 s1 x m" using n(6) by blast
      then show ?thesis by (intro exI [of _ "Suc m"]) (simp add: processed_at_def p)
    qed
    moreover have "D x s'" if "x \<in> pend q \<or> D x s" for x
      using that n(7) i pe by (cases "x = k") auto
    ultimately show ?thesis using n lt p by (intro exI [of _ "Suc n"]) auto
  qed
qed

lemma drains:
  assumes "rwq_queue rwq = Q" and ok: "\<And>k s. I s \<Longrightarrow> \<exists>e s1. verdict rwq k s = (Inr e, s1) \<and> I s1"
    and "busy q = {}" and "I s"
  shows "\<exists>n q' s'. n \<le> budget q \<and> runWorker n rwq q s = (Inr True, q', s') \<and> pend q' = {} \<and> busy q' = {} \<and> I s' \<and>
    (\<forall>k \<in> pend q. \<exists>m < n. processed_at rwq q s k m)"
  using drains_done [where I = I and D = "\<lambda>k s. True", OF assms(1) _ assms(3,4)] ok by simp

end

section \<open>A queue without delays\<close>

record memq =
  mq_waiting :: "string list"
  mq_busy :: "string list"
  mq_requeues :: "(string \<times> int) list"

definition mq_count :: "string \<Rightarrow> memq \<Rightarrow> int" where
  "mq_count k q = (case map_of (mq_requeues q) k of None \<Rightarrow> 0 | Some n \<Rightarrow> n)"

definition mq_push :: "string \<Rightarrow> memq \<Rightarrow> memq" where
  "mq_push k q = (if k \<in> set (mq_waiting q) then q else q\<lparr>mq_waiting := mq_waiting q @ [k]\<rparr>)"

definition mem_queue :: "memq workqueue" where
  "mem_queue = \<lparr>
     wq_Add = mq_push,
     wq_Get = (\<lambda>q. case find (\<lambda>k. k \<notin> set (mq_busy q)) (mq_waiting q) of
        None \<Rightarrow> (('''', True), q)
      | Some k \<Rightarrow> ((k, False), q\<lparr>mq_waiting := filter (\<lambda>x. x \<noteq> k) (mq_waiting q), mq_busy := k # mq_busy q\<rparr>)),
     wq_Done = (\<lambda>k q. q\<lparr>mq_busy := filter (\<lambda>x. x \<noteq> k) (mq_busy q)\<rparr>),
     wq_AddRateLimited = (\<lambda>k q. (mq_push k q)\<lparr>mq_requeues := (k, mq_count k q + 1) # mq_requeues q\<rparr>),
     wq_Forget = (\<lambda>k q. q\<lparr>mq_requeues := (k, 0) # mq_requeues q\<rparr>),
     wq_NumRequeues = mq_count\<rparr>"

definition mem_pend :: "memq \<Rightarrow> string set" where "mem_pend q = set (mq_waiting q)"
definition mem_busy :: "memq \<Rightarrow> string set" where "mem_busy q = set (mq_busy q)"

interpretation mem_rlq: rate_limited_queue mem_queue mem_pend mem_busy
proof (unfold_locales, goal_cases)
  case (4 q k q')
  then obtain k0 where k0: "find (\<lambda>k. k \<notin> set (mq_busy q)) (mq_waiting q) = Some k0"
    by (auto simp: mem_queue_def split: option.splits)
  then have "k0 \<in> set (mq_waiting q)" "k0 \<notin> set (mq_busy q)" by (auto simp: find_Some_iff)
  then show ?case using 4 k0 by (auto simp: mem_queue_def mem_pend_def mem_busy_def mq_count_def)
qed (auto simp: mem_queue_def mem_pend_def mem_busy_def mq_push_def mq_count_def)

interpretation mem_dq: draining_queue mem_queue mem_pend mem_busy
proof (unfold_locales, goal_cases)
  case (1 q)
  then show ?case by (cases "mq_waiting q") (auto simp: mem_queue_def mem_pend_def mem_busy_def)
qed (simp add: mem_pend_def)

section \<open>The retry bound\<close>

text \<open>C31: a key that is alone in the queue and whose processing always fails is tried exactly six
  times. After each of the first five attempts it is back in the queue, the sixth attempt takes it
  out and clears its history; at no point is it left marked as being processed.\<close>

theorem retry_bound:
  assumes "rate_limited_queue (rwq_queue rwq) pend busy"
    and "\<And>s. \<exists>e s1. verdict rwq k s = (Inr (Some e), s1)"
    and "\<And>q. pend q = {k} \<Longrightarrow> busy q = {} \<Longrightarrow> \<exists>q'. wq_Get (rwq_queue rwq) q = ((k, False), q')"
    and "pend q = {k}" and "busy q = {}" and "wq_NumRequeues (rwq_queue rwq) k q = 0"
  shows "(\<forall>n \<le> 5. \<exists>q' s'. runWorker n rwq q s = (Inr True, q', s') \<and> pend q' = {k} \<and> busy q' = {} \<and>
      wq_NumRequeues (rwq_queue rwq) k q' = int n) \<and>
    (\<exists>q' s'. runWorker 6 rwq q s = (Inr True, q', s') \<and> pend q' = {} \<and> busy q' = {} \<and>
      wq_NumRequeues (rwq_queue rwq) k q' = 0)"
  using rate_limited_queue.failing_key [OF assms(1) refl assms(2,3,4,5), of 0] assms(6) by auto

text \<open>One call of \<^verbatim>\<open>processNextItem\<close> on a key: it is given back exactly if its processing ended
  with an error and it was requeued fewer than five times; no other key's history changes, and
  \<^verbatim>\<open>Done\<close> has been called even if the controller's function panicked.\<close>

theorem processNextItem_contract:
  assumes "rate_limited_queue (rwq_queue rwq) pend busy" and "wq_Get (rwq_queue rwq) q = ((k, False), q1)"
  shows "case verdict rwq k s of
      (Inl p, s1) \<Rightarrow> (\<exists>q'. processNextItem rwq q s = (Inl p, q', s1) \<and> busy q' = busy q \<and> pend q' = pend q - {k})
    | (Inr err, s1) \<Rightarrow>
        (let again = (err \<noteq> None \<and> wq_NumRequeues (rwq_queue rwq) k q < 5) in
         \<exists>q'. processNextItem rwq q s = (Inr True, q', s1) \<and> busy q' = busy q \<and>
           pend q' = (if again then pend q else pend q - {k}) \<and>
           (\<forall>k'. wq_NumRequeues (rwq_queue rwq) k' q' =
             (if k' \<noteq> k then wq_NumRequeues (rwq_queue rwq) k' q
              else if again then wq_NumRequeues (rwq_queue rwq) k q + 1 else 0)))"
proof (cases "verdict rwq k s")
  case (Pair r s1)
  show ?thesis
  proof (cases r)
    case (Inl p)
    from rate_limited_queue.item_panic [OF assms(1) refl assms(2)] Pair Inl show ?thesis by simp
  next
    case (Inr err)
    with Pair have v: "verdict rwq k s = (Inr err, s1)" by simp
    show ?thesis
      using rate_limited_queue.item_step [OF assms(1) refl assms(2) v]
      by (simp only: v Let_def prod.case sum.case)
  qed
qed

definition demo_rwq :: "(memq, string, unit) retryingWorkQueue" where
  "demo_rwq = \<lparr>rwq_queue = mem_queue, rwq_indexer = Some (\<lambda>s k. Inr (Some k)),
     rwq_businessLogicFunc = (\<lambda>obj s. (Inr (Some (OtherErr ''boom'')), s))\<rparr>"

definition demo_memq :: memq where
  "demo_memq = \<lparr>mq_waiting = [''io''], mq_busy = [], mq_requeues = []\<rparr>"

theorem retry_bound_witness:
  "\<exists>q' s'. runWorker 6 demo_rwq demo_memq () = (Inr True, q', s') \<and> mem_pend q' = {}"
proof -
  have g: "\<exists>q'. wq_Get (rwq_queue demo_rwq) q = ((''io'', False), q')"
    if "mem_pend q = {''io''}" "mem_busy q = {}" for q
    using that
    by (cases "mq_waiting q") (auto simp: demo_rwq_def mem_queue_def mem_pend_def mem_busy_def)
  have v: "\<exists>e s1. verdict demo_rwq ''io'' s = (Inr (Some e), s1)" for s
    by (simp add: verdict_def demo_rwq_def)
  have l: "rate_limited_queue (rwq_queue demo_rwq) mem_pend mem_busy"
    using mem_rlq.rate_limited_queue_axioms by (simp add: demo_rwq_def)
  have i: "mem_pend demo_memq = {''io''}" "mem_busy demo_memq = {}"
    "wq_NumRequeues (rwq_queue demo_rwq) ''io'' demo_memq = 0"
    by (simp_all add: mem_pend_def mem_busy_def demo_memq_def demo_rwq_def mem_queue_def mq_count_def)
  show ?thesis using retry_bound [OF l v g i] by blast
qed

theorem processNextItem_contract_witness:
  "\<exists>q'. processNextItem demo_rwq demo_memq () = (Inr True, q', ()) \<and> mem_pend q' = {''io''}"
proof -
  have l: "rate_limited_queue (rwq_queue demo_rwq) mem_pend mem_busy"
    using mem_rlq.rate_limited_queue_axioms by (simp add: demo_rwq_def)
  have g: "wq_Get (rwq_queue demo_rwq) demo_memq =
      ((''io'', False), demo_memq\<lparr>mq_waiting := [], mq_busy := [''io'']\<rparr>)"
    by (simp add: demo_rwq_def mem_queue_def demo_memq_def)
  have v: "verdict demo_rwq ''io'' () = (Inr (Some (OtherErr ''boom'')), ())"
    by (simp add: verdict_def demo_rwq_def)
  have i: "mem_pend demo_memq = {''io''}" "wq_NumRequeues (rwq_queue demo_rwq) ''io'' demo_memq = 0"
    by (simp_all add: mem_pend_def demo_memq_def demo_rwq_def mem_queue_def mq_count_def)
  show ?thesis using processNextItem_contract [OF l g, of "()"] v i by (auto simp: Let_def)
qed

text \<open>C27: a worker without outside events always comes to rest. Whatever errors the controller's function
  returns, as long as it does not panic and keeps an invariant \<open>I\<close> of its state, after at most the sum of the attempts left to the pending keys (six
  for a fresh key) the queue is empty, nothing is left marked as being processed, and every key that was
  pending has been handed out at least once.\<close>

theorem worker_drains:
  assumes "draining_queue (rwq_queue rwq) pend busy" and "busy q = {}"
    and "\<And>k s. I s \<Longrightarrow> \<exists>e s1. verdict rwq k s = (Inr e, s1) \<and> I s1" and "I s"
  shows "\<exists>n q' s'. n \<le> (\<Sum>k \<in> pend q. attempts_left (wq_NumRequeues (rwq_queue rwq) k q)) \<and>
    runWorker n rwq q s = (Inr True, q', s') \<and> pend q' = {} \<and> busy q' = {} \<and> I s' \<and>
    (\<forall>k \<in> pend q. \<exists>m<n. \<exists>q1 s1 q2. runWorker m rwq q s = (Inr True, q1, s1) \<and>
       wq_Get (rwq_queue rwq) q1 = ((k, False), q2))"
  using draining_queue.drains [OF assms(1) refl assms(3,2,4)]
  unfolding draining_queue.budget_def [OF assms(1)] draining_queue.processed_at_def [OF assms(1)] .

theorem worker_drains_witness:
  "\<exists>n q' s'. n \<le> 6 \<and> runWorker n demo_rwq demo_memq () = (Inr True, q', s') \<and> mem_pend q' = {}"
proof -
  have l: "draining_queue (rwq_queue demo_rwq) mem_pend mem_busy"
    using mem_dq.draining_queue_axioms by (simp add: demo_rwq_def)
  have b: "mem_busy demo_memq = {}" by (simp add: mem_busy_def demo_memq_def)
  have v: "\<exists>e s1. verdict demo_rwq k s = (Inr e, s1)" for k s by (simp add: verdict_def demo_rwq_def)
  have "(\<Sum>k \<in> mem_pend demo_memq. attempts_left (wq_NumRequeues (rwq_queue demo_rwq) k demo_memq)) = 6"
    by (simp add: mem_pend_def demo_memq_def demo_rwq_def mem_queue_def mq_count_def attempts_left_def)
  then show ?thesis using worker_drains [OF l b, of "\<lambda>s. True" "()"] v by auto
qed

end
