(* ===== verification/NodeAssignment.thy ===== *)
theory NodeAssignment
  imports NodeFrame Queue
begin

text \<open>
  \<^verbatim>\<open>pkg/controller/nodeassignment/manager.go\<close> and \<^verbatim>\<open>controller.go\<close>: the reconciliation of a group
  with its finalizer, the event handlers that queue groups, and the main theorems about them: a
  reconciliation gives every assignment the nodes it asks for, a deletion removes every trace of the
  group, and nothing that does not belong to the group is ever changed.
\<close>

section \<open>The manager\<close>

definition nagFinalizer :: string where "nagFinalizer = ''nag.finalizer.kube-valet.io''"

definition set_Finalizers :: "nag \<Rightarrow> string list \<Rightarrow> nag" where
  "set_Finalizers g fs = g\<lparr>nag_meta := (nag_meta g)\<lparr>om_Finalizers := fs\<rparr>\<rparr>"

abbreviation nag_Finalizers :: "nag \<Rightarrow> string list" where
  "nag_Finalizers g \<equiv> om_Finalizers (nag_meta g)"

text \<open>The retried function of \<^verbatim>\<open>AddFinalizer\<close>: an error of the read is logged, and the update is sent
  all the same.\<close>

definition addFinalizer_attempt :: "('s, 'd, 'p) kube \<Rightarrow> string \<Rightarrow> 's \<Rightarrow> goerr option \<times> 's" where
  "addFinalizer_attempt K name s =
     (case k_nagsGet K name s of
        ((result, getErr), s1) \<Rightarrow>
          k_nagsUpdate K (set_Finalizers result (nag_Finalizers result @ [nagFinalizer])) s1)"

definition AddFinalizer :: "('s, 'd, 'p) kube \<Rightarrow> nag \<Rightarrow> 's \<Rightarrow> (bool \<times> goerr option) \<times> 's" where
  "AddFinalizer K nag s =
     (if any_in (\<lambda>f. f = nagFinalizer) (nag_Finalizers nag) then ((False, None), s)
      else (case k_retry K (addFinalizer_attempt K (nag_Name nag)) s of
              (Some retryErr, s1) \<Rightarrow> ((False, Some retryErr), s1)
            | (None, s1) \<Rightarrow> ((True, None), s1)))"

definition removeFinalizer_attempt :: "('s, 'd, 'p) kube \<Rightarrow> string \<Rightarrow> 's \<Rightarrow> goerr option \<times> 's" where
  "removeFinalizer_attempt K name s =
     (case k_nagsGet K name s of
        ((result, getErr), s1) \<Rightarrow>
          k_nagsUpdate K (set_Finalizers result
            (FilterValues (nag_Finalizers result) (\<lambda>v. if nagFinalizer = v then False else True))) s1)"

definition RemoveFinalizer :: "('s, 'd, 'p) kube \<Rightarrow> nag \<Rightarrow> 's \<Rightarrow> goerr option \<times> 's" where
  "RemoveFinalizer K nag s = k_retry K (removeFinalizer_attempt K (nag_Name nag)) s"

text \<open>The group is a pointer into the cache: the result includes the group as the reconciliation
  leaves it there.\<close>

definition ReconcileNag :: "('s, 'd, 'p) kube \<Rightarrow> nag \<Rightarrow> 's \<Rightarrow> (gopanic + goerr option) \<times> nag \<times> 's" where
  "ReconcileNag K nag s =
     (case NewWriterContext K nag s of
        (Inl p, wc, s1) \<Rightarrow> (Inl p, wc_Nag wc, s1)
      | (Inr _, wc, s1) \<Rightarrow>
          if om_DeletionTimestamp (nag_meta (wc_Nag wc)) = None then
            (case AddFinalizer K (wc_Nag wc) s1 of
               ((added, Some err), s2) \<Rightarrow> (Inr (Some err), wc_Nag wc, s2)
             | ((added, None), s2) \<Rightarrow>
                 if \<not> added
                 then (case Reconcile K wc s2 of (r, wc3, s3) \<Rightarrow> (r, wc_Nag wc3, s3))
                 else (Inr None, wc_Nag wc, s2))
          else
            (case UnassignAllNodes K wc s1 of
               (Inl p, wc2, s2) \<Rightarrow> (Inl p, wc_Nag wc2, s2)
             | (Inr _, wc2, s2) \<Rightarrow>
                 (case RemoveFinalizer K (wc_Nag wc2) s2 of (_, s3) \<Rightarrow> (Inr None, wc_Nag wc2, s3))))"

section \<open>The controller\<close>

text \<open>The handlers act on the queue \<open>'q\<close>; \<open>nac_nags\<close> is what \<^verbatim>\<open>nagIndex.List()\<close> returns, and the
  upstream key function is a field.\<close>

record 'q nagController =
  nac_queue :: "'q workqueue"
  nac_keyFunc :: "nag \<Rightarrow> goerr + string"
  nac_nags :: "nag list"

definition nac_addItem :: "'q nagController \<Rightarrow> nag \<Rightarrow> 'q \<Rightarrow> 'q" where
  "nac_addItem c nag q = AddItem (nac_keyFunc c) (nac_queue c) nag q"

definition nac_queueAllNags :: "'q nagController \<Rightarrow> 'q \<Rightarrow> 'q" where
  "nac_queueAllNags c q = fold (nac_addItem c) (nac_nags c) q"

definition nac_OnAddNode :: "'q nagController \<Rightarrow> node \<Rightarrow> 'q \<Rightarrow> 'q" where
  "nac_OnAddNode c node q = nac_queueAllNags c q"

definition nac_OnUpdateNode :: "'q nagController \<Rightarrow> node \<Rightarrow> node \<Rightarrow> 'q \<Rightarrow> 'q" where
  "nac_OnUpdateNode c oldNode newNode q =
     (if NodeTargetingHasChanged oldNode newNode then nac_queueAllNags c q else q)"

definition nac_getNodeNags :: "'q nagController \<Rightarrow> node \<Rightarrow> nag list" where
  "nac_getNodeNags c node = filter (\<lambda>nag. TargetsNode nag node) (nac_nags c)"

definition nac_OnAddNag :: "'q nagController \<Rightarrow> nag \<Rightarrow> 'q \<Rightarrow> 'q" where
  "nac_OnAddNag c nag q = nac_addItem c nag q"

definition nac_OnDeleteNode :: "'q nagController \<Rightarrow> node \<Rightarrow> 'q \<Rightarrow> 'q" where
  "nac_OnDeleteNode c node q = fold (nac_OnAddNag c) (nac_getNodeNags c node) q"

definition nac_OnUpdateNag :: "'q nagController \<Rightarrow> nag \<Rightarrow> nag \<Rightarrow> 'q \<Rightarrow> 'q" where
  "nac_OnUpdateNag c oldNag newNag q =
     (if om_ResourceVersion (nag_meta oldNag) \<noteq> om_ResourceVersion (nag_meta newNag) \<or>
         om_UID (nag_meta oldNag) \<noteq> om_UID (nag_meta newNag)
      then nac_addItem c newNag q else q)"

definition nac_OnDeleteNag :: "'q nagController \<Rightarrow> nag \<Rightarrow> 'q \<Rightarrow> 'q" where
  "nac_OnDeleteNag c nag q = nac_addItem c nag q"

text \<open>\<^verbatim>\<open>Run\<close> gives the queue the function that reconciles a group. The group is the pointer the cache holds, not
  a copy: what the reconciliation writes into it stays in the cache, under the group's key. The state of a worker
  is therefore the server and the cache, in which \<^verbatim>\<open>GetByKey\<close> looks a key up.\<close>

type_synonym nag_cache = "string \<rightharpoonup> nag"

definition cache_put :: "(nag \<Rightarrow> goerr + string) \<Rightarrow> nag \<Rightarrow> nag_cache \<Rightarrow> nag_cache" where
  "cache_put keyFunc nag C = (case keyFunc nag of Inl err \<Rightarrow> C | Inr key \<Rightarrow> C(key \<mapsto> nag))"

definition nac_worker :: "'q nagController \<Rightarrow> ('s, 'd, 'p) kube \<Rightarrow> ('q, nag, 's \<times> nag_cache) retryingWorkQueue" where
  "nac_worker c K =
     \<lparr>rwq_queue = nac_queue c, rwq_indexer = Some (\<lambda>(s, C) key. Inr (C key)),
      rwq_businessLogicFunc = (\<lambda>nag (s, C). case ReconcileNag K nag s of
        (r, nag', s') \<Rightarrow> (r, (s', cache_put (nac_keyFunc c) nag' C)))\<rparr>"

section \<open>Retries leave the nodes alone\<close>

lemma retry_run_keeps:
  "retry_run f s r s' \<Longrightarrow> (\<And>s. v (snd (f s)) = v s) \<Longrightarrow> v s' = v s"
  by (induction f s r s' rule: retry_run.induct) (metis snd_conv)+

context cluster_api
begin

lemma attempts_view [simp]:
  "view (snd (addFinalizer_attempt K nm s)) = view s"
  "view (snd (removeFinalizer_attempt K nm s)) = view s"
proof -
  obtain g e s1 where g: "k_nagsGet K nm s = ((g, e), s1)" by (metis prod.exhaust)
  then have s1: "s1 = s" using nag_get_ok nag_get_err by (cases e) blast+
  show "view (snd (addFinalizer_attempt K nm s)) = view s"
    "view (snd (removeFinalizer_attempt K nm s)) = view s"
    using nag_update_view [OF prod.collapse [symmetric]]
    by (simp_all add: addFinalizer_attempt_def removeFinalizer_attempt_def g s1)
qed

lemma finalizers_view:
  "view (snd (AddFinalizer K nag s)) = view s" "view (snd (RemoveFinalizer K nag s)) = view s"
proof -
  have r: "view (snd (k_retry K f s)) = view s" if "\<And>s. view (snd (f s)) = view s" for f
    by (rule retry_run_keeps [of f _ _ _ view, OF retry_law that])
  show "view (snd (AddFinalizer K nag s)) = view s"
    using r [of "addFinalizer_attempt K (nag_Name nag)"]
    by (auto simp: AddFinalizer_def split: prod.splits option.splits)
  show "view (snd (RemoveFinalizer K nag s)) = view s"
    by (simp add: RemoveFinalizer_def r)
qed

lemma ReconcileNag_ok:
  assumes "frame_ok (nag_Name nag) fv (view s)" and "ReconcileNag K nag s = (r, nag', s')"
  shows "frame_ok (nag_Name nag) fv (view s') \<and> nag_Name nag' = nag_Name nag"
proof -
  obtain r1 wc s1 where new: "NewWriterContext K nag s = (r1, wc, s1)" by (cases "NewWriterContext K nag s") auto
  have ok: "wc_ok (nag_Name nag) fv wc (view s1)" by (rule NewWriterContext_ok [OF assms(1) new])
  obtain ra s2 where a: "AddFinalizer K (wc_Nag wc) s1 = (ra, s2)" by (rule prod.exhaust)
  then have v2: "view s2 = view s1" using finalizers_view(1) by (metis snd_conv)
  obtain rr wc3 s3 where rec: "Reconcile K wc s2 = (rr, wc3, s3)" by (cases "Reconcile K wc s2") auto
  have ok3: "wc_ok (nag_Name nag) fv wc3 (view s3)" using Reconcile_ok [OF _ rec] ok v2 by simp
  obtain ru wc4 s4 where u: "UnassignAllNodes K wc s1 = (ru, wc4, s4)" by (cases "UnassignAllNodes K wc s1") auto
  have ok4: "wc_ok (nag_Name nag) fv wc4 (view s4)" by (rule UnassignAllNodes_ok [OF ok u])
  obtain rf s5 where f: "RemoveFinalizer K (wc_Nag wc4) s4 = (rf, s5)" by force
  then have v5: "view s5 = view s4" using finalizers_view(2) by (metis snd_conv)
  show ?thesis
    using assms(2) new a rec u f ok ok3 ok4 v2 v5
    by (auto simp: ReconcileNag_def wc_ok_def split: sum.splits if_splits prod.splits option.splits)
qed

end

section \<open>Finalizers\<close>

lemma find_nag_name: "find_nag nm gs = Some g \<Longrightarrow> nag_Name g = nm"
  by (auto simp: find_nag_def find_Some_iff)

lemma set_Finalizers_simps [simp]:
  "nag_Name (set_Finalizers g fs) = nag_Name g" "nag_Finalizers (set_Finalizers g fs) = fs"
  by (simp_all add: set_Finalizers_def)

text \<open>What a successful update of the finalizers of group \<open>nm\<close> did to the groups.\<close>

definition finalizers_updated ::
    "string \<Rightarrow> (string list \<Rightarrow> string list) \<Rightarrow> nag list \<Rightarrow> nag list \<Rightarrow> bool" where
  "finalizers_updated nm f gs gs' \<longleftrightarrow>
     (\<exists>g. find_nag nm gs = Some g \<and>
        (\<forall>x. find_nag nm gs' = Some x \<longrightarrow> nag_Finalizers x = f (nag_Finalizers g))) \<and>
     (\<forall>nm'. nm' \<noteq> nm \<longrightarrow> find_nag nm' gs' = find_nag nm' gs)"

context nag_api
begin

lemma finalizer_attempt:
  assumes "(case k_nagsGet K nm s of ((result, getErr), s1) \<Rightarrow>
      k_nagsUpdate K (set_Finalizers result (f (nag_Finalizers result))) s1) = (r, s')"
  shows "r = None \<Longrightarrow> finalizers_updated nm f (nagview s) (nagview s')"
    and "r = Some e \<Longrightarrow> nagview s' = nagview s"
proof -
  obtain g er s1 where g: "k_nagsGet K nm s = ((g, er), s1)" by (metis prod.exhaust)
  have u: "k_nagsUpdate K (set_Finalizers g (f (nag_Finalizers g))) s1 = (r, s')" using assms g by simp
  have s1: "s1 = s" using nag_get_ok nag_get_err g by (cases er) blast+
  show "nagview s' = nagview s" if "r = Some e" using nag_update_err u s1 that by blast
  assume r: "r = None"
  have "er = None"
  proof (cases er)
    case (Some x)
    then have "nag_Name g = []" using nag_get_zero g by blast
    then show ?thesis using nag_update_empty [of "set_Finalizers g (f (nag_Finalizers g))" s1] u r by simp
  qed
  then have fg: "find_nag nm (nagview s) = Some g" using nag_get_ok g by blast
  then have "nag_Name g = nm" by (rule find_nag_name)
  then show "finalizers_updated nm f (nagview s) (nagview s')"
    using nag_update_ok [of "set_Finalizers g (f (nag_Finalizers g))" s1 s'] u r fg s1
    by (simp add: finalizers_updated_def)
qed

lemma retried_attempt:
  assumes "k_retry K (\<lambda>s. case k_nagsGet K nm s of ((result, getErr), s1) \<Rightarrow>
      k_nagsUpdate K (set_Finalizers result (f (nag_Finalizers result))) s1) s = (None, s')"
  shows "finalizers_updated nm f (nagview s) (nagview s')"
proof -
  let ?a = "\<lambda>s. case k_nagsGet K nm s of ((result, getErr), s1) \<Rightarrow>
      k_nagsUpdate K (set_Finalizers result (f (nag_Finalizers result))) s1"
  have run: "retry_run ?a s None s'" using retry_law [of ?a s] assms by simp
  have "\<exists>s0. nagview s0 = nagview s \<and> ?a s0 = (None, s')"
  proof (rule retry_success [OF run])
    fix s1 s2 assume "nagview s1 = nagview s" "?a s1 = (Some Conflict, s2)"
    then show "nagview s2 = nagview s" using finalizer_attempt(2) [OF _ refl] by simp
  qed simp
  then obtain s0 where s0: "nagview s0 = nagview s" "?a s0 = (None, s')" by blast
  show ?thesis using finalizer_attempt(1) [OF s0(2) refl] s0(1) by simp
qed

lemma AddFinalizer_effect:
  assumes "AddFinalizer K nag s = ((True, e), s')"
  shows "e = None \<and> nagFinalizer \<notin> set (nag_Finalizers nag) \<and>
    finalizers_updated (nag_Name nag) (\<lambda>fs. fs @ [nagFinalizer]) (nagview s) (nagview s')"
proof -
  have "k_retry K (addFinalizer_attempt K (nag_Name nag)) s = (None, s')"
    and r: "e = None" "nagFinalizer \<notin> set (nag_Finalizers nag)"
    using assms by (auto simp: AddFinalizer_def split: if_splits prod.splits option.splits)
  then show ?thesis
    using retried_attempt [where nm = "nag_Name nag" and f = "\<lambda>fs. fs @ [nagFinalizer]"]
    unfolding addFinalizer_attempt_def by blast
qed

lemma RemoveFinalizer_effect:
  assumes "RemoveFinalizer K nag s = (None, s')"
  shows "finalizers_updated (nag_Name nag) (filter (\<lambda>f. f \<noteq> nagFinalizer)) (nagview s) (nagview s')"
proof -
  have f: "(\<lambda>v. if nagFinalizer = v then False else True) = (\<lambda>f. f \<noteq> nagFinalizer)" by auto
  show ?thesis
    using retried_attempt [where nm = "nag_Name nag" and f = "filter (\<lambda>f. f \<noteq> nagFinalizer)"] assms
    unfolding RemoveFinalizer_def removeFinalizer_attempt_def FilterValues_filter f by blast
qed

end

section \<open>Deletion\<close>

definition clean_of :: "nag \<Rightarrow> node \<Rightarrow> bool" where
  "clean_of nag n \<longleftrightarrow>
     mget (node_Labels n) (assign_key (nag_Name nag)) = None \<and>
     mget (node_Labels n) (packleft_key (nag_Name nag)) = None \<and>
     (\<forall>t \<in> set (n_Taints n). \<not> group_taint nag t)"

lemma clean_merge:
  assumes "match_taint_law match" and "wf_map (node_Labels n)"
  shows "clean_of nag (merge_node n (snd (Unassign match nag n)) n)"
proof -
  have w: "wf_map (node_Labels (snd (Unassign match nag n)))" using assms(2) by (rule wf_map_Unassign)
  have "n_Taints (merge_node n (snd (Unassign match nag n)) n) = filter (\<lambda>t. \<not> group_taint nag t) (n_Taints n)"
    by (simp add: Unassign_taints [OF assms(1)])
  then show ?thesis
    by (simp add: clean_of_def merge_labels_fresh [OF assms(2) w] Unassign_label group_key_def)
qed

context reliable_node_api
begin

lemma unassignAll_loop_clean:
  assumes "wf_view (view s)" and "distinct (names ns)"
    and "\<forall>n \<in> set ns. wf_node n \<and> find (\<lambda>m. node_Name m = node_Name n) (view s) = Some n"
  shows "\<exists>wc' s'. unassignAll_loop K wc ns s = (Inr None, wc', s') \<and> wc_Nag wc' = wc_Nag wc \<and>
    wf_view (view s') \<and> names (view s') = names (view s) \<and>
    (\<forall>nm. case find (\<lambda>m. node_Name m = nm) (view s') of
       None \<Rightarrow> True
     | Some c \<Rightarrow> if nm \<in> set (names ns) then clean_of (wc_Nag wc) c
                 else find (\<lambda>m. node_Name m = nm) (view s) = Some c)"
  using assms
proof (induction ns arbitrary: wc s)
  case Nil
  then show ?case by (auto simp: names_def split: option.splits)
next
  case (Cons n ns)
  have n: "wf_node n" "find (\<lambda>m. node_Name m = node_Name n) (view s) = Some n" using Cons.prems(3) by auto
  then have nm: "node_Name n \<in> set (names (view s))" by (auto simp: find_Some_iff names_def)
  let ?n' = "snd (Unassign (k_match K) (wc_Nag wc) n)"
  let ?wc1 = "wc\<lparr>wc_UnassignedNodeNames := set_del (node_Name n) (wc_UnassignedNodeNames wc)\<rparr>"
  obtain s1 where u: "UpdateNodeAssignment K wc n None s = (Inr (None, None), ?wc1, s1)"
    and v: "view s1 = update_view (node_Name n) (merge_node n ?n') (view s)"
    using update_unassign [OF nm n(1), of wc] by auto
  have wf1: "wf_view (view s1)" unfolding v by (rule wf_view_update [OF Cons.prems(1)])
  have ne: "node_Name m \<noteq> node_Name n" if "m \<in> set ns" for m
    using Cons.prems(2) names_mem [OF that] by (auto simp: names_def)
  have f1: "find (\<lambda>m. node_Name m = x) (view s1) =
      (if x = node_Name n then Some (merge_node n ?n' n) else find (\<lambda>m. node_Name m = x) (view s))" for x
    using n(2) by (simp add: v find_update_view)
  have pre: "\<forall>m \<in> set ns. wf_node m \<and> find (\<lambda>c. node_Name c = node_Name m) (view s1) = Some m"
    using Cons.prems(3) ne by (simp add: f1)
  have dist: "distinct (names ns)" using Cons.prems(2) by (simp add: names_def)
  obtain wc' s' where ih: "unassignAll_loop K ?wc1 ns s1 = (Inr None, wc', s')" "wc_Nag wc' = wc_Nag ?wc1"
    "wf_view (view s')" "names (view s') = names (view s1)"
    and cl: "\<forall>nm. case find (\<lambda>m. node_Name m = nm) (view s') of
       None \<Rightarrow> True
     | Some c \<Rightarrow> if nm \<in> set (names ns) then clean_of (wc_Nag ?wc1) c
                 else find (\<lambda>m. node_Name m = nm) (view s1) = Some c"
    using Cons.IH [OF wf1 dist pre, of ?wc1] by blast
  have c0: "clean_of (wc_Nag wc) (merge_node n ?n' n)"
    using clean_merge [OF match_law] n(1) by (simp add: wf_node_def)
  have "\<forall>nm. case find (\<lambda>m. node_Name m = nm) (view s') of
       None \<Rightarrow> True
     | Some c \<Rightarrow> if nm \<in> set (names (n # ns)) then clean_of (wc_Nag wc) c
                 else find (\<lambda>m. node_Name m = nm) (view s) = Some c"
    using cl c0 by (auto simp: f1 names_def split: option.splits if_splits)
  moreover have "names (view s1) = names (view s)" by (simp add: v)
  ultimately show ?case using ih u by auto
qed

lemma UnassignAllNodes_clean:
  assumes "wf_view (view s)"
  shows "\<exists>wc' s'. UnassignAllNodes K wc s = (Inr None, wc', s') \<and> wc_Nag wc' = wc_Nag wc \<and>
    wf_view (view s') \<and> names (view s') = names (view s) \<and> (\<forall>c \<in> set (view s'). clean_of (wc_Nag wc) c)"
proof -
  have d: "distinct (names (view s))" using assms by (simp add: wf_view_def)
  have pre: "\<forall>n \<in> set (view s). wf_node n \<and> find (\<lambda>m. node_Name m = node_Name n) (view s) = Some n"
    using assms find_Some_iff_names [OF d] by (auto simp: wf_view_def)
  obtain wc' s' where l: "unassignAll_loop K wc (view s) s = (Inr None, wc', s')" "wc_Nag wc' = wc_Nag wc"
    "wf_view (view s')" "names (view s') = names (view s)"
    and cl: "\<forall>nm. case find (\<lambda>m. node_Name m = nm) (view s') of None \<Rightarrow> True
     | Some c \<Rightarrow> if nm \<in> set (names (view s)) then clean_of (wc_Nag wc) c
                 else find (\<lambda>m. node_Name m = nm) (view s) = Some c"
    using unassignAll_loop_clean [OF assms d pre, of wc] by blast
  have "clean_of (wc_Nag wc) c" if c: "c \<in> set (view s')" for c
  proof -
    have "find (\<lambda>m. node_Name m = node_Name c) (view s') = Some c"
      using find_Some_iff_names [of "view s'" "node_Name c" c] l(3) c by (simp add: wf_view_def)
    moreover have "node_Name c \<in> set (names (view s))" using names_mem [OF c] l(4) by simp
    ultimately show ?thesis using cl by (auto dest: spec [of _ "node_Name c"])
  qed
  then show ?thesis using l by (simp add: UnassignAllNodes_def list_view)
qed

end


section \<open>The main theorems\<close>

text \<open>A reconciliation of a group that has its finalizer and is not being deleted is \<^verbatim>\<open>Update\<close> followed by
  \<^verbatim>\<open>Reconcile\<close>.\<close>

lemma ReconcileNag_live:
  assumes "om_DeletionTimestamp (nag_meta nag) = None" and "nagFinalizer \<in> set (nag_Finalizers nag)"
    and "NewWriterContext K nag s = (Inr (), wc, s1)" and "wc_Nag wc = nag"
    and "Reconcile K wc s1 = (r, wc', s')"
  shows "ReconcileNag K nag s = (r, wc_Nag wc', s')"
  using assms by (simp add: ReconcileNag_def AddFinalizer_def)

definition live_group :: "nag \<Rightarrow> bool" where
  "live_group nag \<longleftrightarrow> om_DeletionTimestamp (nag_meta nag) = None \<and> nagFinalizer \<in> set (nag_Finalizers nag)"

lemma ReconcileNag_reliable:
  assumes "reliable_node_api K view" and "wf_view (view s)" and "sane_group nag" and "live_group nag"
    and "int (length (view s)) < 2 ^ 63"
  shows "\<exists>nag' s'. ReconcileNag K nag s = (Inr None, nag', s') \<and> names (view s') = names (view s) \<and> wf_view (view s') \<and>
    outcome (k_match K) nag (view s) (view s') = planned nag (targeted (k_match K) nag (view s)) \<and>
    satisfied nag (outcome (k_match K) nag (view s) (view s')) \<and>
    (\<forall>nm. nm \<notin> set (names (targeted (k_match K) nag (view s))) \<longrightarrow> label_at (nag_Name nag) (view s') nm = None)"
proof -
  obtain wc s1 wc' s' where g: "NewWriterContext K nag s = (Inr (), wc, s1)" "wc_Nag wc = nag"
    "Reconcile K wc s1 = (Inr None, wc', s')" and rest: "names (view s') = names (view s)" "wf_view (view s')"
    "outcome (k_match K) nag (view s) (view s') = planned nag (targeted (k_match K) nag (view s))"
    "satisfied nag (outcome (k_match K) nag (view s) (view s'))"
    "\<forall>nm. nm \<notin> set (names (targeted (k_match K) nag (view s))) \<longrightarrow> label_at (nag_Name nag) (view s') nm = None"
    using reliable_node_api.group_reconciled [OF assms(1,2,3,5)] by blast
  have "ReconcileNag K nag s = (Inr None, wc_Nag wc', s')"
    using ReconcileNag_live [OF _ _ g] assms(4) by (simp add: live_group_def)
  then show ?thesis using rest by blast
qed

text \<open>C1: the main contract. On a server that does not fail, one reconciliation of a live group ends
  without an error, and afterwards every assignment of the group is on exactly the number of targeted
  nodes it asks for (the larger of \<^verbatim>\<open>numDesired\<close> and the rounded-down percentage, which is at least
  one), unless the nodes ran out, in which case no node is left free or on the default assignment.
  Every targeted node is on an assignment of the group, or free if there is no default; and no
  untargeted node carries a label of the group.\<close>

theorem ReconcileNag_reaches_desired:
  assumes "reliable_node_api K view" and "wf_view (view s)" and "sane_group nag" and "live_group nag"
    and "int (length (view s)) < 2 ^ 63"
  shows "\<exists>nag' s'. ReconcileNag K nag s = (Inr None, nag', s') \<and> names (view s') = names (view s) \<and>
    satisfied nag (outcome (k_match K) nag (view s) (view s')) \<and>
    (\<forall>nm. nm \<notin> set (names (targeted (k_match K) nag (view s))) \<longrightarrow> label_at (nag_Name nag) (view s') nm = None)"
  using ReconcileNag_reliable [OF assms] by blast

text \<open>C2: refinement. The labels a reconciliation leaves on the targeted nodes are those the abstract
  plan computes from the labels before, node by node.\<close>

theorem ReconcileNag_refines_plan:
  assumes "reliable_node_api K view" and "wf_view (view s)" and "sane_group nag" and "live_group nag"
    and "int (length (view s)) < 2 ^ 63"
  shows "map (\<lambda>n. label_at (nag_Name nag) (view (snd (snd (ReconcileNag K nag s)))) (node_Name n))
      (targeted (k_match K) nag (view s)) = planned nag (targeted (k_match K) nag (view s))"
  using ReconcileNag_reliable [OF assms] by (auto simp: outcome_def)

text \<open>C5: no churn. If every assignment already has exactly the nodes it asks for and the default has
  the rest, a reconciliation leaves the assignment of every targeted node as it was.\<close>

theorem ReconcileNag_stable:
  assumes "reliable_node_api K view" and "wf_view (view s)" and "sane_group nag" and "live_group nag"
    and "int (length (view s)) < 2 ^ 63" and "balanced nag (targeted (k_match K) nag (view s))"
  shows "map (\<lambda>n. label_at (nag_Name nag) (view (snd (snd (ReconcileNag K nag s)))) (node_Name n))
      (targeted (k_match K) nag (view s)) = map (GetAssignment nag) (targeted (k_match K) nag (view s))"
  using ReconcileNag_reliable [OF assms(1-5)] planned_balanced [OF assms(3,6)] by (auto simp: outcome_def)

text \<open>C3: whatever the server answers, and however the reconciliation ends (an error, a panic, in the
  middle of a list), no label but the group's two and no taint under another key has changed on any
  node, and no node has appeared or disappeared.\<close>

theorem ReconcileNag_touches_only_its_keys:
  assumes "cluster_api K view nagview" and "distinct (names (view s))" and "wf_labels (view s)"
    and "ReconcileNag K nag s = (r, nag', s')"
  shows "fview (nag_Name nag) (view s') = fview (nag_Name nag) (view s)"
proof -
  have "frame_ok (nag_Name nag) (fview (nag_Name nag) (view s)) (view s)"
    using assms(2,3) by (simp add: frame_ok_def)
  from cluster_api.ReconcileNag_ok [OF assms(1) this assms(4)] show ?thesis by (simp add: frame_ok_def)
qed

lemma ReconcileNag_dying:
  assumes "cluster_api K view nagview" and "reliable_node_api K view" and "wf_view (view s)"
    and "om_DeletionTimestamp (nag_meta nag) \<noteq> None"
  shows "\<exists>nag' s'. ReconcileNag K nag s = (Inr None, nag', s') \<and> names (view s') = names (view s) \<and> wf_view (view s') \<and>
    (\<forall>n \<in> set (view s'). clean_of nag n)"
proof -
  obtain wc s1 where new: "NewWriterContext K nag s = (Inr (), wc, s1)" "wc_Nag wc = nag"
    "wf_view (view s1)" "names (view s1) = names (view s)"
    using reliable_node_api.NewWriterContext_total [OF assms(2,3)] by blast
  obtain wc2 s2 where u: "UnassignAllNodes K wc s1 = (Inr None, wc2, s2)" "wc_Nag wc2 = nag"
    "names (view s2) = names (view s1)" "wf_view (view s2)" "\<forall>c \<in> set (view s2). clean_of nag c"
    using reliable_node_api.UnassignAllNodes_clean [OF assms(2) new(3), of wc] new(2) by auto
  obtain e s3 where f: "RemoveFinalizer K nag s2 = (e, s3)" by (cases "RemoveFinalizer K nag s2") auto
  then have "view s3 = view s2" using cluster_api.finalizers_view(2) [OF assms(1), of nag s2] by simp
  then show ?thesis
    using new u f assms(4) by (auto simp: ReconcileNag_def)
qed

text \<open>C4: reconciling a group that is being deleted removes every trace of it: on a server that does not
  fail no node keeps a label or a taint of the group, whether or not the group still targets it.\<close>

theorem ReconcileNag_deletion_cleans:
  assumes "cluster_api K view nagview" and "reliable_node_api K view" and "wf_view (view s)"
    and "om_DeletionTimestamp (nag_meta nag) \<noteq> None"
  shows "\<exists>nag' s'. ReconcileNag K nag s = (Inr None, nag', s') \<and> names (view s') = names (view s) \<and>
    (\<forall>n \<in> set (view s'). clean_of nag n)"
  using ReconcileNag_dying [OF assms] by blast

text \<open>The finalizer protocol. When \<^verbatim>\<open>AddFinalizer\<close> reports that it added the finalizer, and when
  \<^verbatim>\<open>RemoveFinalizer\<close> reports success, the stored group's finalizers are those it had with the
  controller's one appended, or with all its occurrences gone; no other group has changed, and a read
  that failed never led to a successful update.\<close>

theorem finalizer_protocol:
  assumes "nag_api K nagview"
  shows "(\<forall>e s'. AddFinalizer K nag s = ((True, e), s') \<longrightarrow> e = None \<and>
      finalizers_updated (nag_Name nag) (\<lambda>fs. fs @ [nagFinalizer]) (nagview s) (nagview s')) \<and>
    (\<forall>s'. RemoveFinalizer K nag s = (None, s') \<longrightarrow>
      finalizers_updated (nag_Name nag) (filter (\<lambda>f. f \<noteq> nagFinalizer)) (nagview s) (nagview s'))"
  using nag_api.AddFinalizer_effect [OF assms] nag_api.RemoveFinalizer_effect [OF assms] by blast


section \<open>Witnesses\<close>

definition demo_live :: nag where
  "demo_live = (demo_nag [demo_assignment ''fast'' ''LabelOnly''] (Some (demo_assignment ''rest'' '''')))
     \<lparr>nag_meta := (demo_meta ''io'' None)\<lparr>om_Finalizers := [nagFinalizer]\<rparr>\<rparr>"

definition demo_dying :: nag where
  "demo_dying = demo_live\<lparr>nag_meta := (nag_meta demo_live)\<lparr>om_DeletionTimestamp := Some 1\<rparr>\<rparr>"

definition demo_mem :: mem where
  "demo_mem = \<lparr>mem_nodes = [demo_node ''n1'' [] [], demo_node ''n2'' [(assign_key ''io'', ''old'')] []],
     mem_nags = [demo_live]\<rparr>"

lemma demo_live_simps [simp]:
  "nag_Name demo_live = ''io''" "nag_Assignments demo_live = [demo_assignment ''fast'' ''LabelOnly'']"
  "nag_Default demo_live = Some (demo_assignment ''rest'' '''')" "nag_Finalizers demo_live = [nagFinalizer]"
  "om_DeletionTimestamp (nag_meta demo_live) = None" "nag_TargetLabels demo_live = []"
  by (simp_all add: demo_live_def demo_defs)

lemma demo_group_ok: "sane_group demo_live" "live_group demo_live"
  by (simp_all add: sane_group_def live_group_def default_name_def known_mode_cases mode_defs
      fits64_def demo_assignment_def)

lemma demo_mem_ok: "wf_view (mem_nodes demo_mem)" "int (length (mem_nodes demo_mem)) < 2 ^ 63"
  by (simp_all add: demo_mem_def wf_view_def wf_node_def wf_map_def names_def demo_defs)

theorem ReconcileNag_reaches_desired_witness:
  "\<exists>nag' s'. ReconcileNag mem_kube demo_live demo_mem = (Inr None, nag', s') \<and>
    satisfied demo_live (outcome match_ref demo_live (mem_nodes demo_mem) (mem_nodes s'))"
  using ReconcileNag_reaches_desired [OF mem_reliable.reliable_node_api_axioms demo_mem_ok(1)
      demo_group_ok demo_mem_ok(2)] by auto

theorem ReconcileNag_refines_plan_witness:
  "map (\<lambda>n. label_at ''io'' (mem_nodes (snd (snd (ReconcileNag mem_kube demo_live demo_mem)))) (node_Name n))
     (targeted match_ref demo_live (mem_nodes demo_mem)) = planned demo_live (targeted match_ref demo_live (mem_nodes demo_mem))"
  using ReconcileNag_refines_plan [OF mem_reliable.reliable_node_api_axioms demo_mem_ok(1)
      demo_group_ok demo_mem_ok(2)] by simp

text \<open>A balanced group: one node on \<^verbatim>\<open>fast\<close>, the other on the default.\<close>

definition demo_balanced :: mem where
  "demo_balanced = \<lparr>mem_nodes = [demo_node ''n1'' [(assign_key ''io'', ''fast'')] [],
     demo_node ''n2'' [(assign_key ''io'', ''rest'')] []], mem_nags = [demo_live]\<rparr>"

lemma targeted_balanced:
  "targeted match_ref demo_live (mem_nodes demo_balanced) = mem_nodes demo_balanced"
  by (simp add: targeted_def demo_balanced_def strip_def GetAssignment_def known_names_def default_name_def
      TargetsNode_def demo_node_def demo_meta_def demo_assignment_def)

lemma zero_percent: "percent_of (int n) 0 = 0"
  by (simp add: percent_of_def round_sig_def int_of_float_def trunc_rat_def fits64_def)

theorem ReconcileNag_stable_witness:
  "map (\<lambda>n. label_at ''io'' (mem_nodes (snd (snd (ReconcileNag mem_kube demo_live demo_balanced)))) (node_Name n))
     (targeted match_ref demo_live (mem_nodes demo_balanced)) = [Some ''fast'', Some ''rest'']"
proof -
  have wf: "wf_view (mem_nodes demo_balanced)" "int (length (mem_nodes demo_balanced)) < 2 ^ 63"
    by (simp_all add: demo_balanced_def wf_view_def wf_node_def wf_map_def names_def demo_defs)
  have asg: "map (GetAssignment demo_live) (mem_nodes demo_balanced) = [Some ''fast'', Some ''rest'']"
    by (simp add: demo_balanced_def GetAssignment_def demo_node_def demo_meta_def)
  have "desired_nodes 2 (demo_assignment ''fast'' ''LabelOnly'') = 1"
    using zero_percent [of 2] by (simp add: desired_nodes_def demo_assignment_def)
  then have "balanced demo_live (targeted match_ref demo_live (mem_nodes demo_balanced))"
    unfolding targeted_balanced balanced_def asg
    by (simp add: demo_balanced_def demo_assignment_def default_name_def GetAssignment_def demo_node_def
        demo_meta_def numeral_2_eq_2)
  from ReconcileNag_stable [OF mem_reliable.reliable_node_api_axioms wf(1) demo_group_ok wf(2)] this
  show ?thesis by (simp add: targeted_balanced asg)
qed

theorem ReconcileNag_touches_only_its_keys_witness:
  "fview ''io'' (mem_nodes (snd (snd (ReconcileNag mem_kube demo_live demo_mem)))) = fview ''io'' (mem_nodes demo_mem)"
proof -
  have w: "distinct (names (mem_nodes demo_mem))" "wf_labels (mem_nodes demo_mem)"
    by (simp_all add: demo_mem_def wf_labels_def wf_map_def names_def demo_defs)
  obtain r g s' where r: "ReconcileNag mem_kube demo_live demo_mem = (r, g, s')" by (metis prod.exhaust)
  show ?thesis
    using ReconcileNag_touches_only_its_keys [OF mem_cluster.cluster_api_axioms w r] by (simp add: r)
qed

theorem ReconcileNag_deletion_cleans_witness:
  "\<exists>nag' s'. ReconcileNag mem_kube demo_dying demo_mem = (Inr None, nag', s') \<and>
    (\<forall>n \<in> set (mem_nodes s'). clean_of demo_dying n)"
proof -
  have "om_DeletionTimestamp (nag_meta demo_dying) \<noteq> None" by (simp add: demo_dying_def)
  from ReconcileNag_deletion_cleans [OF mem_cluster.cluster_api_axioms
      mem_reliable.reliable_node_api_axioms demo_mem_ok(1) this]
  show ?thesis by blast
qed

theorem finalizer_protocol_witness:
  "\<exists>s'. RemoveFinalizer mem_kube demo_live demo_mem = (None, s') \<and>
    finalizers_updated ''io'' (filter (\<lambda>f. f \<noteq> nagFinalizer)) (mem_nags demo_mem) (mem_nags s')"
proof -
  obtain e s' where r: "RemoveFinalizer mem_kube demo_live demo_mem = (e, s')"
    by (cases "RemoveFinalizer mem_kube demo_live demo_mem") auto
  then have "e = None"
    by (simp add: RemoveFinalizer_def mem_retry_def removeFinalizer_attempt_def mem_nagsGet_def find_nag_def
        demo_mem_def mem_nagsUpdate_def)
  then show ?thesis using finalizer_protocol [OF mem_nag.nag_api_axioms, of demo_live demo_mem] r by auto
qed


section \<open>Errors that are not reported\<close>

lemma UpdateNodeAssignment_Nag:
  "UpdateNodeAssignment K wc n na s = (r, wc', s') \<Longrightarrow> wc_Nag wc' = wc_Nag wc"
  by (auto simp: UpdateNodeAssignment_def split: sum.splits option.splits prod.splits)

lemma assignNode_loop_Nag:
  "assignNode_loop K wc n as s = (r, wc', s') \<Longrightarrow> wc_Nag wc' = wc_Nag wc"
proof (induction as)
  case (Cons a as)
  obtain ru wc2 s2 where u: "UpdateNodeAssignment K wc n (Some a) s = (ru, wc2, s2)"
    by (cases "UpdateNodeAssignment K wc n (Some a) s") auto
  then have "wc_Nag wc2 = wc_Nag wc" by (rule UpdateNodeAssignment_Nag)
  then show ?case using Cons u by (auto split: option.splits if_splits sum.splits)
qed simp

definition not_error :: "gopanic + goerr option \<Rightarrow> bool" where
  "not_error r \<longleftrightarrow> (\<forall>e. r \<noteq> Inr (Some e))"

lemma place_node_silent:
  assumes "nag_Default (wc_Nag wc) = None" and "place_node K wc n s = (r, wc', s')"
  shows "not_error r \<and> nag_Default (wc_Nag wc') = None"
proof -
  obtain ra wc1 s1 where a: "assignNode K wc n s = (ra, wc1, s1)" by (cases "assignNode K wc n s") auto
  then have "nag_Default (wc_Nag wc1) = None"
    using assms(1) assignNode_loop_Nag [of K wc n] by (simp add: assignNode_def)
  then show ?thesis
    using assms(2) a by (auto simp: place_node_def not_error_def split: sum.splits bool.splits if_splits)
qed

lemma reconcileNode_silent:
  assumes "nag_Default (wc_Nag wc) = None" and "reconcileNode K wc n s = (r, n', wc', s')"
  shows "not_error r \<and> nag_Default (wc_Nag wc') = None"
proof -
  have d: "nag_Default (wc_Nag (snd (unassign_in_memory K wc n ca))) = None" for ca
    using assms(1) by (simp add: unassign_in_memory_def)
  show ?thesis
  proof (cases "GetAssignment (wc_Nag wc) n")
    case None
    then have "place_node K wc n s = (r, wc', s')"
      using assms(2) by (auto simp: reconcileNode_def split: prod.splits)
    from place_node_silent [OF assms(1) this] show ?thesis .
  next
    case (Some ca)
    show ?thesis
    proof (cases "must_unassign wc ca")
      case True
      then have "place_node K (snd (unassign_in_memory K wc n ca)) (fst (unassign_in_memory K wc n ca)) s = (r, wc', s')"
        using assms(2) Some by (auto simp: reconcileNode_def split: prod.splits)
      from place_node_silent [OF d this] show ?thesis .
    next
      case False
      then show ?thesis using assms Some by (auto simp: reconcileNode_def not_error_def)
    qed
  qed
qed

lemma reconcile_loop_silent:
  "nag_Default (wc_Nag wc) = None \<Longrightarrow> reconcile_loop K wc ns s = (r, ns', wc', s') \<Longrightarrow> not_error r"
proof (induction ns arbitrary: wc s r ns' wc' s')
  case (Cons n ns)
  obtain r1 n1 wc1 s1 where n1: "reconcileNode K wc n s = (r1, n1, wc1, s1)"
    by (cases "reconcileNode K wc n s") auto
  obtain r2 ns2 wc2 s2 where l: "reconcile_loop K wc1 ns s1 = (r2, ns2, wc2, s2)"
    by (cases "reconcile_loop K wc1 ns s1") auto
  show ?case
    using reconcileNode_silent [OF Cons.prems(1) n1] Cons.IH [OF _ l] Cons.prems(2) n1 l
    by (auto simp: not_error_def split: sum.splits option.splits)
qed (auto simp: not_error_def)

lemma cleanup_loop_silent: "cleanup_loop K wc nms s = (r, wc', s') \<Longrightarrow> not_error r"
proof (induction nms arbitrary: wc s)
  case (Cons nm nms)
  obtain r1 wc1 s1 where u: "UnassignNodeByName K wc nm s = (r1, wc1, s1)"
    by (cases "UnassignNodeByName K wc nm s") auto
  show ?case using Cons.IH [of wc1 s1] Cons.prems u by (auto simp: not_error_def split: sum.splits)
qed (auto simp: not_error_def)

text \<open>C34: a group without a default assignment never reports a failed write. Whatever the server answers
  to the patches, \<^verbatim>\<open>Reconcile\<close> returns nil (or panics), so the queue does not retry the group: the error
  of \<^verbatim>\<open>assignNode\<close> comes with \<open>ok = False\<close>, and the code looks at it only when \<open>ok\<close> holds.\<close>

theorem Reconcile_hides_failed_writes:
  assumes "nag_Default (wc_Nag wc) = None" and "Reconcile K wc s = (Inr e, wc', s')"
  shows "e = None"
proof -
  obtain r1 ns wc1 s1 where l: "reconcile_loop K wc (wc_TargetedNodes wc) s = (r1, ns, wc1, s1)"
    by (cases "reconcile_loop K wc (wc_TargetedNodes wc) s") auto
  show ?thesis
    using assms(2) l reconcile_loop_silent [OF assms(1) l] cleanup_loop_silent
    by (fastforce simp: Reconcile_def not_error_def split: sum.splits option.splits)
qed

definition broken_kube :: "(mem, node, node \<times> node) kube" where
  "broken_kube = mem_kube\<lparr>k_nodesPatch := (\<lambda>nm p s. (Some (OtherErr ''unavailable''), s))\<rparr>"

definition demo_nodefault :: nag where
  "demo_nodefault = demo_live\<lparr>nag_Spec := (nag_Spec demo_live)\<lparr>nags_DefaultAssignment := None\<rparr>\<rparr>"

theorem Reconcile_hides_failed_writes_witness:
  "(case NewWriterContext broken_kube demo_nodefault demo_mem of (r, wc, s) \<Rightarrow>
      fst (Reconcile broken_kube wc s) = Inr None \<and>
      mem_nodes (snd (snd (Reconcile broken_kube wc s))) = mem_nodes demo_mem)"
proof -
  obtain r wc s where n: "NewWriterContext broken_kube demo_nodefault demo_mem = (r, wc, s)"
    by (cases "NewWriterContext broken_kube demo_nodefault demo_mem") auto
  have "nag_Default (wc_Nag (fst (snd (NewWriterContext broken_kube demo_nodefault demo_mem)))) = None \<and>
      isl (fst (Reconcile broken_kube (fst (snd (NewWriterContext broken_kube demo_nodefault demo_mem)))
        (snd (snd (NewWriterContext broken_kube demo_nodefault demo_mem))))) = False \<and>
      mem_nodes (snd (snd (Reconcile broken_kube (fst (snd (NewWriterContext broken_kube demo_nodefault demo_mem)))
        (snd (snd (NewWriterContext broken_kube demo_nodefault demo_mem)))))) = mem_nodes demo_mem"
    by code_simp
  then have d: "nag_Default (wc_Nag wc) = None" "\<not> isl (fst (Reconcile broken_kube wc s))"
    "mem_nodes (snd (snd (Reconcile broken_kube wc s))) = mem_nodes demo_mem" by (simp_all add: n)
  obtain e wc' s' where e: "Reconcile broken_kube wc s = (Inr e, wc', s')"
    using d(2) by (cases "Reconcile broken_kube wc s"; cases "fst (Reconcile broken_kube wc s)") auto
  show ?thesis using Reconcile_hides_failed_writes [OF d(1) e] d(3) e n by simp
qed

text \<open>On the same server a group that is being deleted loses its finalizer although none of its labels
  could be removed: the error of \<^verbatim>\<open>UnassignAllNodes\<close> is dropped, so the group disappears and its labels
  and taints stay on the nodes.\<close>

theorem deletion_forgets_failed_cleanup:
  "fst (ReconcileNag broken_kube demo_dying demo_mem) = Inr None \<and>
   map nag_Finalizers (mem_nags (snd (snd (ReconcileNag broken_kube demo_dying demo_mem)))) = [[]] \<and>
   map (\<lambda>n. mget (node_Labels n) (assign_key ''io''))
     (mem_nodes (snd (snd (ReconcileNag broken_kube demo_dying demo_mem)))) = [None, Some ''old'']"
  by code_simp

section \<open>Which groups an event queues\<close>

definition keys_of :: "'q nagController \<Rightarrow> nag list \<Rightarrow> string set" where
  "keys_of c gs = {k. \<exists>g \<in> set gs. nac_keyFunc c g = Inr k}"

lemma pend_add_items:
  assumes "rate_limited_queue (nac_queue c) pend busy"
  shows "pend (fold (nac_addItem c) gs q) = pend q \<union> keys_of c gs"
proof (induction gs arbitrary: q)
  case (Cons g gs)
  have "pend (nac_addItem c g q) = pend q \<union> keys_of c [g]"
    using rate_limited_queue.add(1) [OF assms] by (auto simp: nac_addItem_def AddItem_def keys_of_def split: sum.splits)
  then show ?case using Cons [of "nac_addItem c g q"] by (auto simp: keys_of_def)
qed (simp add: keys_of_def)

text \<open>The node events queue what they should. A new node queues every group, a changed node every
  group exactly if a label outside the program's own namespace changed, a deleted node the groups
  that targeted it; nothing is ever taken out of the queue.\<close>

theorem node_events_queue:
  assumes "rate_limited_queue (nac_queue c) pend busy"
  shows "pend (nac_OnAddNode c n q) = pend q \<union> keys_of c (nac_nags c) \<and>
    pend (nac_OnUpdateNode c n n' q) = pend q \<union>
      (if NodeTargetingHasChanged n n' then keys_of c (nac_nags c) else {}) \<and>
    pend (nac_OnDeleteNode c n q) = pend q \<union> keys_of c (filter (\<lambda>g. TargetsNode g n) (nac_nags c))"
proof -
  have "nac_OnAddNag c = nac_addItem c" by (simp add: fun_eq_iff nac_OnAddNag_def)
  then show ?thesis
    using pend_add_items [OF assms]
    by (simp add: nac_OnAddNode_def nac_OnUpdateNode_def nac_OnDeleteNode_def nac_queueAllNags_def
        nac_getNodeNags_def)
qed

lemma foreign_targetable:
  assumes "foreign g a = foreign g b"
  shows "targetable (node_Labels a) = targetable (node_Labels b)"
proof (rule targetable_agree)
  fix k assume "\<not> valet_key k"
  then have "\<not> own_key g k" by (auto simp: own_key_def valet_key_def)
  then show "mget (node_Labels a) k = mget (node_Labels b) k"
    using assms by (simp add: foreign_def fun_eq_iff) meson
qed

text \<open>C32: the controller does not trigger itself. Whatever a reconciliation does to a node, and however it
  ends, the update event for that node, from its state before to its state after, queues nothing.\<close>

theorem ReconcileNag_does_not_requeue:
  assumes "cluster_api K view nagview" and "distinct (names (view s))" and "wf_labels (view s)"
    and "ReconcileNag K nag s = (r, nag', s')"
    and "n \<in> set (view s)" and "n' \<in> set (view s')" and "node_Name n' = node_Name n"
  shows "nac_OnUpdateNode c n n' q = q"
proof -
  have f: "frame_ok (nag_Name nag) (fview (nag_Name nag) (view s)) (view s)"
    using assms(2,3) by (simp add: frame_ok_def)
  have f': "frame_ok (nag_Name nag) (fview (nag_Name nag) (view s)) (view s')"
    using cluster_api.ReconcileNag_ok [OF assms(1) f assms(4)] by simp
  have "foreign (nag_Name nag) n' = foreign (nag_Name nag) n"
    using foreign_unique [OF f' frame_ok_copies [OF f assms(5)] assms(6,7)] .
  moreover have "wf_map (node_Labels n)" "wf_map (node_Labels n')"
    using f f' assms(5,6) by (auto simp: frame_ok_def wf_labels_def)
  ultimately have "\<not> NodeTargetingHasChanged n n'"
    using foreign_targetable [of "nag_Name nag" n' n] by (simp add: NodeTargetingHasChanged_def scan_difference)
  then show ?thesis by (simp add: nac_OnUpdateNode_def)
qed

definition demo_controller :: "memq nagController" where
  "demo_controller = \<lparr>nac_queue = mem_queue, nac_keyFunc = (\<lambda>g. Inr (nag_Name g)), nac_nags = [demo_live]\<rparr>"

theorem node_events_queue_witness:
  "mem_pend (nac_OnAddNode demo_controller (demo_node ''n1'' [] []) \<lparr>mq_waiting = [], mq_busy = [], mq_requeues = []\<rparr>)
     = {''io''}"
proof -
  have l: "rate_limited_queue (nac_queue demo_controller) mem_pend mem_busy"
    using mem_rlq.rate_limited_queue_axioms by (simp add: demo_controller_def)
  show ?thesis using node_events_queue [OF l]
    by (simp add: mem_pend_def keys_of_def demo_controller_def)
qed

theorem ReconcileNag_does_not_requeue_witness:
  "\<exists>n \<in> set (mem_nodes demo_mem). \<exists>n' \<in> set (mem_nodes (snd (snd (ReconcileNag mem_kube demo_live demo_mem)))).
     node_Labels n \<noteq> node_Labels n' \<and> nac_OnUpdateNode demo_controller n n' demo_memq = demo_memq"
proof -
  have w: "distinct (names (mem_nodes demo_mem))" "wf_labels (mem_nodes demo_mem)"
    by (simp_all add: demo_mem_def wf_labels_def wf_map_def names_def demo_defs)
  obtain r g s' where r: "ReconcileNag mem_kube demo_live demo_mem = (r, g, s')" by (metis prod.exhaust)
  have "map (\<lambda>n. (node_Name n, mget (node_Labels n) (assign_key ''io'')))
      (mem_nodes (snd (snd (ReconcileNag mem_kube demo_live demo_mem)))) = [(''n1'', Some ''fast''), (''n2'', Some ''rest'')]"
    by code_simp
  then obtain n' ns where ns: "mem_nodes s' = n' # ns"
    and n1: "node_Name n' = ''n1''" "mget (node_Labels n') (assign_key ''io'') = Some ''fast''"
    by (cases "mem_nodes s'") (auto simp: r)
  have n': "n' \<in> set (mem_nodes s')" "node_Name n' = ''n1''"
    "mget (node_Labels n') (assign_key ''io'') = Some ''fast''" using ns n1 by auto
  have n: "demo_node ''n1'' [] [] \<in> set (mem_nodes demo_mem)" by (simp add: demo_mem_def)
  have "node_Name n' = node_Name (demo_node ''n1'' [] [])" using n'(2) by (simp add: demo_defs)
  from ReconcileNag_does_not_requeue [OF mem_cluster.cluster_api_axioms w r n n'(1) this]
  have "nac_OnUpdateNode demo_controller (demo_node ''n1'' [] []) n' demo_memq = demo_memq" .
  moreover have "node_Labels (demo_node ''n1'' [] []) \<noteq> node_Labels n'"
    using n'(3) by (cases "node_Labels n'") (auto simp: demo_defs)
  ultimately show ?thesis using n n'(1) r by auto
qed

end
