(* ===== verification/PackLeftProofs.thy ===== *)
theory PackLeftProofs
  imports PackLeft
begin

text \<open>
  The correctness of the PackLeft balancing: the order of the nodes does not depend on the sorting
  algorithm or on the order of the caches, the states go from \<^verbatim>\<open>Use\<close> over \<^verbatim>\<open>Avoid\<close> to \<^verbatim>\<open>Deny\<close> with the
  buffer the assignment asks for, the server ends with exactly these labels and taints, and a second
  run has nothing to change.
\<close>

section \<open>sort.Slice\<close>

definition strict_total :: "('a \<Rightarrow> 'a \<Rightarrow> bool) \<Rightarrow> 'a set \<Rightarrow> bool" where
  "strict_total lt A \<longleftrightarrow>
     (\<forall>x \<in> A. \<not> lt x x) \<and> (\<forall>x \<in> A. \<forall>y \<in> A. \<forall>z \<in> A. lt x y \<longrightarrow> lt y z \<longrightarrow> lt x z) \<and>
     (\<forall>x \<in> A. \<forall>y \<in> A. x \<noteq> y \<longrightarrow> lt x y \<or> lt y x)"

text \<open>What \<^verbatim>\<open>sort.Slice(xs, lt)\<close> promises of its result \<open>ys\<close>.\<close>

definition slice_sorted :: "('a \<Rightarrow> 'a \<Rightarrow> bool) \<Rightarrow> 'a list \<Rightarrow> 'a list \<Rightarrow> bool" where
  "slice_sorted lt xs ys \<longleftrightarrow> mset ys = mset xs \<and> sorted_wrt (\<lambda>a b. \<not> lt b a) ys"

lemma mset_insert_by [simp]: "mset (insert_by lt x ys) = add_mset x (mset ys)"
  by (induction ys) auto

lemma mset_sort_slice [simp]: "mset (sort_slice lt xs) = mset xs"
  by (induction xs) (simp_all add: sort_slice_def)

lemma set_sort_slice [simp]: "set (sort_slice lt xs) = set xs"
  by (metis mset_sort_slice set_mset_mset)

lemma length_sort_slice [simp]: "length (sort_slice lt xs) = length xs"
  by (metis mset_sort_slice size_mset)

lemma strict_total_subset: "strict_total lt A \<Longrightarrow> B \<subseteq> A \<Longrightarrow> strict_total lt B"
  unfolding strict_total_def by blast

lemma set_insert_by: "set (insert_by lt x ys) = insert x (set ys)"
  by (metis mset_insert_by set_mset_add_mset_insert set_mset_mset)

lemma sorted_insert_by:
  assumes "strict_total lt (insert x (set ys))" and "sorted_wrt (\<lambda>a b. \<not> lt b a) ys"
  shows "sorted_wrt (\<lambda>a b. \<not> lt b a) (insert_by lt x ys)"
  using assms
proof (induction ys)
  case (Cons y ys)
  have st: "strict_total lt (insert x (set ys))" by (rule strict_total_subset [OF Cons.prems(1)]) auto
  show ?case
  proof (cases "lt y x")
    case True
    have "\<not> lt x y" using Cons.prems(1) True unfolding strict_total_def by (metis insertCI list.set_intros(1))
    then show ?thesis
      using True Cons.prems(2) Cons.IH [OF st] by (auto simp: set_insert_by)
  next
    case False
    have "\<not> lt z x" if z: "z \<in> set ys" for z
    proof
      assume zx: "lt z x"
      have "\<not> lt z y" using Cons.prems(2) z by auto
      then have "y = z \<or> lt y z" using Cons.prems(1) z unfolding strict_total_def by (metis insertCI list.set_intros)
      then have "lt y x" using zx Cons.prems(1) z unfolding strict_total_def by (metis insertCI list.set_intros)
      then show False using False by simp
    qed
    then show ?thesis using False Cons.prems(2) by auto
  qed
qed simp

lemma sort_slice_sorted:
  "strict_total lt (set xs) \<Longrightarrow> slice_sorted lt xs (sort_slice lt xs)"
proof (induction xs)
  case (Cons x xs)
  have "strict_total lt (set xs)" by (rule strict_total_subset [OF Cons.prems]) auto
  with Cons.IH have "sorted_wrt (\<lambda>a b. \<not> lt b a) (sort_slice lt xs)" by (simp add: slice_sorted_def)
  then have "sorted_wrt (\<lambda>a b. \<not> lt b a) (insert_by lt x (sort_slice lt xs))"
    using Cons.prems by (intro sorted_insert_by) auto
  moreover have "sort_slice lt (x # xs) = insert_by lt x (sort_slice lt xs)" by (simp add: sort_slice_def)
  ultimately show ?case by (simp add: slice_sorted_def)
qed (simp add: slice_sorted_def sort_slice_def)

lemma sorted_perm_unique:
  assumes "strict_total lt (set xs)" and "mset ys = mset xs" and "distinct xs"
    and "sorted_wrt (\<lambda>a b. \<not> lt b a) xs" and "sorted_wrt (\<lambda>a b. \<not> lt b a) ys"
  shows "ys = xs"
  using assms
proof (induction xs arbitrary: ys)
  case (Cons x xs)
  obtain y ys' where ys: "ys = y # ys'" using Cons.prems(2) by (cases ys) auto
  have sets: "insert y (set ys') = insert x (set xs)"
    using Cons.prems(2) ys by (metis list.simps(15) set_mset_mset)
  have "y = x"
  proof (rule ccontr)
    assume ne: "y \<noteq> x"
    have "y \<in> set xs" "x \<in> set ys'" using ne sets by auto
    then have "\<not> lt y x" "\<not> lt x y" using Cons.prems(4,5) ys by auto
    moreover have "lt x y \<or> lt y x"
      using ne Cons.prems(1) \<open>y \<in> set xs\<close> unfolding strict_total_def by (metis list.set_intros)
    ultimately show False by blast
  qed
  moreover have "ys' = xs"
  proof (rule Cons.IH)
    show "strict_total lt (set xs)" by (rule strict_total_subset [OF Cons.prems(1)]) auto
  qed (use Cons.prems ys \<open>y = x\<close> in auto)
  ultimately show ?case by (simp add: ys)
qed simp

lemma sort_slice_unique:
  assumes "strict_total lt (set xs)" and "distinct xs" and "slice_sorted lt xs ys"
  shows "ys = sort_slice lt xs"
proof -
  have "slice_sorted lt xs (sort_slice lt xs)" by (rule sort_slice_sorted [OF assms(1)])
  then show ?thesis
    using sorted_perm_unique [of lt "sort_slice lt xs" ys] assms
    by (simp add: slice_sorted_def) (metis mset_eq_imp_distinct_iff mset_sort_slice)
qed

section \<open>The order of the nodes\<close>

definition comparable :: "assignmentContext list \<Rightarrow> bool" where
  "comparable xs \<longleftrightarrow> distinct (map ac_name xs) \<and> (\<forall>x \<in> set xs. ac_percentFull x \<noteq> NaN)"

lemma fuller_total:
  assumes "comparable xs"
  shows "strict_total fuller (set xs)"
proof -
  have inj: "x \<in> set xs \<Longrightarrow> y \<in> set xs \<Longrightarrow> ac_name x = ac_name y \<Longrightarrow> x = y" for x y
    using assms by (auto simp: comparable_def distinct_map inj_on_def)
  have nan: "x \<in> set xs \<Longrightarrow> ac_percentFull x \<noteq> NaN" for x using assms by (simp add: comparable_def)
  show ?thesis
    unfolding strict_total_def
  proof (intro conjI ballI impI)
    fix x y z assume "x \<in> set xs" "y \<in> set xs" "z \<in> set xs" and *: "fuller x y" "fuller y z"
    then have "ac_percentFull x \<noteq> NaN" "ac_percentFull y \<noteq> NaN" "ac_percentFull z \<noteq> NaN" using nan by auto
    with * show "fuller x z"
      by (auto simp: fuller_def float_eq_def split: if_splits dest: gofloat_trans)
  next
    fix x y assume xy: "x \<in> set xs" "y \<in> set xs" "x \<noteq> y"
    then have "ac_name x \<noteq> ac_name y" using inj by auto
    then have "ac_name x < ac_name y \<or> ac_name y < ac_name x" by (rule neq_iff [THEN iffD1])
    then show "fuller x y \<or> fuller y x"
      using gofloat_total [OF nan [OF xy(1)] nan [OF xy(2)]] nan xy
      by (auto simp: fuller_def float_eq_def)
  qed (simp add: fuller_def float_eq_def)
qed

lemma comparable_distinct: "comparable xs \<Longrightarrow> distinct xs"
  by (auto simp: comparable_def distinct_map)

lemma comparable_mset: "mset xs = mset ys \<Longrightarrow> comparable xs \<longleftrightarrow> comparable ys"
  by (auto simp: comparable_def dest: mset_eq_setD) (metis mset_eq_imp_distinct_iff mset_map)+

text \<open>C24: the order is determined by the nodes alone: any slice that keeps the promise of \<^verbatim>\<open>sort.Slice\<close>, from
  the nodes in any order, is the one the model computes, provided the names differ and no fullness is
  NaN. This is what the code needs so that two runs do not disagree.\<close>

theorem balance_order_deterministic:
  assumes "comparable (nodesWithPercent c a nodes)" and "mset nodes' = mset nodes"
    and "slice_sorted fuller (nodesWithPercent c a nodes') ys"
  shows "ys = sort_slice fuller (nodesWithPercent c a nodes)"
proof -
  have "mset (nodesWithPercent c a nodes') = mset (nodesWithPercent c a nodes)"
    using assms(2) by (simp add: nodesWithPercent_def Let_def)
  then have "slice_sorted fuller (nodesWithPercent c a nodes) ys"
    using assms(3) by (simp add: slice_sorted_def)
  then show ?thesis
    by (rule sort_slice_unique [OF fuller_total [OF assms(1)] comparable_distinct [OF assms(1)]])
qed


section \<open>The states\<close>

fun next_states :: "gofloat \<Rightarrow> int \<Rightarrow> int \<Rightarrow> gofloat list \<Rightarrow> nodePackLeftState list" where
  "next_states full buf n [] = []"
| "next_states full buf n (p # ps) =
     (case nextState full buf n p of (st, n1) \<Rightarrow> st # next_states full buf n1 ps)"

text \<open>The nodes of an assignment in their order, and the states the code gives them.\<close>

definition balance_order :: "plCaches \<Rightarrow> nodeAssignment \<Rightarrow> node list \<Rightarrow> assignmentContext list" where
  "balance_order c a nodes = sort_slice fuller (nodesWithPercent c a nodes)"

definition balance_states :: "plCaches \<Rightarrow> nodeAssignment \<Rightarrow> node list \<Rightarrow> nodePackLeftState list" where
  "balance_states c a nodes =
     (case balance_order c a nodes of
        [] \<Rightarrow> []
      | x # xs \<Rightarrow> nodeUse # next_states (fullMark a) (avoidBuffer a (length nodes)) 0 (map ac_percentFull xs))"

lemma length_next_states [simp]: "length (next_states full buf n ps) = length ps"
  by (induction ps arbitrary: n) (auto simp: nextState_def split: prod.splits)

lemma length_balance_states: "length (balance_states c a nodes) = length (balance_order c a nodes)"
  by (auto simp: balance_states_def split: list.splits)

lemma state_order [simp]:
  "nodeUse \<le> st" "nodeAvoid \<le> nodeDeny" "\<not> nodeDeny \<le> nodeAvoid" "\<not> nodeAvoid \<le> nodeUse" "\<not> nodeDeny \<le> nodeUse"
  by (cases st; simp add: less_eq_nodePackLeftState_def)+

lemma next_states_Use:
  "i < length ps \<Longrightarrow> next_states full buf n ps ! i = nodeUse \<longleftrightarrow> full < ps ! i"
  by (induction ps arbitrary: n i) (auto simp: nextState_def nth_Cons split: nat.splits prod.splits)

lemma next_states_not_full:
  "\<forall>p \<in> set ps. \<not> full < p \<Longrightarrow> 0 \<le> n \<Longrightarrow> n \<le> buf \<Longrightarrow>
   next_states full buf n ps =
     replicate (min (nat (buf - n)) (length ps)) nodeAvoid @ replicate (length ps - nat (buf - n)) nodeDeny"
proof (induction ps arbitrary: n)
  case (Cons p ps)
  show ?case
  proof (cases "n < buf")
    case True
    then obtain k where k: "nat (buf - n) = Suc k" "nat (buf - (n + 1)) = k"
      by (metis Suc_nat_eq_nat_zadd1 add.commute diff_add_cancel diff_diff_add diff_ge_0_iff_ge zle_add1_eq_le zless_imp_add1_zle)
    then show ?thesis using Cons.IH [of "n + 1"] Cons.prems True by (simp add: nextState_def)
  next
    case False
    then have "n = buf" using Cons.prems(3) by simp
    then show ?thesis using Cons.IH [of n] Cons.prems False by (simp add: nextState_def)
  qed
qed simp

lemma next_states_sorted:
  assumes "sorted_wrt (\<lambda>p q. \<not> p < q) ps" and "\<forall>p \<in> set ps. p \<noteq> NaN" and "0 \<le> buf"
  shows "next_states full buf 0 ps =
     (let u = length (filter (\<lambda>p. full < p) ps); k = min (nat buf) (length ps - u)
      in replicate u nodeUse @ replicate k nodeAvoid @ replicate (length ps - u - k) nodeDeny)"
  using assms(1,2)
proof (induction ps)
  case (Cons p ps)
  show ?case
  proof (cases "full < p")
    case True
    then show ?thesis using Cons by (simp add: nextState_def Let_def)
  next
    case False
    have rest: "\<forall>q \<in> set (p # ps). \<not> full < q"
    proof (intro ballI notI)
      fix q assume q: "q \<in> set (p # ps)" "full < q"
      then have "\<not> p < q" using Cons.prems(1) False by auto
      then have "q = p \<or> q < p" using gofloat_total [of p q] Cons.prems(2) q(1) by auto
      then show False using q(2) False gofloat_trans by blast
    qed
    then have "filter (\<lambda>p. full < p) (p # ps) = []" by (simp add: filter_empty_conv)
    then show ?thesis
      using next_states_not_full [OF rest, of 0 buf] assms(3) by (simp only: Let_def list.size min.commute) simp
  qed
qed simp

lemma balance_order_sorted:
  assumes "comparable (nodesWithPercent c a nodes)"
  shows "sorted_wrt (\<lambda>x y. \<not> fuller y x) (balance_order c a nodes)"
    and "comparable (balance_order c a nodes)"
  using sort_slice_sorted [OF fuller_total [OF assms]] comparable_mset [of "balance_order c a nodes"] assms
  by (simp_all add: balance_order_def slice_sorted_def)

lemma fuller_percent:
  "\<not> fuller y x \<Longrightarrow> \<not> ac_percentFull x < ac_percentFull y"
  by (auto simp: fuller_def float_eq_def split: if_splits)

lemma avoidBuffer_pos [simp]: "1 \<le> avoidBuffer a n"
  by (simp add: avoidBuffer_def Let_def)

lemma balance_states_shape:
  assumes "comparable (nodesWithPercent c a nodes)" and "balance_order c a nodes = x # xs"
  shows "balance_states c a nodes =
    (let u = length (filter (\<lambda>y. fullMark a < ac_percentFull y) xs);
         k = min (nat (avoidBuffer a (length nodes))) (length xs - u)
     in replicate (Suc u) nodeUse @ replicate k nodeAvoid @ replicate (length xs - u - k) nodeDeny)"
proof -
  have o: "sorted_wrt (\<lambda>x y. \<not> fuller y x) (x # xs)" "comparable (x # xs)"
    using balance_order_sorted [OF assms(1)] by (simp_all add: assms(2))
  have "sorted_wrt (\<lambda>x y. \<not> ac_percentFull x < ac_percentFull y) xs"
    using o(1) by (auto elim!: sorted_wrt_mono_rel [rotated] dest: fuller_percent)
  then have "sorted_wrt (\<lambda>p q. \<not> p < q) (map ac_percentFull xs)" by (simp add: sorted_wrt_map)
  moreover have "\<forall>p \<in> set (map ac_percentFull xs). p \<noteq> NaN" using o(2) by (auto simp: comparable_def)
  moreover have "length (filter (\<lambda>p. fullMark a < p) (map ac_percentFull xs)) =
      length (filter (\<lambda>y. fullMark a < ac_percentFull y) xs)" by (simp add: filter_map comp_def)
  ultimately show ?thesis
    using next_states_sorted [of "map ac_percentFull xs" "avoidBuffer a (length nodes)" "fullMark a"]
      avoidBuffer_pos [of a "length nodes"]
    by (simp add: balance_states_def assms(2) Let_def)
qed

text \<open>C22: the states of an assignment. From the fullest node down they are first \<^verbatim>\<open>Use\<close>, then \<^verbatim>\<open>Avoid\<close>, then
  \<^verbatim>\<open>Deny\<close>; the \<^verbatim>\<open>Use\<close> nodes are the fullest one and every other one above the full mark, and of the
  remaining nodes as many are \<^verbatim>\<open>Avoid\<close> as the buffer asks for, or all of them if there are fewer.\<close>

theorem balance_states_correct:
  assumes "comparable (nodesWithPercent c a nodes)" and "balance_order c a nodes = x # xs"
  shows "sorted (balance_states c a nodes) \<and>
    (\<forall>i < length (x # xs). balance_states c a nodes ! i = nodeUse \<longleftrightarrow>
       i = 0 \<or> fullMark a < ac_percentFull ((x # xs) ! i)) \<and>
    int (count_list (balance_states c a nodes) nodeAvoid) =
      min (avoidBuffer a (length nodes))
        (int (length (x # xs)) - int (count_list (balance_states c a nodes) nodeUse))"
proof (intro conjI)
  let ?u = "length (filter (\<lambda>y. fullMark a < ac_percentFull y) xs)"
  let ?k = "min (nat (avoidBuffer a (length nodes))) (length xs - ?u)"
  let ?d = "length xs - ?u - ?k"
  have st: "balance_states c a nodes = replicate (Suc ?u) nodeUse @ replicate ?k nodeAvoid @ replicate ?d nodeDeny"
    using balance_states_shape [OF assms] by (simp only: Let_def)
  have u: "?u \<le> length xs" by simp
  show "sorted (balance_states c a nodes)"
    unfolding st by (auto simp: sorted_append)
  have cnt: "count_list (replicate n y) z = (if y = z then n else 0)" for n and y z :: nodePackLeftState
    by (induction n) auto
  show "int (count_list (balance_states c a nodes) nodeAvoid) =
      min (avoidBuffer a (length nodes))
        (int (length (x # xs)) - int (count_list (balance_states c a nodes) nodeUse))"
    using u avoidBuffer_pos [of a "length nodes"] unfolding st
    by (simp add: cnt of_nat_min of_nat_diff del: avoidBuffer_pos)
  show "\<forall>i < length (x # xs). balance_states c a nodes ! i = nodeUse \<longleftrightarrow>
       i = 0 \<or> fullMark a < ac_percentFull ((x # xs) ! i)"
    using next_states_Use [of _ "map ac_percentFull xs"]
    by (auto simp: balance_states_def assms(2) nth_Cons split: nat.splits)
qed


section \<open>What is written to a node\<close>

definition pl_node :: "string \<Rightarrow> nodePackLeftState \<Rightarrow> node \<Rightarrow> node" where
  "pl_node key st n =
     (set_node_Labels n (Some (AList.update key (state_string st) (mitems (node_Labels n)))))
       \<lparr>n_Taints := remove_first_taint key (n_Taints n) @ state_taints st key\<rparr>"

lemma pl_assignNode_ok:
  assumes "node_Labels (ac_node ctx) \<noteq> None"
  shows "pl_assignNode ctx st key metric = (Inr (pl_node key st (ac_node ctx)),
    metric((na_Name (ac_assignment ctx), ac_name ctx, state_string st) \<mapsto> ac_percentFull ctx))"
  using assms by (auto simp: pl_assignNode_def mput_def pl_node_def removeTaint_def Let_def)

lemma pl_node_variant [simp]: "node_variant n (pl_node key st n)"
  by (auto simp: pl_node_def node_variant_def set_node_Labels_def)

lemma pl_node_simps [simp]:
  "node_Name (pl_node key st n) = node_Name n"
  "n_Taints (pl_node key st n) = remove_first_taint key (n_Taints n) @ state_taints st key"
  "mget (node_Labels (pl_node key st n)) k = (if k = key then Some (state_string st) else mget (node_Labels n) k)"
  by (auto simp: pl_node_def update_conv' mget_def)

lemma wf_node_pl_node [simp]: "wf_node n \<Longrightarrow> wf_node (pl_node key st n)"
  by (simp add: wf_node_def wf_map_def pl_node_def distinct_update)

text \<open>The loop of \<^verbatim>\<open>balanceNodes\<close> writes its nodes with their states, one after the other.\<close>

fun write_all ::
    "('s, 'd, 'p) kube \<Rightarrow> string \<Rightarrow> (assignmentContext \<times> nodePackLeftState) list \<Rightarrow> gauge \<Rightarrow> 's
     \<Rightarrow> (gopanic + unit) \<times> gauge \<times> 's" where
  "write_all K key [] metric s = (Inr (), metric, s)"
| "write_all K key ((ctx, st) # rest) metric s =
     (case assign_and_patch K key ctx st metric s of
        (Inl p, metric1, s1) \<Rightarrow> (Inl p, metric1, s1)
      | (Inr _, metric1, s1) \<Rightarrow> write_all K key rest metric1 s1)"

lemma balance_loop_writes:
  "balance_loop K key full buf n ctxs metric s =
     write_all K key (zip ctxs (next_states full buf n (map ac_percentFull ctxs))) metric s"
  by (induction ctxs arbitrary: n metric s) (auto split: prod.splits sum.splits)

lemma balanceNodes_writes:
  "balanceNodes K c nodes key a metric s =
     write_all K key (zip (balance_order c a nodes) (balance_states c a nodes)) metric s"
  by (auto simp: balanceNodes_def balance_states_def balance_order_def balance_loop_writes [abs_def]
      split: list.splits prod.splits sum.splits)

lemma write_all_no_panic:
  "\<forall>(ctx, st) \<in> set ps. node_Labels (ac_node ctx) \<noteq> None \<Longrightarrow> \<exists>metric' s'. write_all K key ps metric s = (Inr (), metric', s')"
proof (induction ps arbitrary: metric s)
  case (Cons p ps)
  obtain ctx st where p: "p = (ctx, st)" by force
  show ?case
    using Cons by (simp add: p assign_and_patch_def pl_assignNode_ok split: prod.splits)
qed simp

lemma balance_order_nodes: "x \<in> set (balance_order c a nodes) \<Longrightarrow> ac_node x \<in> set nodes \<and> NodeCanBeBalanced (ac_node x)"
  by (auto simp: balance_order_def nodesWithPercent_def newAssignmentContext_def Let_def)

lemma balanceNodes_no_panic:
  assumes "\<forall>n \<in> set nodes. node_Labels n \<noteq> None"
  shows "\<exists>metric' s'. balanceNodes K c nodes key a metric s = (Inr (), metric', s')"
  unfolding balanceNodes_writes
  by (rule write_all_no_panic) (use assms balance_order_nodes in \<open>auto dest!: set_zip_leftD\<close>)

definition groups_labelled :: "(string \<times> node list) list \<Rightarrow> bool" where
  "groups_labelled gs \<longleftrightarrow> (\<forall>k ns. map_of gs k = Some ns \<longrightarrow> (\<forall>n \<in> set ns. node_Labels n \<noteq> None))"

lemma group_append_labelled:
  assumes "groups_labelled gs" and "node_Labels n \<noteq> None"
  shows "groups_labelled (group_append x n gs)"
proof (cases "map_of gs x")
  case None
  then show ?thesis using assms by (simp add: groups_labelled_def group_append_def update_conv')
next
  case (Some ns)
  then have "\<forall>m \<in> set (ns @ [n]). node_Labels m \<noteq> None" using assms by (auto simp: groups_labelled_def)
  then show ?thesis using assms Some by (simp add: groups_labelled_def group_append_def update_conv')
qed

lemma add_to_group_labelled: "groups_labelled gs \<Longrightarrow> groups_labelled (add_to_group nag n gs)"
proof (cases "GetAssignment nag n")
  case (Some x)
  then have "node_Labels n \<noteq> None" by (cases "node_Labels n") (auto simp: GetAssignment_def)
  then show "groups_labelled gs \<Longrightarrow> ?thesis"
    using group_append_labelled by (simp add: add_to_group_def Some split: option.split)
qed (simp add: add_to_group_def)

lemma node_groups_labelled: "groups_labelled (getPackLeftNodeGroups c nag)"
proof -
  have "groups_labelled gs \<Longrightarrow> groups_labelled (fold (add_to_group nag) ns gs)" for ns gs
    by (induction ns arbitrary: gs) (auto intro: add_to_group_labelled)
  then show ?thesis unfolding getPackLeftNodeGroups_def by (simp add: groups_labelled_def [of "[]"])
qed

lemma rebalance_loop_no_panic:
  "groups_labelled gs \<Longrightarrow> \<exists>metric' s'. rebalance_loop K c nag gs ks metric s = (Inr (), metric', s')"
proof (induction ks arbitrary: metric s)
  case (Cons k ks)
  show ?case
  proof (cases "\<exists>nodes a. map_of gs k = Some nodes \<and> nodes \<noteq> [] \<and> getAssignmentByName k nag = Some a")
    case True
    then obtain nodes a where na: "map_of gs k = Some nodes" "nodes \<noteq> []" "getAssignmentByName k nag = Some a" by blast
    then have "\<forall>n \<in> set nodes. node_Labels n \<noteq> None" using Cons.prems by (auto simp: groups_labelled_def)
    then obtain metric1 s1 where
      "balanceNodes K c nodes (getLabelKey (nag_Name nag)) a metric s = (Inr (), metric1, s1)"
      using balanceNodes_no_panic by meson
    then show ?thesis using Cons na by simp
  next
    case False
    then have "rebalance_loop K c nag gs (k # ks) metric s = rebalance_loop K c nag gs ks metric s"
      by (auto split: option.splits)
    then show ?thesis using Cons by simp
  qed
qed simp

lemma RebalanceNag_total: "\<exists>metric' s'. RebalanceNag K c nag metric s = (Inr (), metric', s')"
  using rebalance_loop_no_panic [OF node_groups_labelled [of c nag]]
  by (auto simp: RebalanceNag_def Let_def split: prod.splits)

text \<open>C25: rebalancing never panics, whatever the caches hold and the server answers: every node it writes a
  label to carries the assignment label of the group, so its label map exists.\<close>

theorem RebalanceNag_no_panic:
  "\<exists>metric' s'. RebalanceNag K c nag metric s = (Inr (), metric', s')"
  by (rule RebalanceNag_total)

section \<open>The effect on the server\<close>

text \<open>The node \<open>n\<close> after a state has been written to it.\<close>

definition has_state :: "string \<Rightarrow> nodePackLeftState \<Rightarrow> node \<Rightarrow> node \<Rightarrow> bool" where
  "has_state key st n m \<longleftrightarrow>
     (\<forall>k. mget (node_Labels m) k = (if k = key then Some (state_string st) else mget (node_Labels n) k)) \<and>
     n_Taints m = remove_first_taint key (n_Taints n) @ state_taints st key"

lemma has_state_merge: "wf_node n \<Longrightarrow> has_state key st n (merge_node n (pl_node key st n) n)"
  using wf_node_pl_node [of n key st]
  by (auto simp: has_state_def merge_labels_fresh wf_node_def)

context reliable_node_api
begin

lemma assign_and_patch_effect:
  assumes "find (\<lambda>m. node_Name m = ac_name ctx) (view s) = Some (ac_node ctx)" and "wf_node (ac_node ctx)"
  shows "\<exists>metric' s'. assign_and_patch K key ctx st metric s = (Inr (), metric', s') \<and>
    view s' = update_view (ac_name ctx) (merge_node (ac_node ctx) (pl_node key st (ac_node ctx))) (view s)"
proof -
  have nm: "ac_name ctx \<in> set (names (view s))" using assms(1) by (auto simp: find_Some_iff names_def)
  obtain s' where s': "send_node_patch K (ac_node ctx) (pl_node key st (ac_node ctx)) s = (None, s')"
    using send_node_patch_total [OF nm] by blast
  have "view s' = update_view (ac_name ctx) (merge_node (ac_node ctx) (pl_node key st (ac_node ctx))) (view s)"
    by (rule send_node_patch_ok [OF s']) (use assms(2) wf_node_pl_node [OF assms(2), of key st] in \<open>auto simp: wf_node_def\<close>)
  then show ?thesis
    using assms(2) s' by (simp add: assign_and_patch_def pl_assignNode_ok wf_node_def patchNodeState_def)
qed

lemma write_all_effect:
  assumes "distinct (map (\<lambda>p. ac_name (fst p)) ps)"
    and "\<forall>(ctx, st) \<in> set ps. find (\<lambda>m. node_Name m = ac_name ctx) (view s) = Some (ac_node ctx) \<and> wf_node (ac_node ctx)"
  shows "\<exists>metric' s'. write_all K key ps metric s = (Inr (), metric', s') \<and> names (view s') = names (view s) \<and>
    (\<forall>(ctx, st) \<in> set ps. \<exists>m. find (\<lambda>m. node_Name m = ac_name ctx) (view s') = Some m \<and> has_state key st (ac_node ctx) m) \<and>
    (\<forall>nm. nm \<notin> (\<lambda>p. ac_name (fst p)) ` set ps \<longrightarrow>
       find (\<lambda>m. node_Name m = nm) (view s') = find (\<lambda>m. node_Name m = nm) (view s))"
  using assms
proof (induction ps arbitrary: metric s)
  case (Cons p ps)
  obtain ctx st where p: "p = (ctx, st)" by force
  have f: "find (\<lambda>m. node_Name m = ac_name ctx) (view s) = Some (ac_node ctx)" "wf_node (ac_node ctx)"
    using Cons.prems(2) by (auto simp: p)
  obtain metric1 s1 where a: "assign_and_patch K key ctx st metric s = (Inr (), metric1, s1)"
    and v: "view s1 = update_view (ac_name ctx) (merge_node (ac_node ctx) (pl_node key st (ac_node ctx))) (view s)"
    using assign_and_patch_effect [OF f] by blast
  have f1: "find (\<lambda>m. node_Name m = nm) (view s1) =
      (if nm = ac_name ctx then Some (merge_node (ac_node ctx) (pl_node key st (ac_node ctx)) (ac_node ctx))
       else find (\<lambda>m. node_Name m = nm) (view s))" for nm
    using f(1) by (simp add: v find_update_view)
  have ne: "ac_name ctx \<notin> (\<lambda>p. ac_name (fst p)) ` set ps" using Cons.prems(1) by (simp add: p)
  have pre: "\<forall>(ctx, st) \<in> set ps. find (\<lambda>m. node_Name m = ac_name ctx) (view s1) = Some (ac_node ctx) \<and> wf_node (ac_node ctx)"
    using Cons.prems(2) ne by (force simp: f1)
  obtain metric' s' where ih: "write_all K key ps metric1 s1 = (Inr (), metric', s')" "names (view s') = names (view s1)"
    "\<forall>(ctx, st) \<in> set ps. \<exists>m. find (\<lambda>m. node_Name m = ac_name ctx) (view s') = Some m \<and> has_state key st (ac_node ctx) m"
    "\<forall>nm. nm \<notin> (\<lambda>p. ac_name (fst p)) ` set ps \<longrightarrow>
       find (\<lambda>m. node_Name m = nm) (view s') = find (\<lambda>m. node_Name m = nm) (view s1)"
    using Cons.IH [OF _ pre, of metric1] Cons.prems(1) by auto
  have "names (view s1) = names (view s)" by (simp add: v)
  moreover have "\<exists>m. find (\<lambda>m. node_Name m = ac_name ctx) (view s') = Some m \<and> has_state key st (ac_node ctx) m"
    using ih(4) ne has_state_merge [OF f(2)] by (simp add: f1)
  ultimately show ?case using ih a by (auto simp: p f1)
qed simp

end


lemma order_names:
  assumes "distinct (names nodes)"
  shows "distinct (map ac_name (balance_order c a nodes))"
    and "set (map ac_name (balance_order c a nodes)) = set (names (filter NodeCanBeBalanced nodes))"
proof -
  have m: "mset (map ac_name (balance_order c a nodes)) = mset (names (filter NodeCanBeBalanced nodes))"
  proof -
    have "mset (map ac_name (balance_order c a nodes)) = mset (map ac_name (nodesWithPercent c a nodes))"
      by (simp only: balance_order_def mset_map mset_sort_slice)
    also have "map ac_name (nodesWithPercent c a nodes) = names (filter NodeCanBeBalanced nodes)"
      by (simp add: nodesWithPercent_def newAssignmentContext_def names_def Let_def)
    finally show ?thesis .
  qed
  show "distinct (map ac_name (balance_order c a nodes))"
    using distinct_names_filter [OF assms] m by (metis mset_eq_imp_distinct_iff)
  show "set (map ac_name (balance_order c a nodes)) = set (names (filter NodeCanBeBalanced nodes))"
    using m by (metis mset_eq_setD)
qed

text \<open>C23: what a balancing run leaves on the server. If the cache agrees with the server and no call
  fails, the \<open>i\<close>-th node of the order has the \<open>i\<close>-th state as its label and exactly the state's taint
  appended to its other taints; its other labels, and all nodes that cannot be balanced, are
  unchanged.\<close>

theorem balanceNodes_effect:
  assumes "reliable_node_api K view" and "wf_view (view s)" and "set nodes \<subseteq> set (view s)"
    and "distinct nodes"
  shows "\<exists>metric' s'. balanceNodes K c nodes key a metric s = (Inr (), metric', s') \<and>
    names (view s') = names (view s) \<and>
    (\<forall>i < length (balance_order c a nodes). \<exists>m.
       find (\<lambda>m. node_Name m = ac_name (balance_order c a nodes ! i)) (view s') = Some m \<and>
       has_state key (balance_states c a nodes ! i) (ac_node (balance_order c a nodes ! i)) m) \<and>
    (\<forall>nm. nm \<notin> set (names (filter NodeCanBeBalanced nodes)) \<longrightarrow>
       find (\<lambda>m. node_Name m = nm) (view s') = find (\<lambda>m. node_Name m = nm) (view s))"
proof -
  let ?o = "balance_order c a nodes" and ?s = "balance_states c a nodes"
  have len: "length ?s = length ?o" by (rule length_balance_states)
  have dv: "distinct (names (view s))" using assms(2) by (simp add: wf_view_def)
  have dn: "distinct (names nodes)"
    using dv assms(3,4) by (auto simp: names_def distinct_map inj_on_def)
  have fs: "map (\<lambda>p. ac_name (fst p)) (zip ?o ?s) = map ac_name ?o"
  proof -
    have "map (\<lambda>p. ac_name (fst p)) (zip ?o ?s) = map ac_name (map fst (zip ?o ?s))" by simp
    then show ?thesis using len by (simp only: map_fst_zip)
  qed
  have d: "distinct (map (\<lambda>p. ac_name (fst p)) (zip ?o ?s))" unfolding fs by (rule order_names(1) [OF dn])
  have ok: "\<forall>(ctx, st) \<in> set (zip ?o ?s). find (\<lambda>m. node_Name m = ac_name ctx) (view s) = Some (ac_node ctx) \<and>
      wf_node (ac_node ctx)"
  proof (clarify dest!: set_zip_leftD)
    fix ctx assume "ctx \<in> set ?o"
    then have "ac_node ctx \<in> set (view s)" using balance_order_nodes assms(3) by blast
    then show "find (\<lambda>m. node_Name m = ac_name ctx) (view s) = Some (ac_node ctx) \<and> wf_node (ac_node ctx)"
      using find_Some_iff_names [OF dv] assms(2) by (auto simp: wf_view_def)
  qed
  obtain metric' s' where w: "write_all K key (zip ?o ?s) metric s = (Inr (), metric', s')"
    "names (view s') = names (view s)"
    "\<forall>(ctx, st) \<in> set (zip ?o ?s). \<exists>m. find (\<lambda>m. node_Name m = ac_name ctx) (view s') = Some m \<and>
       has_state key st (ac_node ctx) m"
    "\<forall>nm. nm \<notin> (\<lambda>p. ac_name (fst p)) ` set (zip ?o ?s) \<longrightarrow>
       find (\<lambda>m. node_Name m = nm) (view s') = find (\<lambda>m. node_Name m = nm) (view s)"
    using reliable_node_api.write_all_effect [OF assms(1) d ok, of key metric] by blast
  have sets: "(\<lambda>p. ac_name (fst p)) ` set (zip ?o ?s) = set (names (filter NodeCanBeBalanced nodes))"
    using fs order_names(2) [OF dn, of c a] by (metis set_map)
  have "\<exists>m. find (\<lambda>m. node_Name m = ac_name (?o ! i)) (view s') = Some m \<and> has_state key (?s ! i) (ac_node (?o ! i)) m"
    if "i < length ?o" for i
    using w(3) that len by (auto simp: set_zip)
  then show ?thesis using w(1,2,4) sets by (simp add: balanceNodes_writes)
qed

section \<open>A second run\<close>

lemma remove_first_none: "\<forall>t \<in> set ts. taint_Key t \<noteq> key \<Longrightarrow> remove_first_taint key ts = ts"
  by (induction ts) auto

lemma remove_first_last:
  "\<forall>t \<in> set ts. taint_Key t \<noteq> key \<Longrightarrow> remove_first_taint key (ts @ state_taints st key) = ts"
  by (induction ts) (auto simp: state_taints_def Let_def)

lemma remove_first_single:
  "length (filter (\<lambda>t. taint_Key t = key) ts) \<le> 1 \<Longrightarrow> t \<in> set (remove_first_taint key ts) \<Longrightarrow> taint_Key t \<noteq> key"
  by (induction ts) (auto simp: filter_empty_conv split: if_splits)

lemma update_same: "map_of al k = Some v \<Longrightarrow> AList.update k v al = al"
  by (induction al) auto

text \<open>Writing a state is idempotent: if the node had at most one taint with the key, writing the same
  state again gives the very same node, so the second patch is empty and nothing is sent.\<close>

theorem state_write_idempotent:
  assumes "pl_assignNode ctx st key metric = (Inr n1, metric1)"
    and "length (filter (\<lambda>t. taint_Key t = key) (n_Taints (ac_node ctx))) \<le> 1"
  shows "fst (pl_assignNode (ctx\<lparr>ac_node := n1\<rparr>) st key metric1) = Inr n1"
proof -
  have lab: "node_Labels (ac_node ctx) \<noteq> None"
    using assms(1) by (auto simp: pl_assignNode_def mput_def Let_def split: option.splits)
  then have n1: "n1 = pl_node key st (ac_node ctx)" using assms(1) by (simp add: pl_assignNode_ok)
  let ?al = "mitems (node_Labels (ac_node ctx))"
  have l: "node_Labels n1 = Some (AList.update key (state_string st) ?al)"
    by (simp add: n1 pl_node_def)
  have clean: "\<forall>t \<in> set (remove_first_taint key (n_Taints (ac_node ctx))). taint_Key t \<noteq> key"
    using remove_first_single [OF assms(2)] by blast
  have "pl_node key st n1 = n1"
    using remove_first_last [OF clean] l
    by (simp add: pl_node_def [of key st n1] update_same update_conv' n1)
      (simp add: pl_node_def set_node_Labels_def)
  then show ?thesis using l by (simp add: pl_assignNode_ok)
qed

section \<open>Cleaning up\<close>

lemma attributes_iff:
  "NodeHasPackLeftAttributes n nag \<longleftrightarrow>
     mget (node_Labels n) (packleft_key (nag_Name nag)) \<noteq> None \<or>
     (\<exists>t \<in> set (n_Taints n). taint_Key t = packleft_key (nag_Name nag))"
  by (force simp: NodeHasPackLeftAttributes_def Let_def mget_def map_of_eq_None_iff)

text \<open>A node without a PackLeft assignment loses its PackLeft attributes when it is unassigned, if it
  has at most one taint with the key; with two such taints the second one stays. Nothing else on the
  node changes.\<close>

theorem unassignNode_cleans:
  "(NodeHasPackLeftAttributes (unassignNode n (packleft_key (nag_Name nag))) nag \<longleftrightarrow>
      2 \<le> length (filter (\<lambda>t. taint_Key t = packleft_key (nag_Name nag)) (n_Taints n))) \<and>
   (\<forall>k. k \<noteq> packleft_key (nag_Name nag) \<longrightarrow>
      mget (node_Labels (unassignNode n (packleft_key (nag_Name nag)))) k = mget (node_Labels n) k) \<and>
   filter (\<lambda>t. taint_Key t \<noteq> packleft_key (nag_Name nag)) (n_Taints (unassignNode n (packleft_key (nag_Name nag)))) =
     filter (\<lambda>t. taint_Key t \<noteq> packleft_key (nag_Name nag)) (n_Taints n)"
proof -
  let ?k = "packleft_key (nag_Name nag)"
  have two: "(\<exists>t \<in> set (remove_first_taint ?k ts). taint_Key t = ?k) \<longleftrightarrow>
      2 \<le> length (filter (\<lambda>t. taint_Key t = ?k) ts)" for ts
  proof (induction ts)
    case (Cons t ts)
    have "(\<exists>t \<in> set ts. taint_Key t = ?k) \<longleftrightarrow> 1 \<le> length (filter (\<lambda>t. taint_Key t = ?k) ts)"
      by (induction ts) auto
    then show ?case using Cons by auto
  qed simp
  have keep: "filter (\<lambda>t. taint_Key t \<noteq> ?k) (remove_first_taint ?k ts) = filter (\<lambda>t. taint_Key t \<noteq> ?k) ts" for ts
    by (induction ts) auto
  have lab: "node_Labels (unassignNode n ?k) = mdel (node_Labels n) ?k"
    "n_Taints (unassignNode n ?k) = remove_first_taint ?k (n_Taints n)"
    by (simp_all add: unassignNode_def removeTaint_def set_node_Labels_def)
  show ?thesis by (simp add: attributes_iff lab two keep gomap_simps)
qed

text \<open>\<^verbatim>\<open>CleanAllNodes\<close>, which runs when a group is deleted, does not touch a ready node that is still on a
  PackLeft assignment: if all nodes are of this kind it sends nothing at all, and the finalizer is
  removed while the labels and taints are still there.\<close>

theorem CleanAllNodes_skips_assigned:
  assumes "\<forall>n \<in> set (plc_nodes c). NodeHasPackLeftAssignment n nag \<and> NodeCanBeBalanced n"
  shows "CleanAllNodes K c nag s = (None, s)"
proof -
  have "cleanAll_loop K nag ns s = (None, s)"
    if "\<forall>n \<in> set ns. NodeHasPackLeftAssignment n nag \<and> NodeCanBeBalanced n" for ns
    using that by (induction ns) auto
  then show ?thesis using assms by (simp add: CleanAllNodes_def)
qed


section \<open>Witnesses\<close>

definition demo_pl :: nodeAssignment where
  "demo_pl = (demo_assignment ''fast'' '''')\<lparr>na_SchedulingMode := ''PackLeft''\<rparr>"

definition demo_nodes :: "node list" where
  "demo_nodes = [demo_node ''n1'' [(assign_key ''io'', ''fast'')] [], demo_node ''n2'' [(assign_key ''io'', ''fast'')] [],
     demo_node ''n3'' [(assign_key ''io'', ''fast'')] []]"

definition demo_caches :: plCaches where
  "demo_caches = \<lparr>plc_nodes = demo_nodes,
     plc_pods = [(demo_pod ''default'' [])\<lparr>p_NodeName := ''n2'', p_Phase := ''Running'',
       p_Containers := [\<lparr>c_MemoryRequest = 500, c_CPURequest = 100\<rparr>]\<rparr>]\<rparr>"

definition demo_pl_mem :: mem where
  "demo_pl_mem = \<lparr>mem_nodes = demo_nodes, mem_nags = []\<rparr>"

lemma float64_ratio_zero: "b \<noteq> 0 \<Longrightarrow> \<bar>b\<bar> < 2 ^ 53 \<Longrightarrow> float64_ratio 0 b = Fin 0"
  using round_sig_int [of b 53] by (simp add: float64_ratio_def float64_div_def)

lemma demo_ratios:
  "float64_ratio 500 1000 = Fin (1 / 2)" "float64_ratio 0 1000 = Fin 0" "Fin 0 < float64_ratio 100 1000"
  "float64_ratio 100 1000 < Fin (1 / 2)" "\<not> Fin (round_sig 53 (4 / 5)) < Fin 0"
  by (code_simp, simp add: float64_ratio_zero, code_simp, code_simp, code_simp)

lemma demo_name_order [simp]: "''n1'' < ''n3''" "\<not> ''n3'' < ''n1''"
  by code_simp+

abbreviation demo_ctx :: "gofloat \<Rightarrow> node \<Rightarrow> assignmentContext" where
  "demo_ctx p n \<equiv> newAssignmentContext p n demo_pl"

lemma demo_pods: "getPodsOnNodes demo_caches = [(''n2'', plc_pods demo_caches)]"
  by (simp add: getPodsOnNodes_def demo_caches_def group_append_def)

lemma demo_percent:
  "percentFull (getPodsOnNodes demo_caches) (demo_node ''n1'' ls ts) = Fin 0"
  "percentFull (getPodsOnNodes demo_caches) (demo_node ''n2'' ls ts) = Fin (1 / 2)"
  "percentFull (getPodsOnNodes demo_caches) (demo_node ''n3'' ls ts) = Fin 0"
  unfolding demo_pods percentFull_def getNodePercentFullMemory_def getNodePercentFullCPU_def pods_of_def
  by (simp_all add: demo_ratios demo_node_def demo_meta_def demo_caches_def add_requests_def wrap64_id fits64_def)

lemma demo_contexts:
  "nodesWithPercent demo_caches demo_pl demo_nodes =
     [demo_ctx (Fin 0) (demo_nodes ! 0), demo_ctx (Fin (1 / 2)) (demo_nodes ! 1), demo_ctx (Fin 0) (demo_nodes ! 2)]"
  "nodesWithPercent demo_caches demo_pl (rev demo_nodes) =
     [demo_ctx (Fin 0) (demo_nodes ! 2), demo_ctx (Fin (1 / 2)) (demo_nodes ! 1), demo_ctx (Fin 0) (demo_nodes ! 0)]"
proof -
  have b: "NodeCanBeBalanced (demo_node nm ls ts)" for nm ls ts
    by (simp add: NodeCanBeBalanced_def demo_node_def)
  show "nodesWithPercent demo_caches demo_pl demo_nodes =
     [demo_ctx (Fin 0) (demo_nodes ! 0), demo_ctx (Fin (1 / 2)) (demo_nodes ! 1), demo_ctx (Fin 0) (demo_nodes ! 2)]"
   "nodesWithPercent demo_caches demo_pl (rev demo_nodes) =
     [demo_ctx (Fin 0) (demo_nodes ! 2), demo_ctx (Fin (1 / 2)) (demo_nodes ! 1), demo_ctx (Fin 0) (demo_nodes ! 0)]"
    by (simp_all add: nodesWithPercent_def demo_nodes_def b demo_percent)
qed

lemma demo_ctx_simps [simp]:
  "ac_percentFull (demo_ctx p n) = p" "ac_node (demo_ctx p n) = n"
  "node_Name (demo_nodes ! 0) = ''n1''" "node_Name (demo_nodes ! Suc 0) = ''n2''" "node_Name (demo_nodes ! 2) = ''n3''"
  by (simp_all add: newAssignmentContext_def demo_nodes_def demo_node_def demo_meta_def)

lemma demo_comparable:
  "comparable (nodesWithPercent demo_caches demo_pl demo_nodes)"
  "comparable (nodesWithPercent demo_caches demo_pl (rev demo_nodes))"
  by (simp_all add: demo_contexts comparable_def)

lemma demo_order:
  "balance_order demo_caches demo_pl demo_nodes =
     [demo_ctx (Fin (1 / 2)) (demo_nodes ! 1), demo_ctx (Fin 0) (demo_nodes ! 2), demo_ctx (Fin 0) (demo_nodes ! 0)]"
  by (simp add: balance_order_def demo_contexts sort_slice_def fuller_def float_eq_def)

lemma demo_states: "balance_states demo_caches demo_pl demo_nodes = [nodeUse, nodeAvoid, nodeDeny]"
proof -
  have p: "na_PackLeft demo_pl = None" by (simp add: demo_pl_def demo_assignment_def)
  show ?thesis
    using demo_ratios(5) by (simp add: balance_states_def demo_order nextState_def fullMark_def avoidBuffer_def p)
qed

theorem balance_order_deterministic_witness:
  "sort_slice fuller (nodesWithPercent demo_caches demo_pl (rev demo_nodes)) =
   sort_slice fuller (nodesWithPercent demo_caches demo_pl demo_nodes)"
proof -
  have "slice_sorted fuller (nodesWithPercent demo_caches demo_pl (rev demo_nodes))
      (sort_slice fuller (nodesWithPercent demo_caches demo_pl (rev demo_nodes)))"
    by (intro sort_slice_sorted fuller_total demo_comparable)
  then show ?thesis
    using balance_order_deterministic [OF demo_comparable(1), of "rev demo_nodes"] by simp
qed

theorem balance_states_correct_witness:
  "sorted (balance_states demo_caches demo_pl demo_nodes) \<and>
   count_list (balance_states demo_caches demo_pl demo_nodes) nodeAvoid = 1"
proof -
  show ?thesis using balance_states_correct [OF demo_comparable(1) demo_order] demo_states by simp
qed

theorem balanceNodes_effect_witness:
  "\<exists>metric' s' m. balanceNodes mem_kube demo_caches demo_nodes (packleft_key ''io'') demo_pl Map.empty demo_pl_mem
      = (Inr (), metric', s') \<and>
    find (\<lambda>m. node_Name m = ''n1'') (mem_nodes s') = Some m \<and>
    mget (node_Labels m) (packleft_key ''io'') = Some ''Deny''"
proof -
  have w: "wf_view (mem_nodes demo_pl_mem)" "set demo_nodes \<subseteq> set (mem_nodes demo_pl_mem)" "distinct demo_nodes"
    by (simp_all add: demo_pl_mem_def demo_nodes_def wf_view_def wf_node_def wf_map_def names_def demo_defs)
  have n: "length (balance_order demo_caches demo_pl demo_nodes) = 3"
    "ac_name (balance_order demo_caches demo_pl demo_nodes ! 2) = ''n1''"
    by (simp_all add: demo_order)
  obtain metric' s' where b: "balanceNodes mem_kube demo_caches demo_nodes (packleft_key ''io'') demo_pl Map.empty demo_pl_mem
      = (Inr (), metric', s')"
    and e: "\<forall>i < 3. \<exists>m. find (\<lambda>m. node_Name m = ac_name (balance_order demo_caches demo_pl demo_nodes ! i)) (mem_nodes s') = Some m \<and>
       has_state (packleft_key ''io'') (balance_states demo_caches demo_pl demo_nodes ! i)
         (ac_node (balance_order demo_caches demo_pl demo_nodes ! i)) m"
    using balanceNodes_effect [OF mem_reliable.reliable_node_api_axioms w, of demo_caches "packleft_key ''io''" demo_pl Map.empty]
      n(1) by (elim exE conjE) simp
  obtain m where "find (\<lambda>m. node_Name m = ''n1'') (mem_nodes s') = Some m"
    "mget (node_Labels m) (packleft_key ''io'') = Some ''Deny''"
    using spec [OF e, of 2] n(2) demo_states by (auto simp: has_state_def)
  then show ?thesis using b by blast
qed

theorem state_write_idempotent_witness:
  "\<exists>n1. fst (pl_assignNode (newAssignmentContext (Fin 0) (hd demo_nodes) demo_pl) nodeDeny (packleft_key ''io'') Map.empty) = Inr n1 \<and>
    fst (pl_assignNode ((newAssignmentContext (Fin 0) (hd demo_nodes) demo_pl)\<lparr>ac_node := n1\<rparr>) nodeDeny (packleft_key ''io'')
      (snd (pl_assignNode (newAssignmentContext (Fin 0) (hd demo_nodes) demo_pl) nodeDeny (packleft_key ''io'') Map.empty))) = Inr n1"
proof -
  let ?x = "newAssignmentContext (Fin 0) (hd demo_nodes) demo_pl"
  have l: "node_Labels (ac_node ?x) \<noteq> None" "n_Taints (ac_node ?x) = []"
    by (simp_all add: newAssignmentContext_def demo_nodes_def demo_defs)
  obtain n1 g1 where a: "pl_assignNode ?x nodeDeny (packleft_key ''io'') Map.empty = (Inr n1, g1)"
    using pl_assignNode_ok [OF l(1)] by blast
  show ?thesis using state_write_idempotent [OF a] l(2) a by simp
qed

theorem unassignNode_cleans_witness:
  "\<not> NodeHasPackLeftAttributes (unassignNode (demo_node ''n1'' [(packleft_key ''io'', ''Use'')] []) (packleft_key ''io''))
      (demo_nag [] None)"
  using unassignNode_cleans [of "demo_node ''n1'' [(packleft_key ''io'', ''Use'')] []" "demo_nag [] None"]
  by (simp add: demo_defs)

theorem CleanAllNodes_skips_assigned_witness:
  "CleanAllNodes mem_kube demo_caches (demo_nag [demo_pl] None) demo_pl_mem = (None, demo_pl_mem)"
proof -
  have "\<forall>n \<in> set (plc_nodes demo_caches). NodeHasPackLeftAssignment n (demo_nag [demo_pl] None) \<and> NodeCanBeBalanced n"
    by code_simp
  then show ?thesis by (rule CleanAllNodes_skips_assigned)
qed

end
