(* ===== verification/PackLeftController.thy ===== *)
theory PackLeftController
  imports PackLeftProofs
begin

text \<open>
  \<^verbatim>\<open>pkg/controller/scheduling/packleft/controller.go\<close> and \<^verbatim>\<open>pkg/metrics/registry.go\<close>: the registry of
  gauges, one per group, the function the work queue runs on a group, and the event handlers.
\<close>

section \<open>The registry of gauges\<close>

text \<open>\<open>reg_gauges\<close> is the map of the registry; \<open>reg_registered\<close> the groups whose gauge Prometheus knows,
  which refuses a second registration with a panic.\<close>

record registry =
  reg_gauges :: "string \<rightharpoonup> gauge"
  reg_registered :: "string set"

definition NewRegistry :: "string set \<Rightarrow> registry" where
  "NewRegistry known = \<lparr>reg_gauges = Map.empty, reg_registered = known\<rparr>"

definition GetPackLeftPercentFull :: "string \<Rightarrow> registry \<Rightarrow> (gopanic + gauge) \<times> registry" where
  "GetPackLeftPercentFull name r =
     (case reg_gauges r name of
        Some g \<Rightarrow> (Inr g, r)
      | None \<Rightarrow>
          (let r1 = r\<lparr>reg_gauges := (reg_gauges r)(name \<mapsto> Map.empty)\<rparr> in
           if name \<in> reg_registered r1 then (Inl AlreadyRegistered, r1)
           else (Inr Map.empty, r1\<lparr>reg_registered := insert name (reg_registered r1)\<rparr>)))"

text \<open>The gauge is a pointer into the registry: a write through it is an update of the registry.\<close>

definition set_gauge :: "string \<Rightarrow> gauge \<Rightarrow> registry \<Rightarrow> registry" where
  "set_gauge name g r = r\<lparr>reg_gauges := (reg_gauges r)(name \<mapsto> g)\<rparr>"

section \<open>The function the queue runs\<close>

definition plc_process ::
    "('s, 'd, 'p) kube \<Rightarrow> plCaches \<Rightarrow> nag \<Rightarrow> registry \<times> 's \<Rightarrow> (gopanic + goerr option) \<times> registry \<times> 's" where
  "plc_process K c nag st =
     (case GetPackLeftPercentFull (nag_Name nag) (fst st) of
        (Inl p, r1) \<Rightarrow> (Inl p, r1, snd st)
      | (Inr metric, r1) \<Rightarrow>
          (let r2 = set_gauge (nag_Name nag) Map.empty r1 in
           if om_DeletionTimestamp (nag_meta nag) \<noteq> None then
             (case CleanAllNodes K c nag (snd st) of
                (Some err, s1) \<Rightarrow> (Inr (Some err), r2, s1)
              | (None, s1) \<Rightarrow>
                  (case pl_RemoveFinalizer K nag s1 of
                     (Some err, s2) \<Rightarrow> (Inr (Some err), r2, s2)
                   | (None, s2) \<Rightarrow> (Inr None, r2, s2)))
           else
             (case RebalanceNag K c nag Map.empty (snd st) of
                (Inl p, metric1, s1) \<Rightarrow> (Inl p, set_gauge (nag_Name nag) metric1 r2, s1)
              | (Inr _, metric1, s1) \<Rightarrow>
                  (Inr None, set_gauge (nag_Name nag) metric1 r2, CleanUnassignedNodes K c nag s1))))"

section \<open>The event handlers\<close>

record 'q plController =
  plq_queue :: "'q workqueue"
  plq_keyFunc :: "nag \<Rightarrow> goerr + string"
  plq_nags :: "nag list"
  plq_nodes :: "node list"

definition plc_addItem :: "'q plController \<Rightarrow> nag \<Rightarrow> 'q \<Rightarrow> 'q" where
  "plc_addItem c nag q = AddItem (plq_keyFunc c) (plq_queue c) nag q"

definition plc_queueAllNags :: "'q plController \<Rightarrow> 'q \<Rightarrow> 'q" where
  "plc_queueAllNags c q = fold (plc_addItem c) (plq_nags c) q"

definition plc_OnAddNode :: "'q plController \<Rightarrow> node \<Rightarrow> 'q \<Rightarrow> 'q" where
  "plc_OnAddNode c node q = plc_queueAllNags c q"

definition plc_OnUpdateNode :: "'q plController \<Rightarrow> node \<Rightarrow> node \<Rightarrow> 'q \<Rightarrow> 'q" where
  "plc_OnUpdateNode c oldNode newNode q =
     (if NodeTargetingHasChanged oldNode newNode \<or> NodeCanBeBalanced oldNode \<noteq> NodeCanBeBalanced newNode
      then plc_queueAllNags c q else q)"

definition getNodeAssignmentGroupsWithPackLeft :: "'q plController \<Rightarrow> node \<Rightarrow> nag list" where
  "getNodeAssignmentGroupsWithPackLeft c node =
     filter (\<lambda>nag. TargetsNode nag node \<and> NodeHasPackLeftAssignment node nag) (plq_nags c)"

definition plc_OnAddNag :: "'q plController \<Rightarrow> nag \<Rightarrow> 'q \<Rightarrow> 'q" where
  "plc_OnAddNag c nag q = plc_addItem c nag q"

definition ProcessPackLeftNagsForNode :: "'q plController \<Rightarrow> node \<Rightarrow> 'q \<Rightarrow> 'q" where
  "ProcessPackLeftNagsForNode c node q = fold (plc_OnAddNag c) (getNodeAssignmentGroupsWithPackLeft c node) q"

definition plc_OnDeleteNode :: "'q plController \<Rightarrow> node \<Rightarrow> 'q \<Rightarrow> 'q" where
  "plc_OnDeleteNode c node q = ProcessPackLeftNagsForNode c node q"

definition plc_OnUpdateNag :: "'q plController \<Rightarrow> nag \<Rightarrow> nag \<Rightarrow> 'q \<Rightarrow> 'q" where
  "plc_OnUpdateNag c oldNag newNag q = plc_addItem c newNag q"

definition plc_OnDeleteNag :: "'q plController \<Rightarrow> nag \<Rightarrow> 'q \<Rightarrow> 'q" where
  "plc_OnDeleteNag c nag q = plc_addItem c nag q"

definition getNodeHostingPod :: "'q plController \<Rightarrow> pod \<Rightarrow> node option" where
  "getNodeHostingPod c pod = find (\<lambda>node. node_Name node = p_NodeName pod) (plq_nodes c)"

definition ProcessPodNags :: "'q plController \<Rightarrow> pod \<Rightarrow> 'q \<Rightarrow> 'q" where
  "ProcessPodNags c pod q =
     (case getNodeHostingPod c pod of Some node \<Rightarrow> ProcessPackLeftNagsForNode c node q | None \<Rightarrow> q)"

definition plc_OnAddPod :: "'q plController \<Rightarrow> pod \<Rightarrow> 'q \<Rightarrow> 'q" where
  "plc_OnAddPod c pod q = ProcessPodNags c pod q"

definition plc_OnUpdatePod :: "'q plController \<Rightarrow> pod \<Rightarrow> pod \<Rightarrow> 'q \<Rightarrow> 'q" where
  "plc_OnUpdatePod c oldPod newPod q =
     (if p_NodeName oldPod \<noteq> p_NodeName newPod
      then (case getNodeHostingPod c newPod of Some node \<Rightarrow> plc_OnAddNode c node q | None \<Rightarrow> q)
      else q)"

definition plc_OnDeletePod :: "'q plController \<Rightarrow> pod \<Rightarrow> 'q \<Rightarrow> 'q" where
  "plc_OnDeletePod c pod q = ProcessPodNags c pod q"

text \<open>\<^verbatim>\<open>Run\<close>: the queue runs \<^verbatim>\<open>plc_process\<close> on the caches as they are. Its indexer is the cache of groups that
  \<^verbatim>\<open>NewController\<close> got, in which \<^verbatim>\<open>GetByKey\<close> finds an object under the key it was stored with.\<close>

definition plc_getByKey :: "'q plController \<Rightarrow> string \<Rightarrow> nag option" where
  "plc_getByKey c key = find (\<lambda>nag. plq_keyFunc c nag = Inr key) (plq_nags c)"

definition plc_worker ::
    "'q plController \<Rightarrow> ('s, 'd, 'p) kube \<Rightarrow> plCaches \<Rightarrow> ('q, nag, registry \<times> 's) retryingWorkQueue" where
  "plc_worker c K caches =
     \<lparr>rwq_queue = plq_queue c, rwq_indexer = Some (\<lambda>st key. Inr (plc_getByKey c key)),
      rwq_businessLogicFunc = plc_process K caches\<rparr>"

section \<open>The registry never panics\<close>

definition registry_ok :: "registry \<Rightarrow> bool" where
  "registry_ok r \<longleftrightarrow> reg_registered r = dom (reg_gauges r)"

lemma registry_ok_get:
  "registry_ok r \<Longrightarrow> \<exists>g r'. GetPackLeftPercentFull name r = (Inr g, r') \<and> registry_ok r' \<and> name \<in> dom (reg_gauges r')"
  by (auto simp: GetPackLeftPercentFull_def registry_ok_def Let_def split: option.splits)

lemma registry_ok_set: "registry_ok r \<Longrightarrow> name \<in> dom (reg_gauges r) \<Longrightarrow> registry_ok (set_gauge name g r)"
  by (auto simp: registry_ok_def set_gauge_def)

lemma plc_process_ok:
  assumes "registry_ok r"
  shows "\<exists>e r' s'. plc_process K c nag (r, s) = (Inr e, r', s') \<and> registry_ok r' \<and> nag_Name nag \<in> dom (reg_gauges r')"
proof -
  from registry_ok_get [OF assms] obtain g r1 where
    r1: "GetPackLeftPercentFull (nag_Name nag) r = (Inr g, r1)" "registry_ok r1" "nag_Name nag \<in> dom (reg_gauges r1)"
    by blast
  have ok: "registry_ok (set_gauge (nag_Name nag) h r1)" for h by (rule registry_ok_set [OF r1(2,3)])
  then have ok2: "registry_ok (set_gauge (nag_Name nag) h' (set_gauge (nag_Name nag) h r1))" for h h'
    by (rule registry_ok_set) (simp add: set_gauge_def)
  have dom: "nag_Name nag \<in> dom (reg_gauges (set_gauge (nag_Name nag) h r))" for h r by (simp add: set_gauge_def)
  obtain m s1 where "RebalanceNag K c nag Map.empty s = (Inr (), m, s1)"
    using RebalanceNag_total by meson
  then show ?thesis
    using r1(1) ok ok2 dom by (auto simp: plc_process_def Let_def simp del: domIff split: prod.splits option.splits)
qed

text \<open>The registry invariant. A fresh registry satisfies it, processing any group keeps it whatever the
  caches hold and the server answers, and under it processing never panics: the gauge of a group is
  registered once, and rebalancing itself cannot panic.\<close>

theorem plc_process_invariant:
  "registry_ok (NewRegistry {}) \<and>
   (registry_ok r \<longrightarrow> (\<exists>e r' s'. plc_process K c nag (r, s) = (Inr e, r', s') \<and> registry_ok r'))"
  using plc_process_ok [of r K c nag s] by (auto simp: NewRegistry_def registry_ok_def)

theorem plc_process_invariant_witness:
  "\<exists>e r' s'. plc_process mem_kube demo_caches demo_live (NewRegistry {}, demo_pl_mem) = (Inr e, r', s') \<and> registry_ok r'"
  using plc_process_invariant [of "NewRegistry {}" mem_kube demo_caches demo_live demo_pl_mem] by blast

section \<open>Deletion\<close>

text \<open>On deletion a failed clean-up keeps the finalizer: if \<^verbatim>\<open>CleanAllNodes\<close> fails its error is returned,
  so the queue retries the group, and the group itself has not been written.\<close>

theorem plc_deletion_keeps_finalizer:
  assumes "om_DeletionTimestamp (nag_meta nag) \<noteq> None" and "registry_ok r"
    and "CleanAllNodes K c nag s = (Some err, s1)"
  shows "\<exists>r'. plc_process K c nag (r, s) = (Inr (Some err), r', s1)"
proof -
  obtain g r1 where "GetPackLeftPercentFull (nag_Name nag) r = (Inr g, r1)"
    using registry_ok_get [OF assms(2)] by blast
  then show ?thesis using assms(1,3) by (simp add: plc_process_def Let_def)
qed

theorem plc_deletion_keeps_finalizer_witness:
  "\<exists>r' s'. plc_process broken_kube \<lparr>plc_nodes = [demo_node ''n1'' [(packleft_key ''io'', ''Deny'')] []], plc_pods = []\<rparr>
     demo_dying (NewRegistry {}, demo_mem) = (Inr (Some (OtherErr ''unavailable'')), r', s')"
proof -
  let ?c = "\<lparr>plc_nodes = [demo_node ''n1'' [(packleft_key ''io'', ''Deny'')] []], plc_pods = []\<rparr>"
  have d: "om_DeletionTimestamp (nag_meta demo_dying) \<noteq> None" by (simp add: demo_dying_def)
  have r: "registry_ok (NewRegistry {})" by (simp add: registry_ok_def NewRegistry_def)
  have "fst (CleanAllNodes broken_kube ?c demo_dying demo_mem) = Some (OtherErr ''unavailable'')"
    by code_simp
  then obtain s1 where "CleanAllNodes broken_kube ?c demo_dying demo_mem = (Some (OtherErr ''unavailable''), s1)"
    by (metis prod.collapse)
  from plc_deletion_keeps_finalizer [OF d r this] show ?thesis by blast
qed

section \<open>Which groups an event queues\<close>

definition plq_keys :: "'q plController \<Rightarrow> nag list \<Rightarrow> string set" where
  "plq_keys c gs = {k. \<exists>g \<in> set gs. plq_keyFunc c g = Inr k}"

lemma pend_fold_items:
  assumes "rate_limited_queue (plq_queue c) pend busy"
  shows "pend (fold (plc_addItem c) gs q) = pend q \<union> plq_keys c gs"
proof (induction gs arbitrary: q)
  case (Cons g gs)
  have "pend (plc_addItem c g q) = pend q \<union> plq_keys c [g]"
    using rate_limited_queue.add(1) [OF assms] by (auto simp: plc_addItem_def AddItem_def plq_keys_def split: sum.splits)
  then show ?case using Cons [of "plc_addItem c g q"] by (auto simp: plq_keys_def)
qed (simp add: plq_keys_def)

text \<open>The groups the events of one node concern.\<close>

definition groups_of_node :: "'q plController \<Rightarrow> node option \<Rightarrow> nag list" where
  "groups_of_node c n =
     (case n of None \<Rightarrow> [] | Some n \<Rightarrow> filter (\<lambda>g. TargetsNode g n \<and> NodeHasPackLeftAssignment n g) (plq_nags c))"

text \<open>The pod events. A new or deleted pod queues the groups with a PackLeft assignment on its node, a
  changed pod every group exactly when it came to a node the cache knows.\<close>

theorem pod_events_queue:
  assumes "rate_limited_queue (plq_queue c) pend busy"
  shows "pend (plc_OnAddPod c p q) = pend q \<union> plq_keys c (groups_of_node c (getNodeHostingPod c p)) \<and>
    pend (plc_OnDeletePod c p q) = pend q \<union> plq_keys c (groups_of_node c (getNodeHostingPod c p)) \<and>
    pend (plc_OnUpdatePod c p p' q) = pend q \<union>
      (if p_NodeName p \<noteq> p_NodeName p' \<and> p_NodeName p' \<in> set (names (plq_nodes c))
       then plq_keys c (plq_nags c) else {})"
proof -
  have a: "plc_OnAddNag c = plc_addItem c" by (simp add: fun_eq_iff plc_OnAddNag_def)
  have pod: "pend (ProcessPodNags c p q) = pend q \<union> plq_keys c (groups_of_node c (getNodeHostingPod c p))"
    using pend_fold_items [OF assms]
    by (simp add: ProcessPodNags_def ProcessPackLeftNagsForNode_def a groups_of_node_def plq_keys_def
        getNodeAssignmentGroupsWithPackLeft_def split: option.split)
  moreover have "getNodeHostingPod c p' = None \<longleftrightarrow> p_NodeName p' \<notin> set (names (plq_nodes c))"
    by (simp add: getNodeHostingPod_def find_names)
  ultimately show ?thesis
    using pend_fold_items [OF assms]
    by (auto simp: plc_OnAddPod_def plc_OnDeletePod_def plc_OnUpdatePod_def plc_OnAddNode_def
        plc_queueAllNags_def split: option.splits)
qed

definition demo_plq :: "memq plController" where
  "demo_plq = \<lparr>plq_queue = mem_queue, plq_keyFunc = (\<lambda>g. Inr (nag_Name g)), plq_nags = [demo_live], plq_nodes = demo_nodes\<rparr>"

theorem pod_events_queue_witness:
  "mem_pend (plc_OnUpdatePod demo_plq (demo_pod ''d'' []) ((demo_pod ''d'' [])\<lparr>p_NodeName := ''n1''\<rparr>)
     \<lparr>mq_waiting = [], mq_busy = [], mq_requeues = []\<rparr>) = {''io''}"
proof -
  have l: "rate_limited_queue (plq_queue demo_plq) mem_pend mem_busy"
    using mem_rlq.rate_limited_queue_axioms by (simp add: demo_plq_def)
  show ?thesis using pod_events_queue [OF l]
    by (simp add: mem_pend_def plq_keys_def demo_plq_def demo_pod_def demo_nodes_def names_def demo_node_def demo_meta_def)
qed

section \<open>The controller's own writes\<close>

lemma pl_node_targetable:
  "targetable (node_Labels (pl_node (packleft_key g) st n)) = targetable (node_Labels n)"
  by (rule targetable_agree) (auto simp: valet_key_def)

lemma unassign_targetable:
  "targetable (node_Labels (unassignNode n (packleft_key g))) = targetable (node_Labels n)"
  by (rule targetable_agree)
    (auto simp: unassignNode_def removeTaint_def set_node_Labels_def gomap_simps valet_key_def)

text \<open>C37: neither writing a PackLeft state to a node nor taking it off makes the PackLeft controller or the
  node assignment controller queue a group.\<close>

theorem packleft_writes_do_not_requeue:
  assumes "wf_map (node_Labels (ac_node ctx))"
    and "pl_assignNode ctx st (packleft_key g) metric = (Inr n', metric')"
    and "m = n' \<or> m = unassignNode (ac_node ctx) (packleft_key g)"
  shows "plc_OnUpdateNode c (ac_node ctx) m q = q \<and> nac_OnUpdateNode c' (ac_node ctx) m q' = q'"
proof -
  have lab: "node_Labels (ac_node ctx) \<noteq> None"
    using assms(2) by (auto simp: pl_assignNode_def mput_def Let_def split: option.splits)
  then have n': "n' = pl_node (packleft_key g) st (ac_node ctx)" using assms(2) by (simp add: pl_assignNode_ok)
  have "wf_map (node_Labels m)"
    using assms(1,3) n' by (auto simp: pl_node_def wf_map_def distinct_update unassignNode_def removeTaint_def
        set_node_Labels_def intro: wf_map_mdel [unfolded wf_map_def])
  moreover have "targetable (node_Labels m) = targetable (node_Labels (ac_node ctx))"
    using assms(3) by (auto simp: n' pl_node_targetable unassign_targetable)
  moreover have "NodeCanBeBalanced m = NodeCanBeBalanced (ac_node ctx)"
    using assms(3) by (auto simp: n' pl_node_def unassignNode_def removeTaint_def NodeCanBeBalanced_def set_node_Labels_def)
  ultimately show ?thesis
    using assms(1) by (simp add: plc_OnUpdateNode_def nac_OnUpdateNode_def NodeTargetingHasChanged_def scan_difference)
qed

theorem packleft_writes_do_not_requeue_witness:
  "plc_OnUpdateNode demo_plq (hd demo_nodes) (unassignNode (hd demo_nodes) (packleft_key ''io'')) demo_memq = demo_memq"
proof -
  let ?x = "newAssignmentContext (Fin 0) (hd demo_nodes) demo_pl"
  have w: "wf_map (node_Labels (ac_node ?x))" "node_Labels (ac_node ?x) \<noteq> None"
    by (simp_all add: newAssignmentContext_def demo_nodes_def demo_defs wf_map_def)
  obtain n' g' where "pl_assignNode ?x nodeUse (packleft_key ''io'') Map.empty = (Inr n', g')"
    using pl_assignNode_ok [OF w(2)] by blast
  from packleft_writes_do_not_requeue [where c = demo_plq and q = demo_memq and c' = demo_controller
      and q' = demo_memq, OF w(1) this disjI2 [OF refl]]
  show ?thesis by simp
qed

end
