(* ===== verification/PodRules.thy ===== *)
theory PodRules
  imports KubeApi Queue
begin

text \<open>
  Pod scheduling rules: the last third of \<^verbatim>\<open>pkg/apis/assignments/v1alpha1/helpers.go\<close> (a rule as a
  change of a pod and as JSON-patch operations) and \<^verbatim>\<open>pkg/controller/podassignment\<close> (the manager
  that collects the rules of a pod for the webhook, and the event handlers). The caches are a record
  of what \<^verbatim>\<open>cache.ListAll\<close> and \<^verbatim>\<open>cache.ListAllByNamespace\<close> visit. Who applies a JSON patch is
  outside the repository: the locale \<open>strict_json_patch\<close> is the meaning RFC 6902 gives to \<^verbatim>\<open>replace\<close>, whose
  target must exist; \<open>json_patch\<close> is the part of it that implementations agree on, the replacement of a path
  that is present.
\<close>

section \<open>One rule\<close>

definition GetMergeStrategy :: "podAssignmentRuleScheduling \<Rightarrow> string" where
  "GetMergeStrategy s =
     (if prs_MergeStrategy s = MergeStrategyUndefined then MergeStrategyDefault else prs_MergeStrategy s)"

definition ApplyToPod :: "podAssignmentRuleScheduling \<Rightarrow> pod \<Rightarrow> pod" where
  "ApplyToPod s pod =
     (if GetMergeStrategy s = MergeStrategyOverwriteAll then
        (let pod1 = (if length (mitems (prs_NodeSelector s)) \<noteq> 0
                     then pod\<lparr>p_NodeSelector := prs_NodeSelector s\<rparr> else pod);
             pod2 = (if prs_Affinity s \<noteq> None then pod1\<lparr>p_Affinity := prs_Affinity s\<rparr> else pod1)
         in if length (prs_Tolerations s) \<noteq> 0 then pod2\<lparr>p_Tolerations := prs_Tolerations s\<rparr> else pod2)
      else pod)"

definition GetPatchOps :: "podAssignmentRuleScheduling \<Rightarrow> pod \<Rightarrow> jsonPatchOperation list" where
  "GetPatchOps s pod =
     (if GetMergeStrategy s = MergeStrategyOverwriteAll then
        (let ops1 = (if length (mitems (prs_NodeSelector s)) \<noteq> 0
               then [\<lparr>jp_Op = ''replace'', jp_Path = ''/spec/nodeSelector'', jp_Value = NodeSelectorV (prs_NodeSelector s)\<rparr>]
               else []);
             ops2 = (case prs_Affinity s of
                 Some a \<Rightarrow> ops1 @ [\<lparr>jp_Op = ''replace'', jp_Path = ''/spec/affinity'', jp_Value = AffinityV a\<rparr>]
               | None \<Rightarrow> ops1)
         in if length (prs_Tolerations s) \<noteq> 0
            then ops2 @ [\<lparr>jp_Op = ''replace'', jp_Path = ''/spec/tolerations'', jp_Value = TolerationsV (prs_Tolerations s)\<rparr>]
            else ops2)
      else [])"

section \<open>The manager\<close>

text \<open>The objects a listing visits before it ends, and the error it ends with.\<close>

record podManager =
  pm_cpars :: "clusterPodAssignmentRule list \<times> goerr option"
  pm_pars :: "string \<Rightarrow> podAssignmentRule list \<times> goerr option"

definition ProtectedPodLabelKey :: string where
  "ProtectedPodLabelKey = ''pod.initializer.kube-valet.io/protected''"

definition PodIsProtected :: "pod \<Rightarrow> bool" where
  "PodIsProtected pod = any_in (\<lambda>(k, v). k = ProtectedPodLabelKey \<and> v = ProtectedLabelValue) (mitems (pod_Labels pod))"

definition GetPodAssignmentsScheduling :: "podManager \<Rightarrow> pod \<Rightarrow> podAssignmentRuleScheduling list" where
  "GetPodAssignmentsScheduling m pod =
     (let r1 = fold (\<lambda>obj r. if Cpar_TargetsPod obj pod then r @ [par_Scheduling (cpar_Spec obj)] else r)
                 (fst (pm_cpars m)) []
      in fold (\<lambda>obj r. if Par_TargetsPod obj pod then r @ [par_Scheduling (par_Spec obj)] else r)
           (fst (pm_pars m (om_Namespace (p_meta pod)))) r1)"

definition GetPodSchedulingPatches :: "podManager \<Rightarrow> pod \<Rightarrow> jsonPatchOperation list" where
  "GetPodSchedulingPatches m pod =
     (if \<not> PodIsProtected pod
      then fold (\<lambda>s patchOps. patchOps @ GetPatchOps s pod) (GetPodAssignmentsScheduling m pod) []
      else [])"

section \<open>The event handlers\<close>

record 'q podController =
  pc_queue :: "'q workqueue"
  pc_keyFunc :: "pod \<Rightarrow> goerr + string"
  pc_parMan :: podManager

definition pc_OnAddPod :: "'q podController \<Rightarrow> pod \<Rightarrow> 'q \<Rightarrow> 'q" where
  "pc_OnAddPod c pod q = AddItem (pc_keyFunc c) (pc_queue c) pod q"

definition pc_OnUpdatePod :: "'q podController \<Rightarrow> pod \<Rightarrow> pod \<Rightarrow> 'q \<Rightarrow> 'q" where
  "pc_OnUpdatePod c oldPod newPod q =
     (if om_ResourceVersion (p_meta oldPod) \<noteq> om_ResourceVersion (p_meta newPod)
         \<or> om_UID (p_meta oldPod) \<noteq> om_UID (p_meta newPod)
      then AddItem (pc_keyFunc c) (pc_queue c) newPod q else q)"

definition pc_OnDeletePod :: "'q podController \<Rightarrow> pod \<Rightarrow> 'q \<Rightarrow> 'q" where
  "pc_OnDeletePod c pod q = AddItem (pc_keyFunc c) (pc_queue c) pod q"

definition PodManager :: "'q podController \<Rightarrow> podManager" where
  "PodManager c = pc_parMan c"

section \<open>The rules of a pod, without loops\<close>

lemma fold_collect: "fold (\<lambda>x r. if P x then r @ [f x] else r) xs acc = acc @ map f (filter P xs)"
  by (induction xs arbitrary: acc) auto

lemma fold_append: "fold (\<lambda>x r. r @ f x) xs acc = acc @ concat (map f xs)"
  by (induction xs arbitrary: acc) auto

definition cluster_rules :: "podManager \<Rightarrow> pod \<Rightarrow> podAssignmentRuleScheduling list" where
  "cluster_rules m p = map (par_Scheduling \<circ> cpar_Spec) (filter (\<lambda>r. Cpar_TargetsPod r p) (fst (pm_cpars m)))"

definition namespace_rules :: "podManager \<Rightarrow> pod \<Rightarrow> podAssignmentRuleScheduling list" where
  "namespace_rules m p =
     map (par_Scheduling \<circ> par_Spec) (filter (\<lambda>r. Par_TargetsPod r p) (fst (pm_pars m (om_Namespace (p_meta p)))))"

lemma GetPodAssignmentsScheduling_eq:
  "GetPodAssignmentsScheduling m p = cluster_rules m p @ namespace_rules m p"
  by (simp add: GetPodAssignmentsScheduling_def fold_collect cluster_rules_def namespace_rules_def comp_def)

lemma GetPodSchedulingPatches_eq:
  "GetPodSchedulingPatches m p =
     (if PodIsProtected p then [] else concat (map (\<lambda>s. GetPatchOps s p) (cluster_rules m p @ namespace_rules m p)))"
  by (simp add: GetPodSchedulingPatches_def GetPodAssignmentsScheduling_eq fold_append)


section \<open>The meaning of a patch\<close>

text \<open>A path is present in the encoding of a pod when its field is not empty (\<^verbatim>\<open>omitempty\<close>).\<close>

definition has_path :: "string \<Rightarrow> pod \<Rightarrow> bool" where
  "has_path path p =
     (if path = ''/spec/nodeSelector'' then mitems (p_NodeSelector p) \<noteq> []
      else if path = ''/spec/affinity'' then p_Affinity p \<noteq> None
      else path = ''/spec/tolerations'' \<and> p_Tolerations p \<noteq> [])"

primrec value_path :: "patchValue \<Rightarrow> string" where
  "value_path (NodeSelectorV m) = ''/spec/nodeSelector''"
| "value_path (AffinityV a) = ''/spec/affinity''"
| "value_path (TolerationsV ts) = ''/spec/tolerations''"

primrec put_value :: "patchValue \<Rightarrow> pod \<Rightarrow> pod" where
  "put_value (NodeSelectorV m) p = p\<lparr>p_NodeSelector := m\<rparr>"
| "put_value (AffinityV a) p = p\<lparr>p_Affinity := Some a\<rparr>"
| "put_value (TolerationsV ts) p = p\<lparr>p_Tolerations := ts\<rparr>"

primrec value_empty :: "patchValue \<Rightarrow> bool" where
  "value_empty (NodeSelectorV m) = (mitems m = [])"
| "value_empty (AffinityV a) = False"
| "value_empty (TolerationsV ts) = (ts = [])"

text \<open>A replacement of one of the three paths by a non-empty value of the type that path has.\<close>

definition replace_ok :: "jsonPatchOperation \<Rightarrow> bool" where
  "replace_ok op \<longleftrightarrow> jp_Op op = ''replace'' \<and> jp_Path op = value_path (jp_Value op) \<and> \<not> value_empty (jp_Value op)"

fun apply_ops ::
    "(jsonPatchOperation \<Rightarrow> pod \<Rightarrow> pod option) \<Rightarrow> jsonPatchOperation list \<Rightarrow> pod \<Rightarrow> pod option" where
  "apply_ops ap [] p = Some p"
| "apply_ops ap (op # ops) p = (case ap op p of None \<Rightarrow> None | Some p' \<Rightarrow> apply_ops ap ops p')"

locale json_patch =
  fixes ap :: "jsonPatchOperation \<Rightarrow> pod \<Rightarrow> pod option"
  assumes replace_present:
    "replace_ok op \<Longrightarrow> has_path (jp_Path op) p \<Longrightarrow> ap op p = Some (put_value (jp_Value op) p)"

locale strict_json_patch = json_patch +
  assumes replace_missing: "replace_ok op \<Longrightarrow> \<not> has_path (jp_Path op) p \<Longrightarrow> ap op p = None"

definition put_values :: "jsonPatchOperation list \<Rightarrow> pod \<Rightarrow> pod" where
  "put_values ops p = fold (\<lambda>op. put_value (jp_Value op)) ops p"

lemma put_values_simps [simp]:
  "put_values [] p = p" "put_values (op # ops) p = put_values ops (put_value (jp_Value op) p)"
  "put_values (ops @ ops') p = put_values ops' (put_values ops p)"
  by (simp_all add: put_values_def)

lemma has_path_put:
  "replace_ok op \<Longrightarrow> has_path path (put_value (jp_Value op) p) \<longleftrightarrow> path = jp_Path op \<or> has_path path p"
  by (cases "jp_Value op") (auto simp: replace_ok_def has_path_def)

context json_patch
begin

lemma applied_present:
  "\<forall>op \<in> set ops. replace_ok op \<and> has_path (jp_Path op) p \<Longrightarrow> apply_ops ap ops p = Some (put_values ops p)"
proof (induction ops arbitrary: p)
  case (Cons op ops)
  then have "ap op p = Some (put_value (jp_Value op) p)" by (simp add: replace_present)
  moreover have "\<forall>op' \<in> set ops. replace_ok op' \<and> has_path (jp_Path op') (put_value (jp_Value op) p)"
    using Cons.prems by (auto simp: has_path_put)
  ultimately show ?case using Cons.IH by simp
qed simp

end

context strict_json_patch
begin

lemma applied:
  "\<forall>op \<in> set ops. replace_ok op \<Longrightarrow>
   apply_ops ap ops p = (if \<forall>op \<in> set ops. has_path (jp_Path op) p then Some (put_values ops p) else None)"
proof (induction ops arbitrary: p)
  case (Cons op ops)
  show ?case
  proof (cases "has_path (jp_Path op) p")
    case True
    then have "ap op p = Some (put_value (jp_Value op) p)" using Cons.prems by (simp add: replace_present)
    moreover have "has_path (jp_Path op') (put_value (jp_Value op) p) \<longleftrightarrow> has_path (jp_Path op') p" for op' :: jsonPatchOperation
      using Cons.prems True by (auto simp: has_path_put)
    ultimately show ?thesis using Cons True by simp
  next
    case False
    then show ?thesis using Cons.prems by (simp add: replace_missing)
  qed
qed simp

end

text \<open>\<^verbatim>\<open>replace\<close> as the RFC has it, and in the reading of implementations that create an absent field.\<close>

definition mem_patch :: "bool \<Rightarrow> jsonPatchOperation \<Rightarrow> pod \<Rightarrow> pod option" where
  "mem_patch strict op p =
     (if replace_ok op \<and> (strict \<longrightarrow> has_path (jp_Path op) p) then Some (put_value (jp_Value op) p) else None)"

interpretation mem_lenient: json_patch "mem_patch False"
  by unfold_locales (simp_all add: mem_patch_def)

interpretation mem_strict: strict_json_patch "mem_patch True"
  by unfold_locales (simp_all add: mem_patch_def)

section \<open>The operations of a rule\<close>

lemma GetPatchOps_typed: "op \<in> set (GetPatchOps s p) \<Longrightarrow> replace_ok op"
  by (auto simp: GetPatchOps_def Let_def replace_ok_def split: if_splits option.splits)

lemma GetPatchOps_ApplyToPod: "put_values (GetPatchOps s p') p = ApplyToPod s p"
  by (auto simp: GetPatchOps_def ApplyToPod_def Let_def split: option.splits)

text \<open>What a rule demands of a pod.\<close>

definition overwrites :: "podAssignmentRuleScheduling \<Rightarrow> bool" where
  "overwrites s \<longleftrightarrow> prs_MergeStrategy s = MergeStrategyUndefined \<or> prs_MergeStrategy s = MergeStrategyOverwriteAll"

definition rule_paths :: "podAssignmentRuleScheduling \<Rightarrow> string set" where
  "rule_paths s = {path. overwrites s \<and>
     (path = ''/spec/nodeSelector'' \<and> mitems (prs_NodeSelector s) \<noteq> [] \<or>
      path = ''/spec/affinity'' \<and> prs_Affinity s \<noteq> None \<or>
      path = ''/spec/tolerations'' \<and> prs_Tolerations s \<noteq> [])}"

lemmas merge_strategy_defs =
  MergeStrategyDefault_def MergeStrategyOverwriteAll_def MergeStrategyUndefined_def

lemma GetMergeStrategy_overwrites: "GetMergeStrategy s = MergeStrategyOverwriteAll \<longleftrightarrow> overwrites s"
  by (auto simp: GetMergeStrategy_def overwrites_def merge_strategy_defs)

lemma GetPatchOps_paths: "jp_Path ` set (GetPatchOps s p) = rule_paths s"
  by (auto simp: GetPatchOps_def GetMergeStrategy_overwrites rule_paths_def Let_def image_iff
      conj_disj_distribR ex_disj_distrib split: option.splits)

lemma put_values_rules: "put_values (concat (map (\<lambda>s. GetPatchOps s p') ss)) p = fold ApplyToPod ss p"
  by (induction ss arbitrary: p) (simp_all add: GetPatchOps_ApplyToPod)

text \<open>The rules of a pod in the order their operations are applied; none for a protected pod.\<close>

definition pod_rules :: "podManager \<Rightarrow> pod \<Rightarrow> podAssignmentRuleScheduling list" where
  "pod_rules m p = (if PodIsProtected p then [] else cluster_rules m p @ namespace_rules m p)"

lemma patches_of_rules: "GetPodSchedulingPatches m p = concat (map (\<lambda>s. GetPatchOps s p) (pod_rules m p))"
  by (simp add: GetPodSchedulingPatches_eq pod_rules_def)

lemma patches_typed: "op \<in> set (GetPodSchedulingPatches m p) \<Longrightarrow> replace_ok op"
  by (auto simp: patches_of_rules dest: GetPatchOps_typed)

lemma patches_paths: "jp_Path ` set (GetPodSchedulingPatches m p) = (\<Union>s \<in> set (pod_rules m p). rule_paths s)"
  by (auto simp: patches_of_rules GetPatchOps_paths [symmetric, where p = p])

section \<open>The pod after all rules\<close>

definition last_or :: "'a \<Rightarrow> 'a list \<Rightarrow> 'a" where
  "last_or d xs = (if xs = [] then d else last xs)"

lemma last_or_Cons: "last_or d (x # xs) = last_or x xs"
  by (simp add: last_or_def)

lemma last_or_append: "last_or d (xs @ ys) = last_or (last_or d xs) ys"
  by (simp add: last_or_def)

definition selectors :: "podAssignmentRuleScheduling list \<Rightarrow> string gomap list" where
  "selectors ss = map prs_NodeSelector (filter (\<lambda>s. ''/spec/nodeSelector'' \<in> rule_paths s) ss)"
definition affinities :: "podAssignmentRuleScheduling list \<Rightarrow> affinity option list" where
  "affinities ss = map prs_Affinity (filter (\<lambda>s. ''/spec/affinity'' \<in> rule_paths s) ss)"
definition tolerations :: "podAssignmentRuleScheduling list \<Rightarrow> toleration list list" where
  "tolerations ss = map prs_Tolerations (filter (\<lambda>s. ''/spec/tolerations'' \<in> rule_paths s) ss)"

definition scheduled_pod :: "podAssignmentRuleScheduling list \<Rightarrow> pod \<Rightarrow> pod" where
  "scheduled_pod ss p = p
     \<lparr>p_NodeSelector := last_or (p_NodeSelector p) (selectors ss),
      p_Affinity := last_or (p_Affinity p) (affinities ss),
      p_Tolerations := last_or (p_Tolerations p) (tolerations ss)\<rparr>"

lemma ApplyToPod_one: "ApplyToPod s p = scheduled_pod [s] p"
  by (auto simp: ApplyToPod_def scheduled_pod_def GetMergeStrategy_overwrites selectors_def affinities_def
      tolerations_def rule_paths_def last_or_def Let_def)

lemma scheduled_pod_Nil [simp]: "scheduled_pod [] p = p"
  by (simp add: scheduled_pod_def selectors_def affinities_def tolerations_def last_or_def)

lemma scheduled_pod_append: "scheduled_pod (ss @ ss') p = scheduled_pod ss' (scheduled_pod ss p)"
  by (simp add: scheduled_pod_def selectors_def affinities_def tolerations_def last_or_append)

lemma fold_ApplyToPod: "fold ApplyToPod ss p = scheduled_pod ss p"
proof (induction ss arbitrary: p)
  case (Cons s ss)
  then show ?case using scheduled_pod_append [of "[s]" ss p] by (simp add: ApplyToPod_one)
qed simp


text \<open>Every field the rules of the pod set is there already.\<close>

definition rules_fit :: "podManager \<Rightarrow> pod \<Rightarrow> bool" where
  "rules_fit m p \<longleftrightarrow> (\<forall>s \<in> set (pod_rules m p). \<forall>path \<in> rule_paths s. has_path path p)"

lemma rules_fit_iff: "rules_fit m p \<longleftrightarrow> (\<forall>op \<in> set (GetPodSchedulingPatches m p). has_path (jp_Path op) p)"
proof -
  have "(\<forall>op \<in> set (GetPodSchedulingPatches m p). has_path (jp_Path op) p) \<longleftrightarrow>
      (\<forall>path \<in> jp_Path ` set (GetPodSchedulingPatches m p). has_path path p)" by simp
  then show ?thesis by (simp add: patches_paths rules_fit_def)
qed

lemma patches_effect:
  "json_patch ap \<Longrightarrow> rules_fit m p \<Longrightarrow>
   apply_ops ap (GetPodSchedulingPatches m p) p = Some (fold ApplyToPod (pod_rules m p) p)"
  using json_patch.applied_present [of ap "GetPodSchedulingPatches m p" p] patches_typed
  by (simp add: rules_fit_iff patches_of_rules put_values_rules)

lemma strict_patches_effect:
  "strict_json_patch ap \<Longrightarrow> apply_ops ap (GetPodSchedulingPatches m p) p =
     (if rules_fit m p then Some (fold ApplyToPod (pod_rules m p) p) else None)"
  using strict_json_patch.applied [of ap "GetPodSchedulingPatches m p" p] patches_typed
  by (simp add: rules_fit_iff patches_of_rules put_values_rules)

section \<open>The properties\<close>

text \<open>C38: the operations the webhook sends are well typed. Every operation replaces one of the three paths by a
  non-empty value of the type the path has in a pod, whatever the rules contain.\<close>

theorem patches_well_typed:
  "\<forall>op \<in> set (GetPodSchedulingPatches m p). jp_Op op = ''replace'' \<and> \<not> value_empty (jp_Value op) \<and>
     jp_Path op = (case jp_Value op of NodeSelectorV _ \<Rightarrow> ''/spec/nodeSelector''
       | AffinityV _ \<Rightarrow> ''/spec/affinity'' | TolerationsV _ \<Rightarrow> ''/spec/tolerations'')"
proof
  fix op
  assume "op \<in> set (GetPodSchedulingPatches m p)"
  from patches_typed [OF this] show "jp_Op op = ''replace'' \<and> \<not> value_empty (jp_Value op) \<and>
     jp_Path op = (case jp_Value op of NodeSelectorV _ \<Rightarrow> ''/spec/nodeSelector''
       | AffinityV _ \<Rightarrow> ''/spec/affinity'' | TolerationsV _ \<Rightarrow> ''/spec/tolerations'')"
    by (cases "jp_Value op") (simp_all add: replace_ok_def)
qed

definition demo_rule :: "string \<Rightarrow> podAssignmentRuleScheduling" where
  "demo_rule zone = \<lparr>prs_MergeStrategy = '''', prs_NodeSelector = Some [(''zone'', zone)], prs_Affinity = None,
     prs_Tolerations = []\<rparr>"

definition demo_podman :: podManager where
  "demo_podman = \<lparr>
     pm_cpars = ([\<lparr>cpar_meta = demo_meta ''all'' None, cpar_Spec = \<lparr>par_TargetLabels = [], par_Scheduling = demo_rule ''a''\<rparr>\<rparr>], None),
     pm_pars = (\<lambda>ns. if ns = ''d''
       then ([\<lparr>par_meta = demo_meta ''one'' None, par_Spec = \<lparr>par_TargetLabels = [], par_Scheduling = demo_rule ''b''\<rparr>\<rparr>], None)
       else ([], None))\<rparr>"

theorem patches_well_typed_witness:
  "\<exists>op. GetPodSchedulingPatches demo_podman (demo_pod ''e'' []) = [op] \<and> jp_Path op = ''/spec/nodeSelector''"
proof -
  have "GetPodSchedulingPatches demo_podman (demo_pod ''e'' []) =
      [\<lparr>jp_Op = ''replace'', jp_Path = ''/spec/nodeSelector'', jp_Value = NodeSelectorV (Some [(''zone'', ''a'')])\<rparr>]"
    by code_simp
  then show ?thesis using patches_well_typed [of demo_podman "demo_pod ''e'' []"] by simp
qed

text \<open>C28: patching equals applying the rules. When the pod has every field that its rules set, which is what
  \<^verbatim>\<open>replace\<close> demands of its target, the patch the webhook sends turns the pod into the one \<^verbatim>\<open>ApplyToPod\<close>
  computes from the same rules, and in closed form: each of the three fields is taken from the last overwriting
  rule that sets it, where the rules of the pod's namespace come after the cluster-wide ones and so win. A
  protected pod is left alone, whatever fields it has.\<close>

theorem patch_is_ApplyToPod:
  assumes "json_patch ap"
    and "\<And>s path. s \<in> set (pod_rules m p) \<Longrightarrow> path \<in> rule_paths s \<Longrightarrow> has_path path p"
  shows "apply_ops ap (GetPodSchedulingPatches m p) p =
      Some (if PodIsProtected p then p else fold ApplyToPod (GetPodAssignmentsScheduling m p) p) \<and>
    (\<not> PodIsProtected p \<longrightarrow> fold ApplyToPod (GetPodAssignmentsScheduling m p) p =
       scheduled_pod (namespace_rules m p) (scheduled_pod (cluster_rules m p) p))"
proof -
  have "rules_fit m p" using assms(2) by (simp add: rules_fit_def)
  from patches_effect [OF assms(1) this] show ?thesis
    by (simp add: pod_rules_def GetPodAssignmentsScheduling_eq fold_ApplyToPod scheduled_pod_append)
qed

lemma demo_rule_paths: "path \<in> rule_paths (demo_rule z) \<Longrightarrow> path = ''/spec/nodeSelector''"
  by (simp add: rule_paths_def demo_rule_def)

text \<open>A pod with a node selector, which two rules replace.\<close>

definition placed_pod :: pod where
  "placed_pod = (demo_pod ''d'' [])\<lparr>p_NodeSelector := Some [(''zone'', ''z'')]\<rparr>"

theorem patch_is_ApplyToPod_witness:
  "apply_ops (mem_patch True) (GetPodSchedulingPatches demo_podman placed_pod) placed_pod =
     Some ((demo_pod ''d'' [])\<lparr>p_NodeSelector := Some [(''zone'', ''b'')]\<rparr>)"
proof -
  have u: "\<not> PodIsProtected placed_pod" by code_simp
  have "pod_rules demo_podman placed_pod = [demo_rule ''a'', demo_rule ''b'']" by code_simp
  then have s: "s = demo_rule ''a'' \<or> s = demo_rule ''b''" if "s \<in> set (pod_rules demo_podman placed_pod)" for s
    using that by simp
  have "has_path ''/spec/nodeSelector'' placed_pod" by (simp add: has_path_def placed_pod_def)
  then have f: "has_path path placed_pod" if "s \<in> set (pod_rules demo_podman placed_pod)" "path \<in> rule_paths s" for s path
    using s [OF that(1)] that(2) demo_rule_paths by auto
  have "scheduled_pod (namespace_rules demo_podman placed_pod)
      (scheduled_pod (cluster_rules demo_podman placed_pod) placed_pod) =
     (demo_pod ''d'' [])\<lparr>p_NodeSelector := Some [(''zone'', ''b'')]\<rparr>"
    by (simp add: namespace_rules_def cluster_rules_def demo_podman_def placed_pod_def demo_pod_def demo_meta_def Par_TargetsPod_def
        Cpar_TargetsPod_def Spec_TargetsPod_def scheduled_pod_def selectors_def affinities_def tolerations_def
        rule_paths_def demo_rule_def overwrites_def merge_strategy_defs last_or_def)
  then show ?thesis
    using patch_is_ApplyToPod [OF mem_strict.json_patch_axioms f] u by simp
qed

text \<open>C39: the error side of the same patch. Where \<^verbatim>\<open>replace\<close> demands that its path exists, as RFC 6902
  does, the patch is rejected exactly if some rule of the pod sets a field the pod does not have already, and
  otherwise has the same effect. One such rule is enough to have every pod without the field rejected.\<close>

theorem strict_patch_rejected:
  assumes "strict_json_patch ap"
  shows "apply_ops ap (GetPodSchedulingPatches m p) p =
    (if \<exists>s \<in> set (pod_rules m p). \<exists>path \<in> rule_paths s. \<not> has_path path p then None
     else Some (fold ApplyToPod (pod_rules m p) p))"
  using strict_patches_effect [OF assms, of m p] by (auto simp: rules_fit_def)

theorem strict_patch_rejected_witness:
  "apply_ops (mem_patch True) (GetPodSchedulingPatches demo_podman (demo_pod ''e'' [])) (demo_pod ''e'' []) = None"
proof -
  have "pod_rules demo_podman (demo_pod ''e'' []) = [demo_rule ''a'']" by code_simp
  moreover have "''/spec/nodeSelector'' \<in> rule_paths (demo_rule ''a'')" "\<not> has_path ''/spec/nodeSelector'' (demo_pod ''e'' [])"
    by (simp_all add: rule_paths_def demo_rule_def overwrites_def merge_strategy_defs has_path_def demo_pod_def)
  ultimately show ?thesis
    using strict_patch_rejected [OF mem_strict.strict_json_patch_axioms, of demo_podman "demo_pod ''e'' []"] by auto
qed

end
