(* ===== verification/ResourceWatcher.thy ===== *)
theory ResourceWatcher
  imports PackLeftController PodRules
begin

text \<open>
  \<^verbatim>\<open>pkg/controller/resource_watcher.go\<close> with the interfaces of \<^verbatim>\<open>pkg/controller/types.go\<close> and the
  configuration of \<^verbatim>\<open>pkg/config/config.go\<close>: the informers deliver every event to the controllers
  registered for its kind, and controllers are registered only while this process is the leader.

  An informer belongs to client-go: it updates its cache, to any content, and then calls the handler
  (\<open>handle_event\<close>). \<open>rw_served\<close> are the queues on which workers were started. The three queues share one
  implementation \<open>we_queue\<close>. \<open>we_resync\<close> is what \<^verbatim>\<open>nodeIndexer.Resync()\<close> delivers: the nodes it hands to
  the update handler once more, and its error; the stores of client-go hand out none.
\<close>

section \<open>Configuration and state\<close>

record controllerConfig =
  cc_Threads :: int
  cc_ShouldRun :: bool

record valetConfig =
  vc_ParController :: controllerConfig
  vc_NagController :: controllerConfig
  vc_PLController :: controllerConfig

record caches =
  ch_pods :: "pod list"
  ch_nodes :: "node list"
  ch_nags :: "nag list"
  ch_pars :: "podAssignmentRule list"
  ch_cpars :: "clusterPodAssignmentRule list"

text \<open>The controllers that implement \<^verbatim>\<open>NodeController\<close> and \<^verbatim>\<open>NagController\<close>, and those that implement
  \<^verbatim>\<open>PodController\<close>.\<close>

datatype ctlr = NagCtlr | PlCtlr
datatype podCtlr = ParPodCtlr | PlPodCtlr

text \<open>The work queues of the three controllers.\<close>

datatype workQ = ParQ | NagQ | PlQ

record 'q watcherEnv =
  we_config :: valetConfig
  we_queue :: "'q workqueue"
  we_nagKey :: "nag \<Rightarrow> goerr + string"
  we_podKey :: "pod \<Rightarrow> goerr + string"
  we_resync :: "caches \<Rightarrow> node list \<times> goerr option"

record 'q resourceWatcher =
  rw_caches :: caches
  rw_nodeControllers :: "ctlr list"
  rw_nagControllers :: "ctlr list"
  rw_podControllers :: "podCtlr list"
  rw_parQ :: 'q
  rw_nagQ :: 'q
  rw_plQ :: 'q
  rw_served :: "workQ list"

fun set_queue :: "workQ \<Rightarrow> 'q \<Rightarrow> 'q resourceWatcher \<Rightarrow> 'q resourceWatcher" where
  "set_queue ParQ q rw = rw\<lparr>rw_parQ := q\<rparr>"
| "set_queue NagQ q rw = rw\<lparr>rw_nagQ := q\<rparr>"
| "set_queue PlQ q rw = rw\<lparr>rw_plQ := q\<rparr>"

text \<open>The controllers on the caches as they are now.\<close>

definition nagCtlr_of :: "'q watcherEnv \<Rightarrow> caches \<Rightarrow> 'q nagController" where
  "nagCtlr_of E ch = \<lparr>nac_queue = we_queue E, nac_keyFunc = we_nagKey E, nac_nags = ch_nags ch\<rparr>"

definition plCtlr_of :: "'q watcherEnv \<Rightarrow> caches \<Rightarrow> 'q plController" where
  "plCtlr_of E ch = \<lparr>plq_queue = we_queue E, plq_keyFunc = we_nagKey E, plq_nags = ch_nags ch, plq_nodes = ch_nodes ch\<rparr>"

definition plCaches_of :: "caches \<Rightarrow> plCaches" where
  "plCaches_of ch = \<lparr>plc_nodes = ch_nodes ch, plc_pods = ch_pods ch\<rparr>"

definition parCtlr_of :: "'q watcherEnv \<Rightarrow> caches \<Rightarrow> 'q podController" where
  "parCtlr_of E ch = \<lparr>pc_queue = we_queue E, pc_keyFunc = we_podKey E,
     pc_parMan = \<lparr>pm_cpars = (ch_cpars ch, None),
       pm_pars = (\<lambda>ns. (filter (\<lambda>r. ns = [] \<or> om_Namespace (par_meta r) = ns) (ch_pars ch), None))\<rparr>\<rparr>"

definition ParController :: "'q watcherEnv \<Rightarrow> 'q resourceWatcher \<Rightarrow> 'q podController" where
  "ParController E rw = parCtlr_of E (rw_caches rw)"

section \<open>Registering controllers\<close>

definition addNodeController :: "ctlr \<Rightarrow> 'q resourceWatcher \<Rightarrow> 'q resourceWatcher" where
  "addNodeController c rw = rw\<lparr>rw_nodeControllers := rw_nodeControllers rw @ [c]\<rparr>"

definition addNagController :: "ctlr \<Rightarrow> 'q resourceWatcher \<Rightarrow> 'q resourceWatcher" where
  "addNagController c rw = rw\<lparr>rw_nagControllers := rw_nagControllers rw @ [c]\<rparr>"

definition addPodController :: "podCtlr \<Rightarrow> 'q resourceWatcher \<Rightarrow> 'q resourceWatcher" where
  "addPodController c rw = rw\<lparr>rw_podControllers := rw_podControllers rw @ [c]\<rparr>"

definition clearAllControllers :: "'q resourceWatcher \<Rightarrow> 'q resourceWatcher" where
  "clearAllControllers rw = rw\<lparr>rw_nodeControllers := [], rw_nagControllers := [], rw_podControllers := []\<rparr>"

section \<open>Delivering an event\<close>

text \<open>The calls through the interfaces.\<close>

fun on_nag_queue :: "('q \<Rightarrow> 'q) \<Rightarrow> ('q \<Rightarrow> 'q) \<Rightarrow> ctlr \<Rightarrow> 'q resourceWatcher \<Rightarrow> 'q resourceWatcher" where
  "on_nag_queue f g NagCtlr rw = rw\<lparr>rw_nagQ := f (rw_nagQ rw)\<rparr>"
| "on_nag_queue f g PlCtlr rw = rw\<lparr>rw_plQ := g (rw_plQ rw)\<rparr>"

fun on_pod_queue :: "('q \<Rightarrow> 'q) \<Rightarrow> ('q \<Rightarrow> 'q) \<Rightarrow> podCtlr \<Rightarrow> 'q resourceWatcher \<Rightarrow> 'q resourceWatcher" where
  "on_pod_queue f g ParPodCtlr rw = rw\<lparr>rw_parQ := f (rw_parQ rw)\<rparr>"
| "on_pod_queue f g PlPodCtlr rw = rw\<lparr>rw_plQ := g (rw_plQ rw)\<rparr>"

text \<open>The object a deletion delivers: the last state, or after a missed deletion a tombstone, which is not
  of the type the handlers assert.\<close>

datatype 'a deleted = Final 'a | DeletedFinalStateUnknown string 'a

datatype event =
    AddPod pod | UpdatePod pod pod | DeletePod "pod deleted"
  | AddNode node | UpdateNode node node | DeleteNode "node deleted"
  | AddNag nag | UpdateNag nag nag | DeleteNag "nag deleted"
  | RuleEvent   \<comment> \<open>of the pod rule caches, which have no handlers\<close>

fun handle_event :: "'q watcherEnv \<Rightarrow> event \<Rightarrow> 'q resourceWatcher \<Rightarrow> gopanic + 'q resourceWatcher" where
  "handle_event E (AddPod p) rw =
     Inr (fold (on_pod_queue (pc_OnAddPod (parCtlr_of E (rw_caches rw)) p) (plc_OnAddPod (plCtlr_of E (rw_caches rw)) p))
       (rw_podControllers rw) rw)"
| "handle_event E (UpdatePod p p') rw =
     Inr (fold (on_pod_queue (pc_OnUpdatePod (parCtlr_of E (rw_caches rw)) p p')
         (plc_OnUpdatePod (plCtlr_of E (rw_caches rw)) p p')) (rw_podControllers rw) rw)"
| "handle_event E (DeletePod (Final p)) rw =
     Inr (fold (on_pod_queue (pc_OnDeletePod (parCtlr_of E (rw_caches rw)) p)
         (plc_OnDeletePod (plCtlr_of E (rw_caches rw)) p)) (rw_podControllers rw) rw)"
| "handle_event E (DeletePod (DeletedFinalStateUnknown k p)) rw = Inl BadAssertion"
| "handle_event E (AddNode n) rw =
     Inr (fold (on_nag_queue (nac_OnAddNode (nagCtlr_of E (rw_caches rw)) n) (plc_OnAddNode (plCtlr_of E (rw_caches rw)) n))
       (rw_nodeControllers rw) rw)"
| "handle_event E (UpdateNode n n') rw =
     Inr (fold (on_nag_queue (nac_OnUpdateNode (nagCtlr_of E (rw_caches rw)) n n')
         (plc_OnUpdateNode (plCtlr_of E (rw_caches rw)) n n')) (rw_nodeControllers rw) rw)"
| "handle_event E (DeleteNode (Final n)) rw =
     Inr (fold (on_nag_queue (nac_OnDeleteNode (nagCtlr_of E (rw_caches rw)) n)
         (plc_OnDeleteNode (plCtlr_of E (rw_caches rw)) n)) (rw_nodeControllers rw) rw)"
| "handle_event E (DeleteNode (DeletedFinalStateUnknown k n)) rw = Inl BadAssertion"
| "handle_event E (AddNag g) rw =
     Inr (fold (on_nag_queue (nac_OnAddNag (nagCtlr_of E (rw_caches rw)) g) (plc_OnAddNag (plCtlr_of E (rw_caches rw)) g))
       (rw_nagControllers rw) rw)"
| "handle_event E (UpdateNag g g') rw =
     Inr (fold (on_nag_queue (nac_OnUpdateNag (nagCtlr_of E (rw_caches rw)) g g')
         (plc_OnUpdateNag (plCtlr_of E (rw_caches rw)) g g')) (rw_nagControllers rw) rw)"
| "handle_event E (DeleteNag (Final g)) rw =
     Inr (fold (on_nag_queue (nac_OnDeleteNag (nagCtlr_of E (rw_caches rw)) g)
         (plc_OnDeleteNag (plCtlr_of E (rw_caches rw)) g)) (rw_nagControllers rw) rw)"
| "handle_event E (DeleteNag (DeletedFinalStateUnknown k g)) rw = Inl BadAssertion"
| "handle_event E RuleEvent rw = Inr rw"

section \<open>Election\<close>

fun resync_nodes :: "'q watcherEnv \<Rightarrow> node list \<Rightarrow> 'q resourceWatcher \<Rightarrow> gopanic + 'q resourceWatcher" where
  "resync_nodes E [] rw = Inr rw"
| "resync_nodes E (n # ns) rw =
     (case handle_event E (UpdateNode n n) rw of Inl p \<Rightarrow> Inl p | Inr rw1 \<Rightarrow> resync_nodes E ns rw1)"

definition StartElectedComponents :: "'q watcherEnv \<Rightarrow> 'q resourceWatcher \<Rightarrow> gopanic + 'q resourceWatcher" where
  "StartElectedComponents E rw =
     (let cfg = we_config E;
          rw1 = (if cc_ShouldRun (vc_ParController cfg) then addPodController ParPodCtlr rw else rw);
          rw2 = (if cc_ShouldRun (vc_NagController cfg)
                 then addNagController NagCtlr (addNodeController NagCtlr rw1) else rw1);
          rw3 = (if cc_ShouldRun (vc_PLController cfg)
                 then addPodController PlPodCtlr (addNagController PlCtlr (addNodeController PlCtlr rw2)) else rw2)
      in resync_nodes E (fst (we_resync E (rw_caches rw3))) rw3)"

definition StopElectedComponents :: "'q resourceWatcher \<Rightarrow> 'q resourceWatcher" where
  "StopElectedComponents rw = clearAllControllers rw"

section \<open>Starting up\<close>

definition waitForCacheSync :: "(string \<Rightarrow> bool) \<Rightarrow> string \<Rightarrow> gopanic + unit" where
  "waitForCacheSync synced infType = (if \<not> synced infType then Inl (CacheSyncTimeout infType) else Inr ())"

fun wait_all :: "(string \<Rightarrow> bool) \<Rightarrow> string list \<Rightarrow> gopanic + unit" where
  "wait_all synced [] = Inr ()"
| "wait_all synced (i # is) = (case waitForCacheSync synced i of Inl p \<Rightarrow> Inl p | Inr _ \<Rightarrow> wait_all synced is)"

text \<open>\<open>q0\<close> is an empty queue. At the end the \<^verbatim>\<open>Run\<close> of the enabled group controllers is started, each of which
  starts the workers of its queue.\<close>

definition watcher_Run :: "valetConfig \<Rightarrow> (string \<Rightarrow> bool) \<Rightarrow> caches \<Rightarrow> 'q \<Rightarrow> gopanic + 'q resourceWatcher" where
  "watcher_Run cfg synced ch q0 =
     (let rw = \<lparr>rw_caches = ch, rw_nodeControllers = [], rw_nagControllers = [], rw_podControllers = [],
                rw_parQ = q0, rw_nagQ = q0, rw_plQ = q0, rw_served = []\<rparr>
      in case wait_all synced [''pod'', ''node'', ''nag'', ''par'', ''cpar''] of
           Inl p \<Rightarrow> Inl p
         | Inr _ \<Rightarrow>
             (let rw1 = (if cc_ShouldRun (vc_NagController cfg) then rw\<lparr>rw_served := rw_served rw @ [NagQ]\<rparr> else rw);
                  rw2 = (if cc_ShouldRun (vc_PLController cfg) then rw1\<lparr>rw_served := rw_served rw1 @ [PlQ]\<rparr> else rw1)
              in Inr rw2))"


section \<open>What an event wakes up\<close>

text \<open>The specification of the handlers: the groups, and for the pod rule controller the pods, whose keys an
  event adds to a queue.\<close>

fun nag_groups :: "caches \<Rightarrow> event \<Rightarrow> nag list" where
  "nag_groups ch (AddNode n) = ch_nags ch"
| "nag_groups ch (UpdateNode n n') = (if NodeTargetingHasChanged n n' then ch_nags ch else [])"
| "nag_groups ch (DeleteNode (Final n)) = filter (\<lambda>g. TargetsNode g n) (ch_nags ch)"
| "nag_groups ch (AddNag g) = [g]"
| "nag_groups ch (UpdateNag g g') =
     (if (om_ResourceVersion (nag_meta g), om_UID (nag_meta g)) \<noteq> (om_ResourceVersion (nag_meta g'), om_UID (nag_meta g'))
      then [g'] else [])"
| "nag_groups ch (DeleteNag (Final g)) = [g]"
| "nag_groups ch _ = []"

definition hosting :: "caches \<Rightarrow> pod \<Rightarrow> node option" where
  "hosting ch p = find (\<lambda>n. node_Name n = p_NodeName p) (ch_nodes ch)"

definition packleft_groups :: "caches \<Rightarrow> node option \<Rightarrow> nag list" where
  "packleft_groups ch host =
     (case host of None \<Rightarrow> [] | Some n \<Rightarrow> filter (\<lambda>g. TargetsNode g n \<and> NodeHasPackLeftAssignment n g) (ch_nags ch))"

fun pl_groups :: "caches \<Rightarrow> event \<Rightarrow> nag list" where
  "pl_groups ch (AddNode n) = ch_nags ch"
| "pl_groups ch (UpdateNode n n') =
     (if NodeTargetingHasChanged n n' \<or> NodeCanBeBalanced n \<noteq> NodeCanBeBalanced n' then ch_nags ch else [])"
| "pl_groups ch (DeleteNode (Final n)) = packleft_groups ch (Some n)"
| "pl_groups ch (AddNag g) = [g]"
| "pl_groups ch (UpdateNag g g') = [g']"
| "pl_groups ch (DeleteNag (Final g)) = [g]"
| "pl_groups ch (AddPod p) = packleft_groups ch (hosting ch p)"
| "pl_groups ch (UpdatePod p p') =
     (if p_NodeName p \<noteq> p_NodeName p' \<and> hosting ch p' \<noteq> None then ch_nags ch else [])"
| "pl_groups ch (DeletePod (Final p)) = packleft_groups ch (hosting ch p)"
| "pl_groups ch _ = []"

fun par_pods :: "event \<Rightarrow> pod list" where
  "par_pods (AddPod p) = [p]"
| "par_pods (UpdatePod p p') =
     (if (om_ResourceVersion (p_meta p), om_UID (p_meta p)) \<noteq> (om_ResourceVersion (p_meta p'), om_UID (p_meta p'))
      then [p'] else [])"
| "par_pods (DeletePod (Final p)) = [p]"
| "par_pods _ = []"

definition keys :: "('a \<Rightarrow> goerr + string) \<Rightarrow> 'a list \<Rightarrow> string set" where
  "keys key xs = {k. \<exists>x \<in> set xs. key x = Inr k}"

section \<open>The controller interfaces\<close>

text \<open>What the watcher needs of a controller: an event adds the keys of \<open>wakes\<close> to the pending ones and
  removes none, and an update of a node to itself does nothing.\<close>

locale node_controller =
  fixes pend :: "'q \<Rightarrow> string set" and wakes :: "event \<Rightarrow> string set"
    and onAddNode :: "node \<Rightarrow> 'q \<Rightarrow> 'q" and onUpdateNode :: "node \<Rightarrow> node \<Rightarrow> 'q \<Rightarrow> 'q"
    and onDeleteNode :: "node \<Rightarrow> 'q \<Rightarrow> 'q"
  assumes add_node: "pend (onAddNode n q) = pend q \<union> wakes (AddNode n)"
    and update_node: "pend (onUpdateNode n n' q) = pend q \<union> wakes (UpdateNode n n')"
    and delete_node: "pend (onDeleteNode n q) = pend q \<union> wakes (DeleteNode (Final n))"
    and same_node: "wf_map (node_Labels n) \<Longrightarrow> onUpdateNode n n q = q"

locale nag_controller =
  fixes pend :: "'q \<Rightarrow> string set" and wakes :: "event \<Rightarrow> string set"
    and onAddNag :: "nag \<Rightarrow> 'q \<Rightarrow> 'q" and onUpdateNag :: "nag \<Rightarrow> nag \<Rightarrow> 'q \<Rightarrow> 'q"
    and onDeleteNag :: "nag \<Rightarrow> 'q \<Rightarrow> 'q"
  assumes add_nag: "pend (onAddNag g q) = pend q \<union> wakes (AddNag g)"
    and update_nag: "pend (onUpdateNag g g' q) = pend q \<union> wakes (UpdateNag g g')"
    and delete_nag: "pend (onDeleteNag g q) = pend q \<union> wakes (DeleteNag (Final g))"

locale pod_controller =
  fixes pend :: "'q \<Rightarrow> string set" and wakes :: "event \<Rightarrow> string set"
    and onAddPod :: "pod \<Rightarrow> 'q \<Rightarrow> 'q" and onUpdatePod :: "pod \<Rightarrow> pod \<Rightarrow> 'q \<Rightarrow> 'q"
    and onDeletePod :: "pod \<Rightarrow> 'q \<Rightarrow> 'q"
  assumes add_pod: "pend (onAddPod p q) = pend q \<union> wakes (AddPod p)"
    and update_pod: "pend (onUpdatePod p p' q) = pend q \<union> wakes (UpdatePod p p')"
    and delete_pod: "pend (onDeletePod p q) = pend q \<union> wakes (DeletePod (Final p))"

locale watcher_env = rate_limited_queue "we_queue E" pend busy
  for E :: "'q watcherEnv" and pend :: "'q \<Rightarrow> string set" and busy :: "'q \<Rightarrow> string set"

abbreviation nag_wakes :: "'q watcherEnv \<Rightarrow> caches \<Rightarrow> event \<Rightarrow> string set" where
  "nag_wakes E ch e \<equiv> keys (we_nagKey E) (nag_groups ch e)"
abbreviation pl_wakes :: "'q watcherEnv \<Rightarrow> caches \<Rightarrow> event \<Rightarrow> string set" where
  "pl_wakes E ch e \<equiv> keys (we_nagKey E) (pl_groups ch e)"
abbreviation par_wakes :: "'q watcherEnv \<Rightarrow> event \<Rightarrow> string set" where
  "par_wakes E e \<equiv> keys (we_podKey E) (par_pods e)"

lemma keys_simps [simp]:
  "keys key [] = {}"
  "keys key [x] = (case key x of Inr k \<Rightarrow> {k} | Inl err \<Rightarrow> {})"
  by (auto simp: keys_def split: sum.splits)

lemma unchanged_targeting [simp]: "wf_map (node_Labels n) \<Longrightarrow> \<not> NodeTargetingHasChanged n n"
  by (simp add: NodeTargetingHasChanged_def scan_difference)

lemma keys_of_nagCtlr: "keys_of (nagCtlr_of E ch) gs = keys (we_nagKey E) gs"
  by (simp add: keys_of_def keys_def nagCtlr_of_def)

lemma plq_keys_plCtlr: "plq_keys (plCtlr_of E ch) gs = keys (we_nagKey E) gs"
  by (simp add: plq_keys_def keys_def plCtlr_of_def)

lemma plc_OnAddNag_eq: "plc_OnAddNag c = plc_addItem c"
  by (simp add: fun_eq_iff plc_OnAddNag_def)

lemma nac_OnAddNag_eq: "nac_OnAddNag c = nac_addItem c"
  by (simp add: fun_eq_iff nac_OnAddNag_def)

context watcher_env
begin

lemma pend_AddItem:
  "pend (AddItem key (we_queue E) x q) = pend q \<union> keys key [x]"
  by (auto simp: AddItem_def add split: sum.splits)

lemma pend_nac_items:
  "pend (fold (nac_addItem (nagCtlr_of E ch)) gs q) = pend q \<union> keys (we_nagKey E) gs"
  using pend_add_items [of "nagCtlr_of E ch" pend busy gs q] rate_limited_queue_axioms
  by (simp add: nagCtlr_of_def keys_of_nagCtlr [unfolded nagCtlr_of_def])

lemma pend_plc_items:
  "pend (fold (plc_addItem (plCtlr_of E ch)) gs q) = pend q \<union> keys (we_nagKey E) gs"
  using pend_fold_items [of "plCtlr_of E ch" pend busy gs q] rate_limited_queue_axioms
  by (simp add: plCtlr_of_def plq_keys_plCtlr [unfolded plCtlr_of_def])

end

sublocale watcher_env \<subseteq> nag_nodes: node_controller pend "nag_wakes E ch" "nac_OnAddNode (nagCtlr_of E ch)"
    "nac_OnUpdateNode (nagCtlr_of E ch)" "nac_OnDeleteNode (nagCtlr_of E ch)" for ch
  by unfold_locales
    (simp_all add: nac_OnAddNode_def nac_OnUpdateNode_def nac_OnDeleteNode_def nac_queueAllNags_def
      nac_OnAddNag_eq nac_getNodeNags_def pend_nac_items, simp_all add: nagCtlr_of_def)

sublocale watcher_env \<subseteq> pl_nodes: node_controller pend "pl_wakes E ch" "plc_OnAddNode (plCtlr_of E ch)"
    "plc_OnUpdateNode (plCtlr_of E ch)" "plc_OnDeleteNode (plCtlr_of E ch)" for ch
  by unfold_locales
    (simp_all add: plc_OnAddNode_def plc_OnUpdateNode_def plc_OnDeleteNode_def plc_queueAllNags_def
      ProcessPackLeftNagsForNode_def plc_OnAddNag_eq pend_plc_items getNodeAssignmentGroupsWithPackLeft_def,
     simp_all add: plCtlr_of_def packleft_groups_def)

sublocale watcher_env \<subseteq> nag_nags: nag_controller pend "nag_wakes E ch" "nac_OnAddNag (nagCtlr_of E ch)"
    "nac_OnUpdateNag (nagCtlr_of E ch)" "nac_OnDeleteNag (nagCtlr_of E ch)" for ch
  by unfold_locales
    (simp_all add: nac_OnAddNag_def nac_OnUpdateNag_def nac_OnDeleteNag_def nac_addItem_def nagCtlr_of_def pend_AddItem)

sublocale watcher_env \<subseteq> pl_nags: nag_controller pend "pl_wakes E ch" "plc_OnAddNag (plCtlr_of E ch)"
    "plc_OnUpdateNag (plCtlr_of E ch)" "plc_OnDeleteNag (plCtlr_of E ch)" for ch
  by unfold_locales
    (simp_all add: plc_OnAddNag_def plc_OnUpdateNag_def plc_OnDeleteNag_def plc_addItem_def plCtlr_of_def pend_AddItem)

sublocale watcher_env \<subseteq> par_pods: pod_controller pend "par_wakes E" "pc_OnAddPod (parCtlr_of E ch)"
    "pc_OnUpdatePod (parCtlr_of E ch)" "pc_OnDeletePod (parCtlr_of E ch)" for ch
  by unfold_locales
    (simp_all add: pc_OnAddPod_def pc_OnUpdatePod_def pc_OnDeletePod_def parCtlr_of_def pend_AddItem)

lemma hosting_plCtlr: "getNodeHostingPod (plCtlr_of E ch) p = hosting ch p"
  by (simp add: getNodeHostingPod_def hosting_def plCtlr_of_def)

sublocale watcher_env \<subseteq> pl_pods: pod_controller pend "pl_wakes E ch" "plc_OnAddPod (plCtlr_of E ch)"
    "plc_OnUpdatePod (plCtlr_of E ch)" "plc_OnDeletePod (plCtlr_of E ch)" for ch
  by unfold_locales
    (auto simp: plc_OnAddPod_def plc_OnUpdatePod_def plc_OnDeletePod_def ProcessPodNags_def hosting_plCtlr
      ProcessPackLeftNagsForNode_def plc_OnAddNag_eq pend_plc_items getNodeAssignmentGroupsWithPackLeft_def
      pl_nodes.add_node packleft_groups_def split: option.splits, simp_all add: plCtlr_of_def)


section \<open>The effect of an event\<close>

text \<open>The controllers a leader runs.\<close>

definition elected_ctlrs :: "valetConfig \<Rightarrow> ctlr list" where
  "elected_ctlrs cfg =
     (if cc_ShouldRun (vc_NagController cfg) then [NagCtlr] else []) @
     (if cc_ShouldRun (vc_PLController cfg) then [PlCtlr] else [])"

definition elected_podCtlrs :: "valetConfig \<Rightarrow> podCtlr list" where
  "elected_podCtlrs cfg =
     (if cc_ShouldRun (vc_ParController cfg) then [ParPodCtlr] else []) @
     (if cc_ShouldRun (vc_PLController cfg) then [PlPodCtlr] else [])"

definition registered :: "ctlr list \<Rightarrow> podCtlr list \<Rightarrow> 'q resourceWatcher \<Rightarrow> bool" where
  "registered cs pcs rw \<longleftrightarrow>
     rw_nodeControllers rw = cs \<and> rw_nagControllers rw = cs \<and> rw_podControllers rw = pcs"

lemma fold_on_nag_queue:
  "distinct cs \<Longrightarrow> fold (on_nag_queue f g) cs rw =
     rw\<lparr>rw_nagQ := (if NagCtlr \<in> set cs then f else id) (rw_nagQ rw),
        rw_plQ := (if PlCtlr \<in> set cs then g else id) (rw_plQ rw)\<rparr>"
proof (induction cs arbitrary: rw)
  case (Cons c cs)
  then show ?case by (cases c) auto
qed simp

lemma fold_on_pod_queue:
  "distinct cs \<Longrightarrow> fold (on_pod_queue f g) cs rw =
     rw\<lparr>rw_parQ := (if ParPodCtlr \<in> set cs then f else id) (rw_parQ rw),
        rw_plQ := (if PlPodCtlr \<in> set cs then g else id) (rw_plQ rw)\<rparr>"
proof (induction cs arbitrary: rw)
  case (Cons c cs)
  then show ?case by (cases c) auto
qed simp

text \<open>Only a tombstone panics; an event changes nothing but the queues.\<close>

fun tombstone :: "event \<Rightarrow> bool" where
  "tombstone (DeletePod (DeletedFinalStateUnknown k p)) = True"
| "tombstone (DeleteNode (DeletedFinalStateUnknown k n)) = True"
| "tombstone (DeleteNag (DeletedFinalStateUnknown k g)) = True"
| "tombstone _ = False"

lemma handle_event_panic: "handle_event E e rw = (if tombstone e then Inl BadAssertion else Inr (projr (handle_event E e rw)))"
  by (induction E e rw rule: handle_event.induct) simp_all

definition queues_of :: "'q resourceWatcher \<Rightarrow> 'q \<times> 'q \<times> 'q" where
  "queues_of rw = (rw_parQ rw, rw_nagQ rw, rw_plQ rw)"

lemma handle_event_idle:
  "registered [] [] rw \<Longrightarrow> \<not> tombstone e \<Longrightarrow> handle_event E e rw = Inr rw"
  by (induction E e rw rule: handle_event.induct) (simp_all add: registered_def)

lemma handle_event_frame:
  assumes "registered cs pcs rw" and "distinct cs" and "distinct pcs" and "handle_event E e rw = Inr rw'"
  shows "registered cs pcs rw'" and "rw_caches rw' = rw_caches rw" and "rw_served rw' = rw_served rw"
  using assms
  by (induction E e rw rule: handle_event.induct)
    (auto simp: registered_def fold_on_nag_queue fold_on_pod_queue)

definition routed ::
    "'q watcherEnv \<Rightarrow> ('q \<Rightarrow> string set) \<Rightarrow> ctlr list \<Rightarrow> podCtlr list \<Rightarrow> caches \<Rightarrow> event
     \<Rightarrow> 'q resourceWatcher \<Rightarrow> 'q resourceWatcher \<Rightarrow> bool" where
  "routed E pend cs pcs ch e rw rw' \<longleftrightarrow>
     pend (rw_nagQ rw') = pend (rw_nagQ rw) \<union> (if NagCtlr \<in> set cs then nag_wakes E ch e else {}) \<and>
     pend (rw_plQ rw') = pend (rw_plQ rw) \<union> (if PlCtlr \<in> set cs then pl_wakes E ch e else {}) \<and>
     pend (rw_parQ rw') = pend (rw_parQ rw) \<union> (if ParPodCtlr \<in> set pcs then par_wakes E e else {})"

context watcher_env
begin

lemma routed_by_nag_queue:
  assumes "distinct cs" and "\<And>q. pend (f q) = pend q \<union> nag_wakes E ch e" and "\<And>q. pend (g q) = pend q \<union> pl_wakes E ch e"
    and "par_pods e = []"
  shows "routed E pend cs pcs ch e rw (fold (on_nag_queue f g) cs rw)"
  using assms by (simp add: routed_def fold_on_nag_queue)

lemma routed_by_pod_queue:
  assumes "distinct pcs" and "PlPodCtlr \<in> set pcs \<longleftrightarrow> PlCtlr \<in> set cs"
    and "\<And>q. pend (f q) = pend q \<union> par_wakes E e" and "\<And>q. pend (g q) = pend q \<union> pl_wakes E ch e"
    and "nag_groups ch e = []"
  shows "routed E pend cs pcs ch e rw (fold (on_pod_queue f g) pcs rw)"
  using assms by (simp add: routed_def fold_on_pod_queue)

lemmas node_waking = nag_nodes.add_node nag_nodes.update_node nag_nodes.delete_node
  pl_nodes.add_node pl_nodes.update_node pl_nodes.delete_node
lemmas nag_waking = nag_nags.add_nag nag_nags.update_nag nag_nags.delete_nag
  pl_nags.add_nag pl_nags.update_nag pl_nags.delete_nag
lemmas pod_waking = par_pods.add_pod par_pods.update_pod par_pods.delete_pod
  pl_pods.add_pod pl_pods.update_pod pl_pods.delete_pod

lemma routing:
  assumes reg: "registered cs pcs rw" and d: "distinct cs" "distinct pcs"
    and pl: "PlPodCtlr \<in> set pcs \<longleftrightarrow> PlCtlr \<in> set cs" and h: "handle_event E e rw = Inr rw'"
  shows "routed E pend cs pcs (rw_caches rw) e rw rw'"
proof -
  have r: "rw_nodeControllers rw = cs" "rw_nagControllers rw = cs" "rw_podControllers rw = pcs"
    using reg by (simp_all add: registered_def)
  show ?thesis
  proof (cases e)
    case (DeletePod x)
    then show ?thesis using h d pl by (cases x) (auto simp: r pod_waking intro!: routed_by_pod_queue)
  next
    case (DeleteNode x)
    then show ?thesis using h d by (cases x) (auto simp: r node_waking intro!: routed_by_nag_queue)
  next
    case (DeleteNag x)
    then show ?thesis using h d by (cases x) (auto simp: r nag_waking intro!: routed_by_nag_queue)
  next
    case RuleEvent
    then show ?thesis using h by (simp add: routed_def)
  next
    case (AddPod p)
    then show ?thesis using h d pl by (auto simp: r pod_waking intro!: routed_by_pod_queue)
  next
    case (UpdatePod p p')
    have "routed E pend cs pcs (rw_caches rw) e rw (fold (on_pod_queue
        (pc_OnUpdatePod (parCtlr_of E (rw_caches rw)) p p') (plc_OnUpdatePod (plCtlr_of E (rw_caches rw)) p p')) pcs rw)"
      by (rule routed_by_pod_queue [OF d(2) pl]) (simp_all only: UpdatePod pod_waking nag_groups.simps)
    then show ?thesis using h by (simp add: UpdatePod r)
  next
    case (AddNode n)
    then show ?thesis using h d by (auto simp: r node_waking intro!: routed_by_nag_queue)
  next
    case (UpdateNode n n')
    have "routed E pend cs pcs (rw_caches rw) e rw (fold (on_nag_queue
        (nac_OnUpdateNode (nagCtlr_of E (rw_caches rw)) n n') (plc_OnUpdateNode (plCtlr_of E (rw_caches rw)) n n')) cs rw)"
      by (rule routed_by_nag_queue [OF d(1)]) (simp_all only: UpdateNode node_waking par_pods.simps)
    then show ?thesis using h by (simp add: UpdateNode r)
  next
    case (AddNag g)
    then show ?thesis using h d by (auto simp: r nag_waking intro!: routed_by_nag_queue)
  next
    case (UpdateNag g g')
    have "routed E pend cs pcs (rw_caches rw) e rw (fold (on_nag_queue
        (nac_OnUpdateNag (nagCtlr_of E (rw_caches rw)) g g') (plc_OnUpdateNag (plCtlr_of E (rw_caches rw)) g g')) cs rw)"
      by (rule routed_by_nag_queue [OF d(1)]) (simp_all only: UpdateNag nag_waking par_pods.simps)
    then show ?thesis using h by (simp add: UpdateNag r)
  qed
qed

lemma resync_unchanged:
  assumes "registered cs pcs rw" and "distinct cs" and "\<forall>n \<in> set ns. wf_map (node_Labels n)"
  shows "resync_nodes E ns rw = Inr rw"
  using assms
proof (induction ns)
  case (Cons n ns)
  then have "handle_event E (UpdateNode n n) rw = Inr rw"
    using nag_nodes.same_node pl_nodes.same_node by (simp add: registered_def fold_on_nag_queue)
  then show ?case using Cons by simp
qed simp

end

lemma elected_ctlrs_distinct [simp]: "distinct (elected_ctlrs cfg)" "distinct (elected_podCtlrs cfg)"
  by (simp_all add: elected_ctlrs_def elected_podCtlrs_def)

lemma elected_members [simp]:
  "NagCtlr \<in> set (elected_ctlrs cfg) \<longleftrightarrow> cc_ShouldRun (vc_NagController cfg)"
  "PlCtlr \<in> set (elected_ctlrs cfg) \<longleftrightarrow> cc_ShouldRun (vc_PLController cfg)"
  "ParPodCtlr \<in> set (elected_podCtlrs cfg) \<longleftrightarrow> cc_ShouldRun (vc_ParController cfg)"
  "PlPodCtlr \<in> set (elected_podCtlrs cfg) \<longleftrightarrow> cc_ShouldRun (vc_PLController cfg)"
  by (auto simp: elected_ctlrs_def elected_podCtlrs_def)

text \<open>Registration at election, before the resync.\<close>

definition with_elected :: "'q watcherEnv \<Rightarrow> 'q resourceWatcher \<Rightarrow> 'q resourceWatcher" where
  "with_elected E rw = rw
     \<lparr>rw_nodeControllers := rw_nodeControllers rw @ elected_ctlrs (we_config E),
      rw_nagControllers := rw_nagControllers rw @ elected_ctlrs (we_config E),
      rw_podControllers := rw_podControllers rw @ elected_podCtlrs (we_config E)\<rparr>"

lemma StartElectedComponents_eq:
  "StartElectedComponents E rw = resync_nodes E (fst (we_resync E (rw_caches rw))) (with_elected E rw)"
  by (cases rw) (simp add: StartElectedComponents_def with_elected_def elected_ctlrs_def elected_podCtlrs_def
      addNodeController_def addNagController_def addPodController_def Let_def)

lemma resync_nodes_frame:
  assumes "registered cs pcs rw" and "distinct cs" and "distinct pcs"
  shows "\<exists>rw'. resync_nodes E ns rw = Inr rw' \<and> registered cs pcs rw' \<and> rw_caches rw' = rw_caches rw \<and> rw_served rw' = rw_served rw"
  using assms
proof (induction ns arbitrary: rw)
  case (Cons n ns)
  obtain rw1 where 1: "handle_event E (UpdateNode n n) rw = Inr rw1" by simp
  show ?case using handle_event_frame [OF Cons.prems 1] Cons.IH [of rw1] Cons.prems 1 by auto
qed simp

end
