(* ===== verification/Webhook.thy ===== *)
theory Webhook
  imports PodRules
begin

text \<open>
  \<^verbatim>\<open>pkg/webhook/server.go\<close>: the admission webhook. A handler is a function from the request to the calls
  it makes on the response writer, or a panic. What \<^verbatim>\<open>net/http\<close>, \<^verbatim>\<open>encoding/json\<close> and the admission
  decoder answer is the record \<open>codec\<close>. The interface \<^verbatim>\<open>PodAssigner\<close> is the locale \<open>pod_assigner\<close>,
  interpreted on the pod manager; the locale \<open>api_server\<close> states how the API server uses the answer.
\<close>

section \<open>Admission reviews and the HTTP layer\<close>

record 'r admissionRequest =
  aq_UID :: string
  aq_Kind :: string
  aq_Namespace :: string
  aq_Object :: 'r

record 'p admissionResponse =
  as_UID :: string
  as_Allowed :: bool
  as_Patch :: "'p option"        \<comment> \<open>the encoded operations, \<open>None\<close> for nil\<close>
  as_PatchType :: "string option"
  as_Result :: "string option"   \<comment> \<open>the message of the status\<close>

record ('r, 'p) admissionReview =
  av_Request :: "'r admissionRequest option"
  av_Response :: "'p admissionResponse option"

text \<open>The request: the body is \<open>None\<close> when nil, and reading it may fail.\<close>

record httpRequest =
  hr_Body :: "(goerr + string) option"
  hr_ContentType :: string

text \<open>The calls on a response writer; \<^verbatim>\<open>http.Error\<close> writes a status and a message.\<close>

datatype wcall = WriteHeader int | WriteBody string | HttpError string int

record ('r, 'p) codec =
  cd_decode :: "string \<Rightarrow> ('r, 'p) admissionReview \<times> goerr option"
  cd_unmarshalPod :: "'r \<Rightarrow> goerr + pod"
  cd_marshalOps :: "jsonPatchOperation list \<Rightarrow> goerr + 'p"
  cd_marshalReview :: "('r, 'p) admissionReview \<Rightarrow> goerr + string"
  cd_write :: "string \<Rightarrow> goerr option"
  cd_message :: "goerr \<Rightarrow> string"

section \<open>The handlers\<close>

definition healthzHandler :: "httpRequest \<Rightarrow> gopanic + wcall list" where
  "healthzHandler r = Inr [WriteHeader 200, WriteBody ''Healthy'']"

definition error_response :: "('r, 'p) codec \<Rightarrow> goerr \<Rightarrow> 'p admissionResponse" where
  "error_response C err =
     \<lparr>as_UID = '''', as_Allowed = False, as_Patch = None, as_PatchType = None, as_Result = Some (cd_message C err)\<rparr>"

definition mutatePod ::
    "('r, 'p) codec \<Rightarrow> (pod \<Rightarrow> jsonPatchOperation list) \<Rightarrow> 'r admissionRequest \<Rightarrow> 'p admissionResponse" where
  "mutatePod C pa req =
     (case cd_unmarshalPod C (aq_Object req) of
        Inl err \<Rightarrow> error_response C err
      | Inr pod0 \<Rightarrow>
          (let pod = pod0\<lparr>p_meta := (p_meta pod0)\<lparr>om_Namespace := aq_Namespace req\<rparr>\<rparr> in
           case cd_marshalOps C (pa pod) of
             Inl err \<Rightarrow> error_response C err
           | Inr patchBytes \<Rightarrow>
               \<lparr>as_UID = '''', as_Allowed = True, as_Patch = Some patchBytes, as_PatchType = Some ''JSONPatch'',
                as_Result = None\<rparr>))"

text \<open>The answer: the encoded review, or after a failure to encode it the error and then an empty write.\<close>

definition write_review :: "('r, 'p) codec \<Rightarrow> ('r, 'p) admissionReview \<Rightarrow> wcall list" where
  "write_review C review =
     (let (calls, resp) = (case cd_marshalReview C review of
            Inl err \<Rightarrow> ([HttpError (''could not encode response: '' @ cd_message C err) 500], '''')
          | Inr resp \<Rightarrow> ([], resp));
          calls1 = calls @ [WriteBody resp]
      in case cd_write C resp of
           Some err \<Rightarrow> calls1 @ [HttpError (''could not write response: '' @ cd_message C err) 500]
         | None \<Rightarrow> calls1)"

definition mutateHandler ::
    "('r, 'p) codec \<Rightarrow> (pod \<Rightarrow> jsonPatchOperation list) \<Rightarrow> httpRequest \<Rightarrow> gopanic + wcall list" where
  "mutateHandler C pa r =
     (let body = (case hr_Body r of Some (Inr data) \<Rightarrow> data | _ \<Rightarrow> '''') in
      if length body = 0 then Inr [HttpError ''empty body'' 400]
      else if hr_ContentType r \<noteq> ''application/json''
      then Inr [HttpError ''Invalid Content-Type, expected `application/json`'' 415]
      else
        (let (admissionReview, err) = cd_decode C body;
             response0 = map_option (error_response C) err
         in case av_Request admissionReview of
              None \<Rightarrow> Inl NilDeref
            | Some req \<Rightarrow>
                (let admissionResponse = (if aq_Kind req = ''Pod'' then Some (mutatePod C pa req) else response0)
                 in Inr (write_review C
                      (case admissionResponse of
                         Some resp \<Rightarrow> admissionReview\<lparr>av_Response := Some (resp\<lparr>as_UID := aq_UID req\<rparr>)\<rparr>
                       | None \<Rightarrow> admissionReview)))))"

section \<open>The server\<close>

record webhookConfig =
  wh_Listen :: string
  wh_TLSCertPath :: string
  wh_TLSKeyPath :: string

record 'a webhookServer =
  ws_config :: webhookConfig
  ws_podAssigner :: 'a

definition New_webhook :: "webhookConfig \<Rightarrow> 'a \<Rightarrow> 'a webhookServer" where
  "New_webhook c pa = \<lparr>ws_config = c, ws_podAssigner = pa\<rparr>"

text \<open>The \<^verbatim>\<open>http.Server\<close> that \<^verbatim>\<open>Run\<close> builds: the cipher suites in the order the code lists them, and the handlers of
  the two paths. Every other path is answered by the mux itself. The pod assigner reads caches that change while
  the server runs: \<open>'c\<close> is what it finds when a request comes.\<close>

type_synonym 'c handler = "'c \<Rightarrow> httpRequest \<Rightarrow> gopanic + wcall list"

record ('c, 'k) httpServer =
  hs_Addr :: string
  hs_Certificates :: "'k list"
  hs_CipherSuites :: "string list"
  hs_Handler :: "string \<Rightarrow> 'c handler option"

definition cipherSuites :: "string list" where
  "cipherSuites =
     [''TLS_CHACHA20_POLY1305_SHA256'', ''TLS_AES_256_GCM_SHA384'', ''TLS_AES_128_GCM_SHA256'',
      ''TLS_ECDHE_ECDSA_WITH_CHACHA20_POLY1305'', ''TLS_ECDHE_RSA_WITH_CHACHA20_POLY1305'',
      ''TLS_ECDHE_ECDSA_WITH_AES_256_GCM_SHA384'', ''TLS_ECDHE_RSA_WITH_AES_256_GCM_SHA384'',
      ''TLS_ECDHE_ECDSA_WITH_AES_128_GCM_SHA256'', ''TLS_ECDHE_RSA_WITH_AES_128_GCM_SHA256'',
      ''TLS_ECDHE_RSA_WITH_AES_128_CBC_SHA256'', ''TLS_ECDHE_ECDSA_WITH_AES_128_CBC_SHA256'',
      ''TLS_ECDHE_RSA_WITH_AES_256_CBC_SHA'', ''TLS_ECDHE_RSA_WITH_AES_128_CBC_SHA'',
      ''TLS_ECDHE_RSA_WITH_3DES_EDE_CBC_SHA'', ''TLS_ECDHE_RSA_WITH_RC4_128_SHA'',
      ''TLS_ECDHE_ECDSA_WITH_AES_256_CBC_SHA'', ''TLS_ECDHE_ECDSA_WITH_AES_128_CBC_SHA'',
      ''TLS_ECDHE_ECDSA_WITH_RC4_128_SHA'']"

definition server_mux ::
    "('r, 'p) codec \<Rightarrow> ('c \<Rightarrow> pod \<Rightarrow> jsonPatchOperation list) \<Rightarrow> string \<Rightarrow> 'c handler option" where
  "server_mux C pa path =
     (if path = ''/healthz'' then Some (\<lambda>c. healthzHandler)
      else if path = ''/mutate'' then Some (\<lambda>c. mutateHandler C (pa c)) else None)"

definition the_server ::
    "('r, 'p) codec \<Rightarrow> ('c \<Rightarrow> pod \<Rightarrow> jsonPatchOperation list) webhookServer \<Rightarrow> 'k \<Rightarrow> ('c, 'k) httpServer" where
  "the_server C s pair =
     \<lparr>hs_Addr = wh_Listen (ws_config s), hs_Certificates = [pair], hs_CipherSuites = cipherSuites,
      hs_Handler = server_mux C (ws_podAssigner s)\<rparr>"

text \<open>The loop that serves for ever: whatever serving returns is logged, and after a pause it is started again.
  \<open>w\<close> is the state of the world outside; not returning is the value \<open>None\<close>, and \<open>restarts\<close> is what the loop does
  in its first rounds.\<close>

partial_function (option) serve_loop :: "('w \<Rightarrow> goerr option \<times> 'w) \<Rightarrow> 'w \<Rightarrow> unit option" where
  "serve_loop listen w = serve_loop listen (snd (listen w))"

fun restarts :: "('w \<Rightarrow> goerr option \<times> 'w) \<Rightarrow> nat \<Rightarrow> 'w \<Rightarrow> goerr option list" where
  "restarts listen 0 w = []"
| "restarts listen (Suc n) w = (case listen w of (err, w') \<Rightarrow> err # restarts listen n w')"

lemma serve_loop_forever: "serve_loop listen w = None"
proof -
  have False if "serve_loop listen w = Some r" for r
    using serve_loop.raw_induct [where P = "\<lambda>_ _ _. False", OF _ that] by blast
  then show ?thesis by (cases "serve_loop listen w") auto
qed

text \<open>No error stops the server from being started again.\<close>

lemma restarts_all: "length (restarts listen n w) = n"
  by (induction n arbitrary: w) (simp_all split: prod.split)

text \<open>\<^verbatim>\<open>Run\<close>: the key pair is loaded first, failing which the process exits.\<close>

definition webhook_Run ::
    "(string \<Rightarrow> string \<Rightarrow> goerr + 'k) \<Rightarrow> (('c, 'k) httpServer \<Rightarrow> 'w \<Rightarrow> goerr option \<times> 'w) \<Rightarrow> ('r, 'p) codec
     \<Rightarrow> ('c \<Rightarrow> pod \<Rightarrow> jsonPatchOperation list) webhookServer \<Rightarrow> 'w \<Rightarrow> gopanic + unit option" where
  "webhook_Run loadKeyPair listenAndServe C s w =
     (case loadKeyPair (wh_TLSCertPath (ws_config s)) (wh_TLSKeyPath (ws_config s)) of
        Inl err \<Rightarrow> Inl FatalExit
      | Inr pair \<Rightarrow> Inr (serve_loop (listenAndServe (the_server C s pair)) w))"

lemma webhook_Run_never_returns:
  "webhook_Run loadKeyPair listenAndServe C s w =
     (case loadKeyPair (wh_TLSCertPath (ws_config s)) (wh_TLSKeyPath (ws_config s)) of
        Inl err \<Rightarrow> Inl FatalExit | Inr pair \<Rightarrow> Inr None)"
  by (simp add: webhook_Run_def serve_loop_forever split: sum.split)

section \<open>The interface to the pod manager\<close>

text \<open>\<open>result\<close> is the pod the operations stand for, \<open>fits\<close> tells whether their targets exist.\<close>

locale pod_assigner =
  fixes patches :: "pod \<Rightarrow> jsonPatchOperation list"
    and result :: "pod \<Rightarrow> pod"
    and fits :: "pod \<Rightarrow> bool"
  assumes typed: "op \<in> set (patches p) \<Longrightarrow> replace_ok op"
    and effect: "strict_json_patch ap \<Longrightarrow> apply_ops ap (patches p) p = (if fits p then Some (result p) else None)"

text \<open>The server that asked: it reads back the patch bytes the webhook encoded (\<open>parse\<close>) and applies them as
  RFC 6902 says.\<close>

locale api_server = strict_json_patch ap
  for ap :: "jsonPatchOperation \<Rightarrow> pod \<Rightarrow> pod option" +
  fixes C :: "('r, 'p) codec"
    and parse :: "'p \<Rightarrow> jsonPatchOperation list option"
  assumes parse_marshal:
    "cd_marshalOps C ops = Inr b \<Longrightarrow> \<forall>op \<in> set ops. replace_ok op \<Longrightarrow> parse b = Some ops"

text \<open>What an admission response means to the server: refused, or the pod it admits.\<close>

definition admitted ::
    "(jsonPatchOperation \<Rightarrow> pod \<Rightarrow> pod option) \<Rightarrow> ('p \<Rightarrow> jsonPatchOperation list option)
     \<Rightarrow> 'p admissionResponse \<Rightarrow> pod \<Rightarrow> pod option" where
  "admitted ap parse resp p =
     (if as_Allowed resp
      then (if as_PatchType resp = Some ''JSONPatch''
            then (case Option.bind (as_Patch resp) parse of None \<Rightarrow> None | Some ops \<Rightarrow> apply_ops ap ops p)
            else Some p)
      else None)"

abbreviation in_namespace :: "string \<Rightarrow> pod \<Rightarrow> pod" where
  "in_namespace ns p \<equiv> p\<lparr>p_meta := (p_meta p)\<lparr>om_Namespace := ns\<rparr>\<rparr>"

context pod_assigner
begin

lemma admits:
  assumes "api_server ap C parse" and "cd_unmarshalPod C (aq_Object req) = Inr p"
    and "cd_marshalOps C (patches (in_namespace (aq_Namespace req) p)) = Inr b"
  shows "admitted ap parse (mutatePod C patches req) (in_namespace (aq_Namespace req) p) =
    (if fits (in_namespace (aq_Namespace req) p) then Some (result (in_namespace (aq_Namespace req) p)) else None)"
proof -
  note l = api_server.axioms(1) [OF assms(1)]
  have "parse b = Some (patches (in_namespace (aq_Namespace req) p))"
    using api_server.parse_marshal [OF assms(1,3)] typed by blast
  then show ?thesis
    using assms(2,3) effect [OF l] by (simp add: admitted_def mutatePod_def Let_def)
qed

end

interpretation pm: pod_assigner "GetPodSchedulingPatches m" "\<lambda>p. fold ApplyToPod (pod_rules m p) p" "rules_fit m" for m
  by unfold_locales (simp_all add: strict_patches_effect patches_typed)

section \<open>A server in memory\<close>

text \<open>The encoding keeps the operations as they are; a body is a request if it is not \<^verbatim>\<open>x\<close>.\<close>

definition mem_codec :: "pod \<Rightarrow> (pod, jsonPatchOperation list) codec" where
  "mem_codec p = \<lparr>
     cd_decode = (\<lambda>b. if b = ''x'' then (\<lparr>av_Request = None, av_Response = None\<rparr>, Some (OtherErr ''no kind''))
        else (\<lparr>av_Request = Some \<lparr>aq_UID = b, aq_Kind = ''Pod'', aq_Namespace = ''d'', aq_Object = p\<rparr>,
               av_Response = None\<rparr>, None)),
     cd_unmarshalPod = Inr, cd_marshalOps = Inr, cd_marshalReview = (\<lambda>r. Inr ((case av_Response r of Some a \<Rightarrow> as_UID a | None \<Rightarrow> []) @ ''{}'')), cd_write = (\<lambda>b. None),
     cd_message = (\<lambda>e. ''error'')\<rparr>"

interpretation mem_api: api_server "mem_patch True" "mem_codec p" Some for p
  by unfold_locales (simp_all add: mem_codec_def)

definition demo_request :: "string \<Rightarrow> httpRequest" where
  "demo_request b = \<lparr>hr_Body = Some (Inr b), hr_ContentType = ''application/json''\<rparr>"

section \<open>The properties\<close>

text \<open>The body and the review the handler works on.\<close>

definition decoded :: "('r, 'p) codec \<Rightarrow> httpRequest \<Rightarrow> (('r, 'p) admissionReview \<times> goerr option) option" where
  "decoded C r =
     (case hr_Body r of
        Some (Inr b) \<Rightarrow> if b \<noteq> [] \<and> hr_ContentType r = ''application/json'' then Some (cd_decode C b) else None
      | _ \<Rightarrow> None)"

definition answer ::
    "('r, 'p) codec \<Rightarrow> (pod \<Rightarrow> jsonPatchOperation list) \<Rightarrow> 'r admissionRequest \<Rightarrow> goerr option
     \<Rightarrow> 'p admissionResponse option" where
  "answer C pa req err =
     (if aq_Kind req = ''Pod'' then Some (mutatePod C pa req) else map_option (error_response C) err)"

lemma mutateHandler_decoded:
  "mutateHandler C pa r =
     (case decoded C r of
        None \<Rightarrow> Inr [if case hr_Body r of Some (Inr b) \<Rightarrow> b = [] | _ \<Rightarrow> True then HttpError ''empty body'' 400
                     else HttpError ''Invalid Content-Type, expected `application/json`'' 415]
      | Some (review, err) \<Rightarrow>
          (case av_Request review of
             None \<Rightarrow> Inl NilDeref
           | Some req \<Rightarrow> Inr (write_review C
               (case answer C pa req err of
                  Some resp \<Rightarrow> review\<lparr>av_Response := Some (resp\<lparr>as_UID := aq_UID req\<rparr>)\<rparr>
                | None \<Rightarrow> review))))"
  by (auto simp: mutateHandler_def decoded_def answer_def Let_def split: option.splits sum.splits prod.splits)

text \<open>C7: the webhook end to end, from the request to the pod the server admits. For a decodable pod request the
  handler writes one review, whose response carries the request's UID and allows the pod. The server applies the
  patch of the response as RFC 6902 says. It obtains the pod with the rules of the request's namespace applied to
  it exactly when the pod already has every field those rules set, and it cannot apply the patch, so the request
  fails, when one is missing; a protected pod comes out unchanged.\<close>

theorem webhook_admits_scheduled_pod:
  assumes "api_server ap C parse"
    and "decoded C r = Some (review, err)" and "av_Request review = Some req" and "aq_Kind req = ''Pod''"
    and "cd_unmarshalPod C (aq_Object req) = Inr p"
    and "\<And>ops. \<exists>b. cd_marshalOps C ops = Inr b" and "\<And>v. \<exists>out. cd_marshalReview C v = Inr out"
    and "\<And>out. cd_write C out = None"
  shows "\<exists>resp out. mutateHandler C (GetPodSchedulingPatches m) r = Inr [WriteBody out] \<and>
    cd_marshalReview C (review\<lparr>av_Response := Some resp\<rparr>) = Inr out \<and> as_UID resp = aq_UID req \<and> as_Allowed resp \<and>
    admitted ap parse resp (in_namespace (aq_Namespace req) p) =
      (let p' = in_namespace (aq_Namespace req) p; rules = cluster_rules m p' @ namespace_rules m p'
       in if PodIsProtected p' then Some p'
          else if \<forall>s \<in> set rules. \<forall>path \<in> rule_paths s. has_path path p' then Some (fold ApplyToPod rules p')
          else None)"
proof -
  let ?pa = "GetPodSchedulingPatches m"
  let ?p = "in_namespace (aq_Namespace req) p"
  let ?resp = "(mutatePod C ?pa req)\<lparr>as_UID := aq_UID req\<rparr>"
  obtain b where b: "cd_marshalOps C (?pa ?p) = Inr b" using assms(6) by blast
  obtain out where out: "cd_marshalReview C (review\<lparr>av_Response := Some ?resp\<rparr>) = Inr out"
    using assms(7) by blast
  have "mutateHandler C ?pa r = Inr [WriteBody out]"
    by (simp add: mutateHandler_decoded assms(2,3,4,8) answer_def write_review_def out)
  moreover have "as_Allowed ?resp" using assms(5) b by (simp add: mutatePod_def Let_def)
  moreover have "admitted ap parse ?resp ?p = admitted ap parse (mutatePod C ?pa req) ?p"
    by (simp add: admitted_def)
  ultimately show ?thesis
    using pm.admits [OF assms(1,5) b] out
    by (intro exI [of _ ?resp] exI [of _ out]) (simp add: rules_fit_def pod_rules_def Let_def)
qed

theorem webhook_admits_scheduled_pod_witness:
  "\<exists>resp. mutateHandler (mem_codec placed_pod) (GetPodSchedulingPatches demo_podman) (demo_request ''u1'')
      = Inr [WriteBody (as_UID resp @ ''{}'')] \<and> as_UID resp = ''u1'' \<and> as_Allowed resp \<and>
    admitted (mem_patch True) Some resp (in_namespace ''d'' placed_pod)
      = Some ((in_namespace ''d'' placed_pod)\<lparr>p_NodeSelector := Some [(''zone'', ''b'')]\<rparr>)"
proof -
  let ?C = "mem_codec placed_pod"
  let ?q = "\<lparr>aq_UID = ''u1'', aq_Kind = ''Pod'', aq_Namespace = ''d'', aq_Object = placed_pod\<rparr>"
  let ?p = "in_namespace ''d'' placed_pod"
  have d: "decoded ?C (demo_request ''u1'') = Some (\<lparr>av_Request = Some ?q, av_Response = None\<rparr>, None)"
    by (simp add: decoded_def demo_request_def mem_codec_def)
  have c: "cd_unmarshalPod ?C (aq_Object ?q) = Inr placed_pod" "\<And>ops. \<exists>b. cd_marshalOps ?C ops = Inr b"
    "\<And>v. \<exists>out. cd_marshalReview ?C v = Inr out" "\<And>out. cd_write ?C out = None"
    by (simp_all add: mem_codec_def)
  have u: "\<not> PodIsProtected ?p" by code_simp
  have rules: "cluster_rules demo_podman ?p @ namespace_rules demo_podman ?p = [demo_rule ''a'', demo_rule ''b'']" by code_simp
  have "has_path ''/spec/nodeSelector'' ?p" by (simp add: has_path_def placed_pod_def)
  then have f: "\<forall>s \<in> {demo_rule ''a'', demo_rule ''b''}. \<forall>path \<in> rule_paths s. has_path path ?p" using demo_rule_paths by auto
  have r: "fold ApplyToPod [demo_rule ''a'', demo_rule ''b''] ?p = ?p\<lparr>p_NodeSelector := Some [(''zone'', ''b'')]\<rparr>" by code_simp
  show ?thesis
    using webhook_admits_scheduled_pod [OF mem_api.api_server_axioms d _ _ c, of demo_podman] u f r
    by (auto simp: Let_def rules mem_codec_def)
qed

text \<open>C30: when the handler panics, exactly: when the body is not empty, has the JSON content type, and decoding
  leaves the review without a request. So the error response prepared for a body that cannot be decoded
  is sent only if decoding filled in the request before it failed; otherwise the server gets no answer.\<close>

theorem webhook_panics_iff:
  "(\<exists>p. mutateHandler C pa r = Inl p) \<longleftrightarrow>
     (\<exists>review err. decoded C r = Some (review, err) \<and> av_Request review = None)"
  by (auto simp: mutateHandler_decoded split: option.splits prod.splits)

theorem webhook_panics_iff_witness:
  "\<exists>p. mutateHandler (mem_codec (demo_pod '''' [])) (GetPodSchedulingPatches demo_podman) (demo_request ''x'') = Inl p"
  using webhook_panics_iff [of "mem_codec (demo_pod '''' [])" "GetPodSchedulingPatches demo_podman" "demo_request ''x''"]
  by (auto simp: decoded_def demo_request_def mem_codec_def)

text \<open>The error answers. A request without a readable non-empty body is answered with status 400 and one with
  another content type with 415, in this order; a pod that cannot be unmarshalled, or whose operations
  cannot be encoded, is refused with the error's message and without a patch.\<close>

theorem webhook_error_answers:
  "((\<forall>b. hr_Body r \<noteq> Some (Inr b) \<or> b = []) \<longrightarrow> mutateHandler C pa r = Inr [HttpError ''empty body'' 400]) \<and>
   (\<forall>b. hr_Body r = Some (Inr b) \<and> b \<noteq> [] \<and> hr_ContentType r \<noteq> ''application/json'' \<longrightarrow>
     mutateHandler C pa r = Inr [HttpError ''Invalid Content-Type, expected `application/json`'' 415]) \<and>
   (as_Allowed (mutatePod C pa req) \<longleftrightarrow>
     (\<exists>p patch. cd_unmarshalPod C (aq_Object req) = Inr p \<and>
       cd_marshalOps C (pa (in_namespace (aq_Namespace req) p)) = Inr patch)) \<and>
   (\<not> as_Allowed (mutatePod C pa req) \<longrightarrow>
     as_Patch (mutatePod C pa req) = None \<and> (\<exists>e. as_Result (mutatePod C pa req) = Some (cd_message C e)))"
proof (intro conjI)
  show "(\<forall>b. hr_Body r \<noteq> Some (Inr b) \<or> b = []) \<longrightarrow> mutateHandler C pa r = Inr [HttpError ''empty body'' 400]"
    by (auto simp: mutateHandler_decoded decoded_def split: option.splits sum.splits)
qed (auto simp: mutateHandler_decoded decoded_def mutatePod_def error_response_def Let_def split: sum.splits)

theorem webhook_error_answers_witness:
  "mutateHandler (mem_codec (demo_pod '''' [])) (GetPodSchedulingPatches demo_podman)
     \<lparr>hr_Body = Some (Inr ''u1''), hr_ContentType = ''text/plain''\<rparr>
     = Inr [HttpError ''Invalid Content-Type, expected `application/json`'' 415]"
  using webhook_error_answers [of "\<lparr>hr_Body = Some (Inr ''u1''), hr_ContentType = ''text/plain''\<rparr>"
      "mem_codec (demo_pod '''' [])" "GetPodSchedulingPatches demo_podman"] by simp

end
