(* ===== verification/KubeValet.thy ===== *)
theory KubeValet
  imports ResourceWatcher Webhook
begin

text \<open>
  The process: \<^verbatim>\<open>main.go\<close> (from the flags to the clients and the configuration, with its exit codes) and
  \<^verbatim>\<open>controller.go\<close> (\<^verbatim>\<open>KubeValet.Run\<close>: caches, webhook, then leader election). After start-up the process is a
  state machine: events and workers interleave with the two callbacks of the leader election. The step
  relation \<open>kv_step\<close> has these as steps, \<open>kv_reach\<close> its reachable states.
\<close>

section \<open>From the command line to the configuration\<close>

text \<open>The values kingpin parsed, with the defaults it filled in.\<close>

record flags =
  fl_logLevel :: string
  fl_inCluster :: bool
  fl_kubeconfig :: string
  fl_nodeAssignment :: bool
  fl_packLeft :: bool
  fl_podAssignment :: bool
  fl_numPodThreads :: int
  fl_leaderElection :: bool
  fl_electDuration :: int     \<comment> \<open>durations in nanoseconds\<close>
  fl_electDeadline :: int
  fl_electResource :: string
  fl_electRetry :: int
  fl_electName :: string
  fl_electID :: string
  fl_electNamespace :: string
  fl_listen :: string
  fl_tlsCertPath :: string
  fl_tlsKeyPath :: string

text \<open>What the libraries answer: the host name, whether a log level is known, the two sources of a client
  configuration, and the two client constructors.\<close>

record 'cfg platform =
  pf_hostname :: string
  pf_LogLevel :: "string \<Rightarrow> goerr option"
  pf_InClusterConfig :: "goerr + 'cfg"
  pf_BuildConfigFromFlags :: "string \<Rightarrow> goerr + 'cfg"
  pf_kubeClient :: "'cfg \<Rightarrow> goerr option"
  pf_valetClient :: "'cfg \<Rightarrow> goerr option"

text \<open>\<open>Inl n\<close> is \<^verbatim>\<open>os.Exit(n)\<close>.\<close>

definition getConfig :: "flags \<Rightarrow> 'cfg platform \<Rightarrow> int + 'cfg" where
  "getConfig fl pf =
     (if fl_inCluster fl
      then (case pf_InClusterConfig pf of Inl err \<Rightarrow> Inl 1 | Inr config \<Rightarrow> Inr config)
      else (case pf_BuildConfigFromFlags pf (fl_kubeconfig fl) of Inl err \<Rightarrow> Inl 1 | Inr config \<Rightarrow> Inr config))"

definition valet_main :: "flags \<Rightarrow> 'cfg platform \<Rightarrow> int + (valetConfig \<times> string)" where
  "valet_main fl pf =
     (let electID = (if fl_electID fl = '''' then pf_hostname pf else fl_electID fl) in
      case pf_LogLevel pf (fl_logLevel fl) of
        Some err \<Rightarrow> Inl 1
      | None \<Rightarrow>
          (case getConfig fl pf of
             Inl code \<Rightarrow> Inl code
           | Inr config \<Rightarrow>
               if pf_kubeClient pf config \<noteq> None then Inl 2
               else if pf_valetClient pf config \<noteq> None then Inl 2
               else Inr (\<lparr>vc_ParController = \<lparr>cc_Threads = fl_numPodThreads fl, cc_ShouldRun = fl_podAssignment fl\<rparr>,
                          vc_NagController = \<lparr>cc_Threads = 1, cc_ShouldRun = fl_nodeAssignment fl\<rparr>,
                          vc_PLController = \<lparr>cc_Threads = 1, cc_ShouldRun = fl_packLeft fl\<rparr>\<rparr>, electID)))"

section \<open>KubeValet.Run\<close>

text \<open>\<^verbatim>\<open>Run\<close> up to the election: the watcher, which has started its workers, and the function the webhook server
  gets, which reads the caches of the watcher as they are when a request comes.\<close>

record 'q kubeValet =
  kv_watcher :: "'q resourceWatcher"
  kv_podAssigner :: "'q resourceWatcher \<Rightarrow> pod \<Rightarrow> jsonPatchOperation list"

definition KubeValet_Run :: "'q watcherEnv \<Rightarrow> (string \<Rightarrow> bool) \<Rightarrow> caches \<Rightarrow> 'q \<Rightarrow> gopanic + 'q kubeValet" where
  "KubeValet_Run E synced ch q0 =
     (case watcher_Run (we_config E) synced ch q0 of
        Inl p \<Rightarrow> Inl p
      | Inr rw \<Rightarrow>
          Inr \<lparr>kv_watcher = rw, kv_podAssigner = (\<lambda>rw. GetPodSchedulingPatches (PodManager (ParController E rw)))\<rparr>)"

text \<open>The election. With leader election the callbacks run once each and then \<^verbatim>\<open>Run\<close> returns; without it the
  components are started at once and never stopped. The work of a worker is any change of the queue it serves;
  which queues are served is what \<^verbatim>\<open>Run\<close> of the watcher left behind.\<close>

datatype phase = Standby | Leading | Stopped

inductive kv_step ::
    "'q watcherEnv \<Rightarrow> bool \<Rightarrow> phase \<times> 'q resourceWatcher \<Rightarrow> phase \<times> 'q resourceWatcher \<Rightarrow> bool"
  for E :: "'q watcherEnv" and leaderElection :: bool where
  deliver: "handle_event E e (rw\<lparr>rw_caches := ch\<rparr>) = Inr rw' \<Longrightarrow> kv_step E leaderElection (ph, rw) (ph, rw')"
| work: "wq \<in> set (rw_served rw) \<Longrightarrow> kv_step E leaderElection (ph, rw) (ph, set_queue wq q rw)"
| elect: "StartElectedComponents E rw = Inr rw' \<Longrightarrow> kv_step E leaderElection (Standby, rw) (Leading, rw')"
| depose: "leaderElection \<Longrightarrow> kv_step E leaderElection (Leading, rw) (Stopped, StopElectedComponents rw)"

inductive kv_reach :: "'q watcherEnv \<Rightarrow> bool \<Rightarrow> phase \<times> 'q resourceWatcher \<Rightarrow> bool"
  for E :: "'q watcherEnv" and leaderElection :: bool where
  start: "KubeValet_Run E synced ch q0 = Inr kv \<Longrightarrow> kv_reach E leaderElection (Standby, kv_watcher kv)"
| step: "kv_reach E leaderElection s \<Longrightarrow> kv_step E leaderElection s s' \<Longrightarrow> kv_reach E leaderElection s'"

inductive_cases kv_stepE: "kv_step E le s s'"

section \<open>The invariant\<close>

definition served_queues :: "valetConfig \<Rightarrow> workQ list" where
  "served_queues cfg =
     (if cc_ShouldRun (vc_NagController cfg) then [NagQ] else []) @ (if cc_ShouldRun (vc_PLController cfg) then [PlQ] else [])"

definition kv_inv :: "'q watcherEnv \<Rightarrow> phase \<times> 'q resourceWatcher \<Rightarrow> bool" where
  "kv_inv E s \<longleftrightarrow> rw_served (snd s) = served_queues (we_config E) \<and>
     (if fst s = Leading then registered (elected_ctlrs (we_config E)) (elected_podCtlrs (we_config E)) (snd s)
      else registered [] [] (snd s))"

lemma registered_frame [simp]:
  "registered cs pcs (rw\<lparr>rw_caches := ch\<rparr>) = registered cs pcs rw"
  "registered cs pcs (set_queue wq q rw) = registered cs pcs rw"
  by (simp add: registered_def, cases wq) (simp_all add: registered_def)

lemma served_frame [simp]:
  "rw_served (set_queue wq q rw) = rw_served rw" "rw_served (with_elected E rw) = rw_served rw"
  "rw_served (StopElectedComponents rw) = rw_served rw"
  by (cases wq) (simp_all add: with_elected_def StopElectedComponents_def clearAllControllers_def)

lemma registered_elected:
  "registered [] [] rw \<Longrightarrow> registered (elected_ctlrs (we_config E)) (elected_podCtlrs (we_config E)) (with_elected E rw)"
  by (simp add: registered_def with_elected_def)

lemma registered_stopped: "registered [] [] (StopElectedComponents rw)"
  by (simp add: registered_def StopElectedComponents_def clearAllControllers_def)

lemma watcher_Run_cases:
  "watcher_Run cfg synced ch q0 = Inr rw \<Longrightarrow>
     registered [] [] rw \<and> rw_served rw = served_queues cfg \<and> rw_caches rw = ch"
  by (auto simp: watcher_Run_def registered_def served_queues_def Let_def split: sum.splits if_splits)

lemma KubeValet_Run_inv: "KubeValet_Run E synced ch q0 = Inr kv \<Longrightarrow> kv_inv E (Standby, kv_watcher kv)"
  by (auto simp: KubeValet_Run_def kv_inv_def dest: watcher_Run_cases split: sum.splits)

lemma kv_inv_step:
  assumes "kv_step E le s s'" and "kv_inv E s"
  shows "kv_inv E s'"
  using assms
proof (induction rule: kv_step.induct)
  case (deliver e ch rw rw' ph)
  then show ?case
    using handle_event_frame(1,3) [OF _ elected_ctlrs_distinct deliver(1)]
      handle_event_frame(1,3) [of "[]" "[]", OF _ _ _ deliver(1)]
    by (auto simp: kv_inv_def split: if_splits)
next
  case (elect rw rw')
  then have "registered (elected_ctlrs (we_config E)) (elected_podCtlrs (we_config E)) (with_elected E rw)"
    by (simp add: kv_inv_def registered_elected)
  from resync_nodes_frame [OF this elected_ctlrs_distinct, of E "fst (we_resync E (rw_caches rw))"] elect show ?case
    by (auto simp: kv_inv_def StartElectedComponents_eq)
qed (auto simp: kv_inv_def registered_stopped)

lemma kv_reach_inv: "kv_reach E le s \<Longrightarrow> kv_inv E s"
proof (induction rule: kv_reach.induct)
  case (start synced ch q0 kv)
  then show ?case by (simp add: KubeValet_Run_inv)
qed (rule kv_inv_step)


section \<open>An environment for the examples\<close>

definition demo_cfg :: valetConfig where
  "demo_cfg = \<lparr>vc_ParController = \<lparr>cc_Threads = 1, cc_ShouldRun = True\<rparr>,
     vc_NagController = \<lparr>cc_Threads = 1, cc_ShouldRun = True\<rparr>, vc_PLController = \<lparr>cc_Threads = 1, cc_ShouldRun = True\<rparr>\<rparr>"

text \<open>Its resync hands every cached node to the update handler.\<close>

definition demo_wenv :: "memq watcherEnv" where
  "demo_wenv = \<lparr>we_config = demo_cfg, we_queue = mem_queue, we_nagKey = (\<lambda>g. Inr (nag_Name g)),
     we_podKey = (\<lambda>p. Inr (om_Namespace (p_meta p) @ ''/'' @ om_Name (p_meta p))),
     we_resync = (\<lambda>ch. (ch_nodes ch, None))\<rparr>"

interpretation mem_watcher: watcher_env demo_wenv mem_pend mem_busy
proof -
  have "rate_limited_queue (we_queue demo_wenv) mem_pend mem_busy"
    using mem_rlq.rate_limited_queue_axioms by (simp add: demo_wenv_def)
  then show "watcher_env demo_wenv mem_pend mem_busy" by (rule watcher_env.intro)
qed

definition demo_ch :: caches where
  "demo_ch = \<lparr>ch_pods = [], ch_nodes = demo_nodes, ch_nags = [demo_live], ch_pars = [], ch_cpars = []\<rparr>"

definition empty_memq :: memq where
  "empty_memq = \<lparr>mq_waiting = [], mq_busy = [], mq_requeues = []\<rparr>"

definition demo_standby :: "memq resourceWatcher" where
  "demo_standby = \<lparr>rw_caches = demo_ch, rw_nodeControllers = [], rw_nagControllers = [], rw_podControllers = [],
     rw_parQ = empty_memq, rw_nagQ = empty_memq, rw_plQ = empty_memq, rw_served = [NagQ, PlQ]\<rparr>"

definition demo_leader :: "memq resourceWatcher" where
  "demo_leader = demo_standby\<lparr>rw_nodeControllers := [NagCtlr, PlCtlr], rw_nagControllers := [NagCtlr, PlCtlr],
     rw_podControllers := [ParPodCtlr, PlPodCtlr]\<rparr>"

lemma demo_standby_reach: "kv_reach demo_wenv le (Standby, demo_standby)"
proof -
  have "\<exists>kv. KubeValet_Run demo_wenv (\<lambda>_. True) demo_ch empty_memq = Inr kv \<and> kv_watcher kv = demo_standby"
    by (simp add: KubeValet_Run_def watcher_Run_def waitForCacheSync_def Let_def demo_standby_def demo_wenv_def demo_cfg_def)
  then show ?thesis using kv_reach.start by metis
qed

lemma demo_nodes_wf: "\<forall>n \<in> set demo_nodes. wf_map (node_Labels n)"
  by (simp add: demo_nodes_def demo_defs wf_map_def)

lemma demo_elect: "StartElectedComponents demo_wenv demo_standby = Inr demo_leader"
proof -
  have w: "with_elected demo_wenv demo_standby = demo_leader"
    by (simp add: with_elected_def demo_leader_def demo_standby_def elected_ctlrs_def elected_podCtlrs_def
        demo_wenv_def demo_cfg_def)
  have r: "registered [NagCtlr, PlCtlr] [ParPodCtlr, PlPodCtlr] demo_leader"
    by (simp add: registered_def demo_leader_def)
  have "fst (we_resync demo_wenv (rw_caches demo_standby)) = demo_nodes"
    by (simp add: demo_wenv_def demo_standby_def demo_ch_def)
  then show ?thesis
    using mem_watcher.resync_unchanged [OF r _ demo_nodes_wf] by (simp add: StartElectedComponents_eq w)
qed

lemma demo_leader_reach: "kv_reach demo_wenv le (Leading, demo_leader)"
  by (rule kv_reach.step [OF demo_standby_reach kv_step.elect [OF demo_elect]])

section \<open>The properties\<close>

text \<open>C9: the registration invariant. In every reachable state, whatever events, workers and elections came
  before, a leader has each controller that its configuration enables registered exactly once with each
  kind of event it handles, and a process that is not the leader has none registered.\<close>

theorem registration_invariant:
  assumes "kv_reach E leaderElection (ph, rw)"
  shows "rw_nodeControllers rw = (if ph = Leading then elected_ctlrs (we_config E) else []) \<and>
    rw_nagControllers rw = (if ph = Leading then elected_ctlrs (we_config E) else []) \<and>
    rw_podControllers rw = (if ph = Leading then elected_podCtlrs (we_config E) else []) \<and>
    distinct (rw_nodeControllers rw) \<and> distinct (rw_podControllers rw)"
  using kv_reach_inv [OF assms] by (auto simp: kv_inv_def registered_def split: if_splits)

theorem registration_invariant_witness:
  "rw_nodeControllers demo_leader = [NagCtlr, PlCtlr]"
  using registration_invariant [OF demo_leader_reach]
  by (simp add: elected_ctlrs_def demo_wenv_def demo_cfg_def)

text \<open>A process that is not the leader only follows its caches. An event leaves the queues and the
  registered controllers as they are, except that the tombstone of a missed deletion panics; that it does in
  every phase, because the handler asserts the type of the object before it looks at the controllers.\<close>

theorem standby_ignores_events:
  assumes "kv_reach E leaderElection (ph, rw)"
  shows "(ph \<noteq> Leading \<and> \<not> tombstone e \<longrightarrow> handle_event E e (rw\<lparr>rw_caches := ch\<rparr>) = Inr (rw\<lparr>rw_caches := ch\<rparr>)) \<and>
    ((\<exists>p. handle_event E e (rw\<lparr>rw_caches := ch\<rparr>) = Inl p) \<longleftrightarrow> tombstone e)"
proof (intro conjI impI)
  assume "ph \<noteq> Leading \<and> \<not> tombstone e"
  then show "handle_event E e (rw\<lparr>rw_caches := ch\<rparr>) = Inr (rw\<lparr>rw_caches := ch\<rparr>)"
    using kv_reach_inv [OF assms] by (simp add: kv_inv_def handle_event_idle)
qed (metis Inl_Inr_False handle_event_panic)

theorem standby_ignores_events_witness:
  "handle_event demo_wenv (AddNag demo_live) (demo_standby\<lparr>rw_caches := demo_ch\<rparr>) = Inr demo_standby"
  using standby_ignores_events [OF demo_standby_reach, of "AddNag demo_live" demo_ch]
  by (simp add: demo_standby_def)

text \<open>C8: what an event does to the queues of a leader, for all events and both group controllers: the node
  assignment queue gains exactly the keys of \<open>nag_groups\<close>, the PackLeft queue those of \<open>pl_groups\<close> and the
  pod rule queue those of \<open>par_pods\<close>, each only if its controller is enabled; no key is lost.\<close>

theorem leader_event_routing:
  assumes "rate_limited_queue (we_queue E) pend busy" and "kv_reach E leaderElection (Leading, rw)"
    and "handle_event E e (rw\<lparr>rw_caches := ch\<rparr>) = Inr rw'"
  shows "pend (rw_nagQ rw') = pend (rw_nagQ rw) \<union>
      (if cc_ShouldRun (vc_NagController (we_config E)) then keys (we_nagKey E) (nag_groups ch e) else {}) \<and>
    pend (rw_plQ rw') = pend (rw_plQ rw) \<union>
      (if cc_ShouldRun (vc_PLController (we_config E)) then keys (we_nagKey E) (pl_groups ch e) else {}) \<and>
    pend (rw_parQ rw') = pend (rw_parQ rw) \<union>
      (if cc_ShouldRun (vc_ParController (we_config E)) then keys (we_podKey E) (par_pods e) else {})"
proof -
  have "registered (elected_ctlrs (we_config E)) (elected_podCtlrs (we_config E)) (rw\<lparr>rw_caches := ch\<rparr>)"
    using kv_reach_inv [OF assms(2)] by (simp add: kv_inv_def)
  from watcher_env.routing [OF watcher_env.intro [OF assms(1)] this _ _ _ assms(3)]
  show ?thesis by (simp add: routed_def)
qed

lemma demo_queue: "rate_limited_queue (we_queue demo_wenv) mem_pend mem_busy"
  using mem_rlq.rate_limited_queue_axioms by (simp add: demo_wenv_def)

lemma demo_key: "we_nagKey demo_wenv demo_live = Inr ''io''"
  by (simp add: demo_wenv_def demo_live_def demo_nag_def demo_meta_def)

lemma demo_runs:
  "cc_ShouldRun (vc_NagController (we_config demo_wenv))" "cc_ShouldRun (vc_PLController (we_config demo_wenv))"
  "cc_ShouldRun (vc_ParController (we_config demo_wenv))"
  by (simp_all add: demo_wenv_def demo_cfg_def)

theorem leader_event_routing_witness:
  "\<exists>rw'. handle_event demo_wenv (AddNag demo_live) (demo_leader\<lparr>rw_caches := demo_ch\<rparr>) = Inr rw' \<and>
     ''io'' \<in> mem_pend (rw_nagQ rw') \<and> ''io'' \<in> mem_pend (rw_plQ rw')"
proof -
  obtain rw' where h: "handle_event demo_wenv (AddNag demo_live) (demo_leader\<lparr>rw_caches := demo_ch\<rparr>) = Inr rw'" by simp
  have "''io'' \<in> mem_pend (rw_nagQ rw') \<and> ''io'' \<in> mem_pend (rw_plQ rw')"
    using leader_event_routing [OF demo_queue demo_leader_reach h] by (simp add: demo_key demo_runs)
  then show ?thesis using h by blast
qed

text \<open>C29: being elected queues nothing. If the resync hands out at most nodes of the cache, each as an update to
  itself, then starting the elected components changes no queue, so the groups and pods whose events came
  while the process was not the leader stay unprocessed until another event concerns them. Starting up
  without leader election is the same transition: groups that exist before are not queued by it.\<close>

theorem election_queues_nothing:
  assumes "rate_limited_queue (we_queue E) pend busy" and "kv_reach E leaderElection (Standby, rw)"
    and "\<forall>n \<in> set (fst (we_resync E (rw_caches rw))). wf_map (node_Labels n)"
  shows "\<exists>rw'. StartElectedComponents E rw = Inr rw' \<and> kv_reach E leaderElection (Leading, rw') \<and>
    queues_of rw' = queues_of rw \<and> rw_caches rw' = rw_caches rw"
proof -
  have "registered (elected_ctlrs (we_config E)) (elected_podCtlrs (we_config E)) (with_elected E rw)"
    using kv_reach_inv [OF assms(2)] by (simp add: kv_inv_def registered_elected)
  from watcher_env.resync_unchanged [OF watcher_env.intro [OF assms(1)] this _ assms(3)]
  have "StartElectedComponents E rw = Inr (with_elected E rw)" by (simp add: StartElectedComponents_eq)
  then show ?thesis
    using kv_reach.step [OF assms(2) kv_step.elect] by (auto simp: queues_of_def with_elected_def)
qed

theorem election_queues_nothing_witness:
  "\<exists>rw'. StartElectedComponents demo_wenv demo_standby = Inr rw' \<and> mem_pend (rw_nagQ rw') = {} \<and>
     ch_nags (rw_caches rw') = [demo_live]"
proof -
  have w: "\<forall>n \<in> set (fst (we_resync demo_wenv (rw_caches demo_standby))). wf_map (node_Labels n)"
    using demo_nodes_wf by (simp add: demo_wenv_def demo_standby_def demo_ch_def)
  obtain rw' where "StartElectedComponents demo_wenv demo_standby = Inr rw'" "queues_of rw' = queues_of demo_standby"
    "rw_caches rw' = rw_caches demo_standby"
    using election_queues_nothing [OF demo_queue demo_standby_reach [of True] w] by blast
  then show ?thesis by (auto simp: queues_of_def demo_standby_def empty_memq_def mem_pend_def demo_ch_def)
qed

section \<open>Queues that are served and one that is not\<close>

lemma resync_parQ:
  assumes "registered cs pcs rw" and "distinct cs" and "distinct pcs" and "resync_nodes E ns rw = Inr rw'"
  shows "rw_parQ rw' = rw_parQ rw"
  using assms
proof (induction ns arbitrary: rw)
  case (Cons n ns)
  obtain rw1 where 1: "handle_event E (UpdateNode n n) rw = Inr rw1" by simp
  have "rw_parQ rw1 = rw_parQ rw" using 1 Cons.prems(1,2) by (auto simp: registered_def fold_on_nag_queue)
  then show ?case using Cons.IH [of rw1] handle_event_frame(1) [OF Cons.prems(1-3) 1] Cons.prems 1 by simp
qed simp

lemma parQ_step:
  assumes q: "rate_limited_queue (we_queue E) pend busy" and "kv_step E le s s'" and "kv_inv E s"
  shows "pend (rw_parQ (snd s)) \<subseteq> pend (rw_parQ (snd s'))"
  using assms(2,3)
proof (induction rule: kv_step.induct)
  case (deliver e ch rw rw' ph)
  show ?case
  proof (cases "ph = Leading")
    case True
    then have r: "registered (elected_ctlrs (we_config E)) (elected_podCtlrs (we_config E)) (rw\<lparr>rw_caches := ch\<rparr>)"
      using deliver(2) by (simp add: kv_inv_def)
    have "routed E pend (elected_ctlrs (we_config E)) (elected_podCtlrs (we_config E)) ch e (rw\<lparr>rw_caches := ch\<rparr>) rw'"
      using watcher_env.routing [OF watcher_env.intro [OF q] r _ _ _ deliver(1)] by simp
    then show ?thesis by (auto simp: routed_def)
  next
    case False
    then have "registered [] [] (rw\<lparr>rw_caches := ch\<rparr>)" using deliver(2) by (simp add: kv_inv_def)
    then show ?thesis using deliver(1) handle_event_panic [of E e "rw\<lparr>rw_caches := ch\<rparr>"] handle_event_idle
      by (cases "tombstone e") (auto simp: handle_event_idle)
  qed
next
  case (elect rw rw')
  then have "registered (elected_ctlrs (we_config E)) (elected_podCtlrs (we_config E)) (with_elected E rw)"
    by (simp add: kv_inv_def registered_elected)
  from resync_parQ [OF this elected_ctlrs_distinct] elect show ?case
    by (simp add: StartElectedComponents_eq with_elected_def)
next
  case (work wq rw ph q)
  then have "wq \<noteq> ParQ" by (auto simp: kv_inv_def served_queues_def split: if_splits)
  then show ?case by (cases wq) simp_all
qed (simp_all add: StopElectedComponents_def clearAllControllers_def)

text \<open>C40: nothing takes keys out of the pod rule queue. \<^verbatim>\<open>Run\<close> of the watcher starts workers on the queues of the
  two group controllers only, so along every run the pending keys of the pod rule queue only grow, and a key that is
  in it stays for ever.\<close>

theorem pod_rule_queue_only_grows:
  assumes "rate_limited_queue (we_queue E) pend busy" and "kv_reach E leaderElection s"
    and "(kv_step E leaderElection)\<^sup>*\<^sup>* s s'"
  shows "pend (rw_parQ (snd s)) \<subseteq> pend (rw_parQ (snd s'))"
  using assms(3)
proof (induction rule: rtranclp_induct)
  case (step t u)
  have "kv_reach E leaderElection t"
    using step(1) by (induction rule: rtranclp_induct) (auto intro: assms(2) kv_reach.step)
  then show ?case using step parQ_step [OF assms(1) step(2) kv_reach_inv] by blast
qed simp

theorem pod_rule_queue_only_grows_witness:
  "\<exists>rw'. kv_step demo_wenv True (Leading, demo_leader) (Leading, rw') \<and>
     (\<forall>s'. (kv_step demo_wenv True)\<^sup>*\<^sup>* (Leading, rw') s' \<longrightarrow> ''d/pod'' \<in> mem_pend (rw_parQ (snd s')))"
proof -
  let ?e = "AddPod (demo_pod ''d'' [])"
  obtain rw' where h: "handle_event demo_wenv ?e (demo_leader\<lparr>rw_caches := demo_ch\<rparr>) = Inr rw'" by simp
  have st: "kv_step demo_wenv True (Leading, demo_leader) (Leading, rw')" by (rule kv_step.deliver [OF h])
  have r: "registered [NagCtlr, PlCtlr] [ParPodCtlr, PlPodCtlr] (demo_leader\<lparr>rw_caches := demo_ch\<rparr>)"
    by (simp add: registered_def demo_leader_def)
  have "routed demo_wenv mem_pend [NagCtlr, PlCtlr] [ParPodCtlr, PlPodCtlr] demo_ch ?e (demo_leader\<lparr>rw_caches := demo_ch\<rparr>) rw'"
    using mem_watcher.routing [OF r _ _ _ h] by simp
  then have "''d/pod'' \<in> mem_pend (rw_parQ rw')"
    by (simp add: routed_def demo_wenv_def demo_pod_def demo_meta_def)
  then show ?thesis
    using st pod_rule_queue_only_grows [OF demo_queue kv_reach.step [OF demo_leader_reach st]] by fastforce
qed

section \<open>A group an event wakes is processed\<close>





end
