(* ===== verification/Valetctl.thy ===== *)
theory Valetctl
  imports PodRules
begin

text \<open>
  \<^verbatim>\<open>bin/valetctl.go\<close>, the command line tool: creating groups and pod rules from the command line, and the two
  reports. \<^verbatim>\<open>cliFlags\<close> are the values the flag pointers hold, \<open>cliEnv\<close> what the libraries and the servers
  answer. A command ends with the process exit of \<^verbatim>\<open>app.Fatalf\<close> or \<^verbatim>\<open>app.FatalUsage\<close>, of whose message the
  constant part is kept, or with a list of effects. \<^verbatim>\<open>strconv.ParseInt(s, 10, 32)\<close> is written out.
\<close>

section \<open>Flags, environment, effects\<close>

record cliFlags =
  vf_kubeconfig :: string
  vf_dryRun :: bool
  vf_output :: string
  vf_groupTargetLabels :: string
  vf_groupName :: string
  vf_groupAssignments :: "string list"
  vf_nagNames :: "string list"
  vf_nodeNames :: "string list"
  vf_namespace :: string
  vf_targetLabels :: string
  vf_nodeSelector :: string
  vf_nodeAffinity :: string
  vf_assignment :: string
  vf_topologyKey :: string
  vf_name :: string
  vf_mode :: string

datatype cliExit = FatalUsage string | Fatalf string

datatype cliObject = NagObj nag | ParObj podAssignmentRule | CparObj clusterPodAssignmentRule

text \<open>The kind and the API version a dry run fills in, and the object.\<close>

record typedObject =
  to_Kind :: string
  to_APIVersion :: string
  to_Object :: cliObject

datatype cliEffect =
    Created cliObject
  | Print string
  | PrintRow "string list"      \<comment> \<open>one row of cells of a table\<close>
  | PrintErr string

record 'cfg cliEnv =
  ce_convert :: "string \<Rightarrow> goerr + (string \<times> string) list"
  ce_create :: "cliObject \<Rightarrow> goerr option"
  ce_listNags :: "goerr + nag list"
  ce_getNag :: "string \<Rightarrow> goerr + nag"
  ce_listNodes :: "goerr + node list"
  ce_getNode :: "string \<Rightarrow> goerr + node"
  ce_marshal :: "string \<Rightarrow> typedObject \<Rightarrow> goerr + string"
  ce_range :: "string list \<Rightarrow> string list"
  ce_kubeconfigVar :: string
  ce_home :: string
  ce_joinPath :: "string list \<Rightarrow> string"
  ce_buildConfig :: "string \<Rightarrow> goerr + 'cfg"
  ce_kubeClient :: "'cfg \<Rightarrow> goerr option"
  ce_valetClient :: "'cfg \<Rightarrow> goerr option"
  ce_message :: "goerr \<Rightarrow> string"

section \<open>Numbers\<close>

definition is_digit :: "char \<Rightarrow> bool" where
  "is_digit c \<longleftrightarrow> c \<in> set ''0123456789''"

definition digits_val :: "string \<Rightarrow> int" where
  "digits_val s = foldl (\<lambda>v c. 10 * v + (of_char c - 48)) 0 s"

definition ParseInt32 :: "string \<Rightarrow> int option" where
  "ParseInt32 s =
     (let (neg, ds) = (case s of
            [] \<Rightarrow> (False, [])
          | c # cs \<Rightarrow> if c = CHR ''-'' then (True, cs) else if c = CHR ''+'' then (False, cs) else (False, s))
      in if ds = [] \<or> \<not> list_all is_digit ds then None
         else (let v = (if neg then - digits_val ds else digits_val ds)
               in if - (2 ^ 31) \<le> v \<and> v < 2 ^ 31 then Some v else None))"

text \<open>The regular expression \<^verbatim>\<open>^\d+$\<close>.\<close>

definition all_digits :: "string \<Rightarrow> bool" where
  "all_digits s \<longleftrightarrow> s \<noteq> [] \<and> list_all is_digit s"

definition has_percent :: "string \<Rightarrow> bool" where
  "has_percent s \<longleftrightarrow> suffix ''%'' s"

definition trim_percent :: "string \<Rightarrow> string" where
  "trim_percent s = (if suffix ''%'' s then butlast s else s)"

section \<open>Creating a group\<close>

definition cli_assignment :: "string \<Rightarrow> string \<Rightarrow> int \<Rightarrow> int \<Rightarrow> nodeAssignment" where
  "cli_assignment name mode num percent =
     \<lparr>na_Name = name, na_Mode = mode, na_TaintEffect = '''', na_NumDesired = num, na_PercentDesired = percent,
      na_SchedulingMode = '''', na_PackLeft = None\<rparr>"

definition groupCreate_arg :: "string \<Rightarrow> nodeAssignmentGroupSpec \<Rightarrow> cliExit + nodeAssignmentGroupSpec" where
  "groupCreate_arg assign spec =
     (case (case splitn 3 (CHR '':'') assign of
              [a] \<Rightarrow> Inr (a, ''DEFAULT'', NodeAssignmentModeLabelOnly)
            | [a, n] \<Rightarrow> Inr (a, n, NodeAssignmentModeLabelOnly)
            | [a, n, m] \<Rightarrow> Inr (a, n, m)
            | _ \<Rightarrow> Inl (FatalUsage ''Invalid assignment argument'')) of
        Inl e \<Rightarrow> Inl e
      | Inr (name, num, mode) \<Rightarrow>
          if num = ''DEFAULT''
          then Inr (spec\<lparr>nags_DefaultAssignment := Some (cli_assignment name mode 0 0)\<rparr>)
          else if has_percent num then
            (case ParseInt32 (trim_percent num) of
               None \<Rightarrow> Inl (FatalUsage ''Error parsing assignment NUM'')
             | Some percentDesired \<Rightarrow>
                 Inr (spec\<lparr>nags_Assignments := nags_Assignments spec @ [cli_assignment name mode 0 percentDesired]\<rparr>))
          else if all_digits num then
            (case ParseInt32 (trim_percent num) of
               None \<Rightarrow> Inl (FatalUsage ''Error parsing assignment NUM'')
             | Some numDesired \<Rightarrow>
                 Inr (spec\<lparr>nags_Assignments := nags_Assignments spec @ [cli_assignment name mode numDesired 0]\<rparr>))
          else Inl (FatalUsage ''Unsupported value for assignment NUM''))"

fun groupCreate_loop :: "string list \<Rightarrow> nodeAssignmentGroupSpec \<Rightarrow> cliExit + nodeAssignmentGroupSpec" where
  "groupCreate_loop [] spec = Inr spec"
| "groupCreate_loop (a # as) spec =
     (case groupCreate_arg a spec of Inl e \<Rightarrow> Inl e | Inr spec1 \<Rightarrow> groupCreate_loop as spec1)"

definition cli_meta :: "string \<Rightarrow> string \<Rightarrow> objectMeta" where
  "cli_meta name ns = \<lparr>om_Name = name, om_Namespace = ns, om_Labels = None, om_Finalizers = [],
     om_DeletionTimestamp = None, om_ResourceVersion = '''', om_UID = ''''\<rparr>"

definition api_version :: string where
  "api_version = GroupName @ ''/'' @ ''v1alpha1''"

definition outputObject :: "'cfg cliEnv \<Rightarrow> cliFlags \<Rightarrow> typedObject \<Rightarrow> cliExit + cliEffect list" where
  "outputObject E fl obj =
     (if vf_output fl = ''json'' then
        (case ce_marshal E ''json'' obj of
           Inl err \<Rightarrow> Inl (Fatalf ''Unable to marshal object'') | Inr data \<Rightarrow> Inr [Print data, Print ''\<newline>''])
      else if vf_output fl = ''yaml'' then
        (case ce_marshal E ''yaml'' obj of
           Inl err \<Rightarrow> Inl (Fatalf ''Unable to marshal object'') | Inr data \<Rightarrow> Inr [Print data])
      else Inr [])"

definition groupCreate :: "'cfg cliEnv \<Rightarrow> cliFlags \<Rightarrow> cliExit + cliEffect list" where
  "groupCreate E fl =
     (case ce_convert E (vf_groupTargetLabels fl) of
        Inl err \<Rightarrow> Inl (FatalUsage ''Error parsing targetLabels'')
      | Inr targetLabels \<Rightarrow>
          (case groupCreate_loop (vf_groupAssignments fl)
                  \<lparr>nags_TargetLabels = targetLabels, nags_DefaultAssignment = None, nags_Assignments = []\<rparr> of
             Inl e \<Rightarrow> Inl e
           | Inr spec \<Rightarrow>
               (let nag = \<lparr>nag_meta = cli_meta (vf_groupName fl) '''', nag_Spec = spec, nag_NumMatched = 0\<rparr>
                in if vf_dryRun fl
                   then outputObject E fl
                     \<lparr>to_Kind = ''NodeAssignmentGroup'', to_APIVersion = api_version, to_Object = NagObj nag\<rparr>
                   else (case ce_create E (NagObj nag) of
                           None \<Rightarrow> Inr [Created (NagObj nag), Print (''NodeAssignmentGroup '' @ vf_groupName fl @ '' created'')]
                         | Some err \<Rightarrow> Inl (Fatalf ''Unable to create new NodeAssignmentGroup'')))))"

section \<open>Creating a pod rule\<close>

definition cli_affinity :: affinity where
  "cli_affinity = \<lparr>aff_NodeAffinity = None, aff_PodAffinity = None, aff_PodAntiAffinity = None\<rparr>"

definition applyTermToSpec ::
    "string \<Rightarrow> nodeSelectorTerm \<Rightarrow> podAssignmentRuleScheduling \<Rightarrow> cliExit + podAssignmentRuleScheduling" where
  "applyTermToSpec mode trm s =
     (if mode = ''require'' then
        Inr (s\<lparr>prs_Affinity := Some (cli_affinity\<lparr>aff_NodeAffinity :=
          Some \<lparr>naff_Required = Some [trm], naff_Preferred = []\<rparr>\<rparr>)\<rparr>)
      else if mode = ''prefer'' then
        Inr (s\<lparr>prs_Affinity := Some (cli_affinity\<lparr>aff_NodeAffinity :=
          Some \<lparr>naff_Required = None, naff_Preferred = [\<lparr>pst_Weight = 100, pst_Preference = trm\<rparr>]\<rparr>\<rparr>)\<rparr>)
      else Inl (Fatalf ''Unable to apply term for mode''))"

definition nag_prefix :: string where
  "nag_prefix = ''nag.assignments.kube-valet.io/''"

definition cli_term :: "string \<Rightarrow> string \<Rightarrow> string list \<Rightarrow> nodeSelectorTerm" where
  "cli_term key op vals =
     \<lparr>nst_MatchExpressions = [\<lparr>nsr_Key = key, nsr_Operator = op, nsr_Values = vals\<rparr>]\<rparr>"

text \<open>\<^verbatim>\<open>-A group/assignment,...\<close>\<close>

definition assignment_step :: "cliFlags \<Rightarrow> podAssignmentRuleScheduling \<Rightarrow> cliExit + podAssignmentRuleScheduling" where
  "assignment_step fl s =
     (if (vf_mode fl = ''prefer'' \<or> vf_mode fl = ''require'') \<and> vf_assignment fl \<noteq> '''' then
        (case split_on (CHR ''/'') (vf_assignment fl) of
           [g, vs] \<Rightarrow>
             applyTermToSpec (vf_mode fl) (cli_term (nag_prefix @ g) ''In'' (split_on (CHR '','') vs))
               (s\<lparr>prs_Tolerations := prs_Tolerations s @
                  map (\<lambda>v. \<lparr>tol_Key = nag_prefix @ g, tol_Operator = ''Equal'', tol_Value = v, tol_Effect = ''''\<rparr>)
                    (split_on (CHR '','') vs)\<rparr>)
         | [g] \<Rightarrow>
             applyTermToSpec (vf_mode fl) (cli_term (nag_prefix @ g) ''Exists'' [])
               (s\<lparr>prs_Tolerations :=
                  [\<lparr>tol_Key = nag_prefix @ g, tol_Operator = ''Exists'', tol_Value = '''', tol_Effect = ''''\<rparr>]\<rparr>)
         | _ \<Rightarrow> Inl (FatalUsage ''Invalid assignment''))
      else Inr s)"

text \<open>\<^verbatim>\<open>-a key=value,...\<close>\<close>

definition nodeAffinity_step :: "cliFlags \<Rightarrow> podAssignmentRuleScheduling \<Rightarrow> cliExit + podAssignmentRuleScheduling" where
  "nodeAffinity_step fl s =
     (if (vf_mode fl = ''prefer'' \<or> vf_mode fl = ''require'') \<and> vf_nodeAffinity fl \<noteq> '''' then
        (case split_on (CHR ''='') (vf_nodeAffinity fl) of
           [k, vs] \<Rightarrow> applyTermToSpec (vf_mode fl) (cli_term k ''In'' (split_on (CHR '','') vs)) s
         | [k] \<Rightarrow> applyTermToSpec (vf_mode fl) (cli_term k ''Exists'' []) s
         | _ \<Rightarrow> Inl (FatalUsage ''Invalid NodeAffinity target''))
      else Inr s)"

definition nodeSelector_step ::
    "'cfg cliEnv \<Rightarrow> cliFlags \<Rightarrow> podAssignmentRuleScheduling \<Rightarrow> cliExit + podAssignmentRuleScheduling" where
  "nodeSelector_step E fl s =
     (if vf_mode fl = ''nodes'' \<and> vf_nodeSelector fl \<noteq> '''' then
        (case ce_convert E (vf_nodeSelector fl) of
           Inl err \<Rightarrow> Inl (FatalUsage ''Error parsing nodeSelector labels'')
         | Inr m \<Rightarrow> Inr (s\<lparr>prs_NodeSelector := Some m\<rparr>))
      else Inr s)"

text \<open>The four modes about other pods.\<close>

definition others_step ::
    "cliFlags \<Rightarrow> (string \<times> string) list \<Rightarrow> podAssignmentRuleScheduling \<Rightarrow> podAssignmentRuleScheduling" where
  "others_step fl targetLabels s =
     (if vf_mode fl \<in> {''prefer-others'', ''require-others'', ''avoid-others'', ''deny-others''} then
        (let paTerm = \<lparr>pat_MatchExpressions =
               map (\<lambda>(k, v). \<lparr>lsr_Key = k, lsr_Operator = ''In'', lsr_Values = [v]\<rparr>) targetLabels,
               pat_TopologyKey = vf_topologyKey fl\<rparr>;
             preferred = \<lparr>paff_Required = [], paff_Preferred = [(100, paTerm)]\<rparr>;
             required = \<lparr>paff_Required = [paTerm], paff_Preferred = []\<rparr>;
             a1 = (if vf_mode fl = ''prefer-others'' then cli_affinity\<lparr>aff_PodAffinity := Some preferred\<rparr> else cli_affinity);
             a2 = (if vf_mode fl = ''require-others'' then a1\<lparr>aff_PodAffinity := Some required\<rparr> else a1);
             a3 = (if vf_mode fl = ''avoid-others'' then a2\<lparr>aff_PodAntiAffinity := Some preferred\<rparr> else a2);
             a4 = (if vf_mode fl = ''deny-others'' then a3\<lparr>aff_PodAntiAffinity := Some required\<rparr> else a3)
         in s\<lparr>prs_Affinity := Some a4\<rparr>)
      else s)"

definition rule_spec :: "'cfg cliEnv \<Rightarrow> cliFlags \<Rightarrow> cliExit + podAssignmentRuleSpec" where
  "rule_spec E fl =
     (case ce_convert E (vf_targetLabels fl) of
        Inl err \<Rightarrow> Inl (FatalUsage ''Error parsing targetLabels'')
      | Inr targetLabels \<Rightarrow>
          (case assignment_step fl \<lparr>prs_MergeStrategy = MergeStrategyDefault, prs_NodeSelector = None,
                  prs_Affinity = None, prs_Tolerations = []\<rparr> of
             Inl e \<Rightarrow> Inl e
           | Inr s1 \<Rightarrow>
               (case nodeAffinity_step fl s1 of
                  Inl e \<Rightarrow> Inl e
                | Inr s2 \<Rightarrow>
                    (case nodeSelector_step E fl s2 of
                       Inl e \<Rightarrow> Inl e
                     | Inr s3 \<Rightarrow> Inr \<lparr>par_TargetLabels = targetLabels,
                                     par_Scheduling = others_step fl targetLabels s3\<rparr>))))"

definition assignmentCreate :: "'cfg cliEnv \<Rightarrow> cliFlags \<Rightarrow> cliExit + cliEffect list" where
  "assignmentCreate E fl =
     (case rule_spec E fl of
        Inl e \<Rightarrow> Inl e
      | Inr spec \<Rightarrow>
          if vf_namespace fl \<noteq> '''' then
            (let par = \<lparr>par_meta = cli_meta (vf_name fl) (vf_namespace fl), par_Spec = spec\<rparr>
             in if vf_dryRun fl
                then outputObject E fl
                  \<lparr>to_Kind = ''PodAssignmentRule'', to_APIVersion = api_version, to_Object = ParObj par\<rparr>
                else (case ce_create E (ParObj par) of
                        None \<Rightarrow> Inr [Created (ParObj par),
                          Print (''PodAssignmentRule '' @ vf_groupName fl @ '' created in '' @ vf_namespace fl)]
                      | Some err \<Rightarrow> Inl (Fatalf ''Unable to create new ClusterPodAssignmentRule'')))
          else
            (let cpar = \<lparr>cpar_meta = cli_meta (vf_name fl) '''', cpar_Spec = spec\<rparr>
             in if vf_dryRun fl
                then outputObject E fl
                  \<lparr>to_Kind = ''ClusterPodAssignmentRule'', to_APIVersion = api_version, to_Object = CparObj cpar\<rparr>
                else (case ce_create E (CparObj cpar) of
                        None \<Rightarrow> Inr [Created (CparObj cpar),
                          Print (''ClusterPodAssignmentRule '' @ vf_groupName fl @ '' created'')]
                      | Some err \<Rightarrow> Inl (Fatalf ''Unable to create new ClusterPodAssignmentRule''))))"

section \<open>The reports\<close>

text \<open>The members of each assignment of a group: a map from the assignment name to node names.\<close>

definition add_member :: "string \<Rightarrow> string \<Rightarrow> string list gomap \<Rightarrow> string list gomap" where
  "add_member asg name m =
     Some (AList.update asg ((case mget m asg of None \<Rightarrow> [] | Some ns \<Rightarrow> ns) @ [name]) (mitems m))"

definition assignmentMembers :: "nag \<Rightarrow> node list \<Rightarrow> string list gomap" where
  "assignmentMembers nag nodes =
     fold (\<lambda>node m. fold (\<lambda>(lk, lv) m.
         if lk = nag_prefix @ nag_Name nag then add_member lv (node_Name node) m else m)
       (mitems (node_Labels node)) m) nodes (Some [])"

definition set_members :: "string \<Rightarrow> string list \<Rightarrow> string list gomap \<Rightarrow> string list gomap" where
  "set_members asg ns m = Some (AList.update asg ns (mitems m))"

text \<open>One row: the next member of every assignment that has one left.\<close>

fun report_row :: "string list \<Rightarrow> string list gomap \<Rightarrow> string list \<times> string list gomap" where
  "report_row [] m = ([], m)"
| "report_row (a # as) m =
     (case mget m a of
        Some (member # rest) \<Rightarrow> (case report_row as (set_members a rest m) of (cells, m') \<Rightarrow> (member # cells, m'))
      | _ \<Rightarrow> (case report_row as m of (cells, m') \<Rightarrow> ('''' # cells, m')))"

fun report_rows :: "nat \<Rightarrow> string list \<Rightarrow> string list gomap \<Rightarrow> string list list" where
  "report_rows 0 as m = []"
| "report_rows (Suc n) as m = (case report_row as m of (cells, m') \<Rightarrow> cells # report_rows n as m')"

definition num_rows :: "string list gomap \<Rightarrow> nat" where
  "num_rows m = fold (\<lambda>(k, v) n. if length v > n then length v else n) (mitems m) 0"

text \<open>The table of one group: its header and its rows. \<open>ce_range\<close> is the order in which the map is visited.\<close>

definition report_table :: "'cfg cliEnv \<Rightarrow> nag \<Rightarrow> node list \<Rightarrow> string list \<times> string list list" where
  "report_table E nag nodes =
     (let m = assignmentMembers nag nodes; assignments = ce_range E (map fst (mitems m))
      in (assignments, report_rows (num_rows m) assignments m))"

text \<open>Fetching by name: the objects found, and the map from the other names to their errors.\<close>

fun fetch_loop ::
    "(string \<Rightarrow> goerr + 'a) \<Rightarrow> string list \<Rightarrow> 'a list \<Rightarrow> (string \<times> goerr) list \<Rightarrow> 'a list \<times> (string \<times> goerr) list" where
  "fetch_loop get [] xs errs = (xs, errs)"
| "fetch_loop get (n # ns) xs errs =
     (case get n of
        Inl err \<Rightarrow> fetch_loop get ns xs (AList.update n err errs)
      | Inr x \<Rightarrow> fetch_loop get ns (xs @ [x]) errs)"

definition fetch_all :: "(string \<Rightarrow> goerr + 'a) \<Rightarrow> string list \<Rightarrow> 'a list \<times> (string \<times> goerr) list" where
  "fetch_all get ns = fetch_loop get ns [] []"

definition groupReportByNag :: "'cfg cliEnv \<Rightarrow> cliFlags \<Rightarrow> cliExit + cliEffect list" where
  "groupReportByNag E fl =
     (case (if vf_nagNames fl = [] then map_sum id (\<lambda>gs. (gs, [])) (ce_listNags E)
            else Inr (fetch_all (ce_getNag E) (vf_nagNames fl))) of
        Inl err \<Rightarrow> Inl (Fatalf ''Error fetching NodeAssignmentGroups'')
      | Inr (nags, fetchErrors) \<Rightarrow>
          if nags \<noteq> [] then
            (case ce_listNodes E of
               Inl err \<Rightarrow> Inl (Fatalf ''Error fetching Nodes'')
             | Inr nodes \<Rightarrow> Inr (concat (map (\<lambda>nag.
                 (case report_table E nag nodes of (header, rows) \<Rightarrow>
                   [Print (''========= NAG '' @ nag_Name nag @ '' Assignments ========='')] @
                   [PrintRow header] @ map PrintRow rows @ [Print ''''] @
                   map (\<lambda>(n, err). PrintErr (''Error fetching '' @ n @ '': '' @ ce_message E err)) fetchErrors)) nags)))
          else Inr [Print ''No resources found.''])"

definition node_row :: "node \<Rightarrow> string list" where
  "node_row node =
     (let protected = (if mget (node_Labels node) ProtectedNodeLabelKey = Some ProtectedLabelValue
                       then [''PROTECTED''] else []);
          part1 = (\<lambda>key. splitn 2 (CHR ''/'') key ! 1);
          assignLabels = protected @ map (\<lambda>(lk, lv). part1 lk @ ''/'' @ lv)
            (filter (\<lambda>(lk, lv). prefix nag_prefix lk) (mitems (node_Labels node)));
          assignTaints = protected @ map (\<lambda>t. part1 (taint_Key t) @ ''/'' @ taint_Value t @ '':'' @ taint_Effect t)
            (filter (\<lambda>t. prefix nag_prefix (taint_Key t)) (n_Taints node))
      in [node_Name node, join '','' assignLabels, join '','' assignTaints])"

definition groupReportByNode :: "'cfg cliEnv \<Rightarrow> cliFlags \<Rightarrow> cliExit + cliEffect list" where
  "groupReportByNode E fl =
     (case (if vf_nodeNames fl = [] then ce_listNodes E
            else Inr (fst (fetch_all (ce_getNode E) (vf_nodeNames fl)))) of
        Inl err \<Rightarrow> Inl (Fatalf ''Error fetching Nodes'')
      | Inr nodes \<Rightarrow> Inr (PrintRow [''NODE'', ''NAG-ASSIGNMENTS'', ''NAG-TAINTS''] # map (PrintRow \<circ> node_row) nodes))"

section \<open>main\<close>

text \<open>\<open>fl0\<close> are the values the flag pointers hold before parsing, where the clients are configured.\<close>

definition cli_getConfig :: "'cfg cliEnv \<Rightarrow> cliFlags \<Rightarrow> cliExit + 'cfg" where
  "cli_getConfig E fl =
     (let path = (if vf_kubeconfig fl = '''' then
                    (if ce_kubeconfigVar E \<noteq> '''' then ce_kubeconfigVar E
                     else if ce_home E \<noteq> '''' then ce_joinPath E [ce_home E, ''.kube'', ''config''] else vf_kubeconfig fl)
                  else vf_kubeconfig fl)
      in case ce_buildConfig E path of
           Inl err \<Rightarrow> Inl (Fatalf ''Error getting Kubernetes client config'') | Inr config \<Rightarrow> Inr config)"

definition configureClients :: "'cfg cliEnv \<Rightarrow> cliFlags \<Rightarrow> cliExit + 'cfg" where
  "configureClients E fl =
     (case cli_getConfig E fl of
        Inl e \<Rightarrow> Inl e
      | Inr config \<Rightarrow>
          if ce_kubeClient E config \<noteq> None then Inl (Fatalf ''Error creating Kubernetes client'')
          else if ce_valetClient E config \<noteq> None then Inl (Fatalf ''Error creating kube-valet client'')
          else Inr config)"

datatype cliCommand = GroupCreate | GroupReportNags | GroupReportNodes | AssignmentCreate | OtherCommand

definition run_command :: "'cfg cliEnv \<Rightarrow> cliCommand \<Rightarrow> cliFlags \<Rightarrow> cliExit + cliEffect list" where
  "run_command E cmd fl =
     (case cmd of
        GroupCreate \<Rightarrow> groupCreate E fl
      | GroupReportNags \<Rightarrow>
          if vf_dryRun fl then Inl (Fatalf ''Report cannot be run in dry-run mode'') else groupReportByNag E fl
      | GroupReportNodes \<Rightarrow>
          if vf_dryRun fl then Inl (Fatalf ''Report cannot be run in dry-run mode'') else groupReportByNode E fl
      | AssignmentCreate \<Rightarrow> assignmentCreate E fl
      | OtherCommand \<Rightarrow> Inr [])"

text \<open>\<open>Env config\<close> is the environment the clients made from \<open>config\<close> give.\<close>

definition valetctl_main ::
    "('cfg \<Rightarrow> 'cfg cliEnv) \<Rightarrow> 'cfg cliEnv \<Rightarrow> cliFlags \<Rightarrow> cliCommand \<times> cliFlags \<Rightarrow> cliExit + cliEffect list" where
  "valetctl_main Env E0 fl0 parsed =
     (if \<not> vf_dryRun fl0 then
        (case configureClients E0 fl0 of
           Inl e \<Rightarrow> Inl e
         | Inr config \<Rightarrow> run_command (Env config) (fst parsed) (snd parsed))
      else run_command E0 (fst parsed) (snd parsed))"

section \<open>Reading back what was written: the arguments of a group\<close>

fun show_dec :: "nat \<Rightarrow> string" where
  "show_dec n = (if n < 10 then [char_of (n + 48)] else show_dec (n div 10) @ [char_of (n mod 10 + 48)])"

declare show_dec.simps [simp del]

lemma digit_char: "d < 10 \<Longrightarrow> is_digit (char_of (d + 48 :: nat)) \<and> of_char (char_of (d + 48 :: nat)) = (int d + 48)"
proof -
  assume "d < 10"
  then have "d = 0 \<or> d = 1 \<or> d = 2 \<or> d = 3 \<or> d = 4 \<or> d = 5 \<or> d = 6 \<or> d = 7 \<or> d = 8 \<or> d = 9"
    by presburger
  then show ?thesis
    by (elim disjE) (simp_all add: is_digit_def char_of_def bit_0)
qed

lemma digits_val_snoc: "digits_val (s @ [c]) = 10 * digits_val s + (of_char c - 48)"
  by (simp add: digits_val_def)

lemma show_dec_digits: "show_dec n \<noteq> [] \<and> list_all is_digit (show_dec n) \<and> digits_val (show_dec n) = int n"
proof (induction n rule: show_dec.induct)
  case (1 n)
  show ?case
  proof (cases "n < 10")
    case True
    then show ?thesis using digit_char [of n] by (subst (1 2 3) show_dec.simps) (simp add: digits_val_def)
  next
    case False
    have "10 * int (n div 10) + int (n mod 10) = int n" by presburger
    then show ?thesis using False 1 digit_char [of "n mod 10"]
      by (subst (1 2 3) show_dec.simps) (auto simp: digits_val_snoc)
  qed
qed

lemma ParseInt32_digits:
  "ds \<noteq> [] \<Longrightarrow> list_all is_digit ds \<Longrightarrow>
   ParseInt32 ds = (if - (2 ^ 31) \<le> digits_val ds \<and> digits_val ds < 2 ^ 31 then Some (digits_val ds) else None)"
  by (cases ds) (auto simp: ParseInt32_def is_digit_def Let_def)

lemma ParseInt32_show: "int n < 2 ^ 31 \<Longrightarrow> ParseInt32 (show_dec n) = Some (int n)"
  using show_dec_digits [of n] by (simp add: ParseInt32_digits)

lemma ParseInt32_bounds: "ParseInt32 s = Some v \<Longrightarrow> - (2 ^ 31) \<le> v \<and> v < 2 ^ 31"
  by (auto simp: ParseInt32_def Let_def split: if_splits prod.splits)

lemma digits_val_nonneg: "list_all is_digit s \<Longrightarrow> 0 \<le> digits_val s"
proof (induction s rule: rev_induct)
  case (snoc c s)
  then have "0 \<le> (of_char c - 48 :: int)" by (auto simp: is_digit_def)
  with snoc show ?case by (simp add: digits_val_snoc)
qed (simp add: digits_val_def)

lemma no_digit: "list_all is_digit s \<Longrightarrow> \<not> is_digit c \<Longrightarrow> c \<notin> set s"
  by (auto simp: list_all_iff)

lemma show_dec_clean: "CHR ''%'' \<notin> set (show_dec n)" "CHR '':'' \<notin> set (show_dec n)"
  using no_digit [of "show_dec n"] show_dec_digits [of n] by (simp_all add: is_digit_def)

lemma show_dec_no_percent [simp]: "\<not> suffix ''%'' (show_dec n)"
  using show_dec_clean(1) [of n] by (auto simp: suffix_def)

lemmas show_dec_no_colon = show_dec_clean(2)

lemma show_dec_not_DEFAULT: "show_dec n \<noteq> ''DEFAULT''" "show_dec n @ ''%'' \<noteq> ''DEFAULT''"
proof -
  have d: "list_all is_digit (show_dec n)" using show_dec_digits by blast
  show "show_dec n \<noteq> ''DEFAULT''"
  proof
    assume "show_dec n = ''DEFAULT''"
    with d have "list_all is_digit ''DEFAULT''" by simp
    then show False by (simp add: is_digit_def)
  qed
  show "show_dec n @ ''%'' \<noteq> ''DEFAULT''"
  proof
    assume "show_dec n @ ''%'' = ''DEFAULT''"
    then have "last (show_dec n @ ''%'') = last ''DEFAULT''" by (rule arg_cong)
    then show False by simp
  qed
qed

text \<open>An argument that stands for an assignment: \<^verbatim>\<open>NAME:NUM:MODE\<close>, \<^verbatim>\<open>NAME:NUM%:MODE\<close>, or with \<^verbatim>\<open>DEFAULT\<close>.\<close>

definition num_arg :: "nodeAssignment \<Rightarrow> string" where
  "num_arg a = (if na_PercentDesired a \<noteq> 0 then show_dec (nat (na_PercentDesired a)) @ ''%''
                else show_dec (nat (na_NumDesired a)))"

definition assignment_arg :: "nodeAssignment \<Rightarrow> string" where
  "assignment_arg a = na_Name a @ '':'' @ num_arg a @ '':'' @ na_Mode a"

definition default_arg :: "nodeAssignment \<Rightarrow> string" where
  "default_arg a = na_Name a @ '':'' @ ''DEFAULT'' @ '':'' @ na_Mode a"

text \<open>The assignments that can be written on the command line.\<close>

definition expressible :: "nodeAssignment \<Rightarrow> bool" where
  "expressible a \<longleftrightarrow> CHR '':'' \<notin> set (na_Name a) \<and>
     a = cli_assignment (na_Name a) (na_Mode a) (na_NumDesired a) (na_PercentDesired a) \<and>
     (na_NumDesired a = 0 \<or> na_PercentDesired a = 0) \<and>
     0 \<le> na_NumDesired a \<and> na_NumDesired a < 2 ^ 31 \<and> 0 \<le> na_PercentDesired a \<and> na_PercentDesired a < 2 ^ 31"

lemma splitn_three:
  "CHR '':'' \<notin> set a \<Longrightarrow> CHR '':'' \<notin> set n \<Longrightarrow> splitn 3 (CHR '':'') (a @ '':'' @ n @ '':'' @ m) = [a, n, m]"
  using splitn_append_sep [of "CHR '':''" a 1 "n @ '':'' @ m"] splitn_append_sep [of "CHR '':''" n 0 m]
  by (simp add: numeral_3_eq_3)

lemma num_arg_no_colon: "CHR '':'' \<notin> set (num_arg a)"
  using show_dec_no_colon by (simp add: num_arg_def)

lemma groupCreate_arg_assignment:
  assumes "expressible a"
  shows "groupCreate_arg (assignment_arg a) spec = Inr (spec\<lparr>nags_Assignments := nags_Assignments spec @ [a]\<rparr>)"
proof -
  have s: "splitn 3 (CHR '':'') (assignment_arg a) = [na_Name a, num_arg a, na_Mode a]"
    using assms splitn_three num_arg_no_colon by (simp add: assignment_arg_def expressible_def)
  show ?thesis
  proof (cases "na_PercentDesired a = 0")
    case True
    then have n: "num_arg a = show_dec (nat (na_NumDesired a))" by (simp add: num_arg_def)
    have "int (nat (na_NumDesired a)) = na_NumDesired a" "na_NumDesired a < 2 ^ 31"
      using assms by (simp_all add: expressible_def)
    moreover have "a = cli_assignment (na_Name a) (na_Mode a) (na_NumDesired a) (na_PercentDesired a)"
      using assms unfolding expressible_def by blast
    ultimately have "a = cli_assignment (na_Name a) (na_Mode a) (int (nat (na_NumDesired a))) 0"
      "int (nat (na_NumDesired a)) < 2 ^ 31" using True by simp_all
    then show ?thesis
      using s show_dec_digits [of "nat (na_NumDesired a)"]
      by (simp add: groupCreate_arg_def n show_dec_not_DEFAULT has_percent_def show_dec_no_percent all_digits_def
          trim_percent_def ParseInt32_show)
  next
    case False
    then have n: "num_arg a = show_dec (nat (na_PercentDesired a)) @ ''%''" by (simp add: num_arg_def)
    have "na_NumDesired a = 0" "int (nat (na_PercentDesired a)) = na_PercentDesired a" "na_PercentDesired a < 2 ^ 31"
      using assms False by (simp_all add: expressible_def)
    moreover have "a = cli_assignment (na_Name a) (na_Mode a) (na_NumDesired a) (na_PercentDesired a)"
      using assms unfolding expressible_def by blast
    ultimately have "a = cli_assignment (na_Name a) (na_Mode a) 0 (int (nat (na_PercentDesired a)))"
      "int (nat (na_PercentDesired a)) < 2 ^ 31" by simp_all
    then show ?thesis
      using s by (simp add: groupCreate_arg_def n show_dec_not_DEFAULT has_percent_def trim_percent_def ParseInt32_show)
  qed
qed

lemma groupCreate_arg_default:
  assumes "expressible a" and "na_NumDesired a = 0" and "na_PercentDesired a = 0"
  shows "groupCreate_arg (default_arg a) spec = Inr (spec\<lparr>nags_DefaultAssignment := Some a\<rparr>)"
proof -
  have s: "splitn 3 (CHR '':'') (default_arg a) = [na_Name a, ''DEFAULT'', na_Mode a]"
    using assms(1) splitn_three [of "na_Name a" "''DEFAULT''"] by (simp add: default_arg_def expressible_def)
  have "a = cli_assignment (na_Name a) (na_Mode a) (na_NumDesired a) (na_PercentDesired a)"
    using assms(1) unfolding expressible_def by blast
  then have "a = cli_assignment (na_Name a) (na_Mode a) 0 0" using assms(2,3) by simp
  then show ?thesis using s by (simp add: groupCreate_arg_def)
qed

lemma groupCreate_loop_append:
  "groupCreate_loop (as @ bs) spec =
     (case groupCreate_loop as spec of Inl e \<Rightarrow> Inl e | Inr spec1 \<Rightarrow> groupCreate_loop bs spec1)"
  by (induction as arbitrary: spec) (auto split: sum.splits)

lemma groupCreate_loop_assignments:
  "\<forall>a \<in> set as. expressible a \<Longrightarrow>
   groupCreate_loop (map assignment_arg as) spec = Inr (spec\<lparr>nags_Assignments := nags_Assignments spec @ as\<rparr>)"
proof (induction as arbitrary: spec)
  case (Cons a as)
  then show ?case by (simp add: groupCreate_arg_assignment)
qed simp

text \<open>C19: the command line of \<^verbatim>\<open>group create\<close> can express every simple group, and is read back exactly: writing
  each assignment as \<^verbatim>\<open>NAME:NUM:MODE\<close> or \<^verbatim>\<open>NAME:NUM%:MODE\<close> and the default as \<^verbatim>\<open>NAME:DEFAULT:MODE\<close>
  and parsing these arguments gives the same assignments in the same order and the same default.\<close>

theorem groupCreate_roundtrip:
  assumes "\<forall>a \<in> set as. expressible a"
    and "case dflt of None \<Rightarrow> True | Some d \<Rightarrow> expressible d \<and> na_NumDesired d = 0 \<and> na_PercentDesired d = 0"
  shows "groupCreate_loop (map assignment_arg as @ (case dflt of None \<Rightarrow> [] | Some d \<Rightarrow> [default_arg d]))
      \<lparr>nags_TargetLabels = ls, nags_DefaultAssignment = None, nags_Assignments = []\<rparr> =
    Inr \<lparr>nags_TargetLabels = ls, nags_DefaultAssignment = dflt, nags_Assignments = as\<rparr>"
  using assms(2)
  by (cases dflt) (simp_all add: groupCreate_loop_append groupCreate_loop_assignments [OF assms(1)] groupCreate_arg_default)

theorem groupCreate_roundtrip_witness:
  "groupCreate_loop [''assign1:25%:LabelAndTaint'', ''rest:DEFAULT:LabelOnly'']
     \<lparr>nags_TargetLabels = [], nags_DefaultAssignment = None, nags_Assignments = []\<rparr> =
   Inr \<lparr>nags_TargetLabels = [], nags_DefaultAssignment = Some (cli_assignment ''rest'' ''LabelOnly'' 0 0),
     nags_Assignments = [cli_assignment ''assign1'' ''LabelAndTaint'' 0 25]\<rparr>"
proof -
  let ?a = "cli_assignment ''assign1'' ''LabelAndTaint'' 0 25"
  let ?d = "cli_assignment ''rest'' ''LabelOnly'' 0 0"
  have e: "\<forall>a \<in> set [?a]. expressible a" "expressible ?d" by (simp_all add: expressible_def cli_assignment_def)
  have "show_dec 25 = ''25''" by code_simp
  then have args: "assignment_arg ?a = ''assign1:25%:LabelAndTaint''" "default_arg ?d = ''rest:DEFAULT:LabelOnly''"
    by (simp_all add: assignment_arg_def default_arg_def num_arg_def cli_assignment_def)
  show ?thesis
    using groupCreate_roundtrip [OF e(1), of "Some ?d" "[]"] e(2) by (simp add: args) (simp add: cli_assignment_def)
qed

definition in_bounds :: "nodeAssignment \<Rightarrow> bool" where
  "in_bounds a \<longleftrightarrow> (na_NumDesired a = 0 \<or> na_PercentDesired a = 0) \<and> 0 \<le> na_NumDesired a \<and> na_NumDesired a < 2 ^ 31 \<and>
     - (2 ^ 31) \<le> na_PercentDesired a \<and> na_PercentDesired a < 2 ^ 31 \<and> na_TaintEffect a = '''' \<and> na_PackLeft a = None"

lemma groupCreate_arg_shape:
  assumes "groupCreate_arg a spec = Inr spec1"
  shows "\<exists>new. nags_Assignments spec1 = nags_Assignments spec @ new \<and> nags_TargetLabels spec1 = nags_TargetLabels spec \<and>
    list_all in_bounds new"
proof -
  have num: "0 \<le> v \<and> v < 2 ^ 31" if "all_digits s" "\<not> has_percent s" "ParseInt32 (trim_percent s) = Some v" for s v
    using that ParseInt32_bounds [of s v] digits_val_nonneg [of s] ParseInt32_digits [of s]
    by (auto simp: all_digits_def has_percent_def trim_percent_def split: if_splits)
  show ?thesis
    using assms
    by (auto simp: groupCreate_arg_def cli_assignment_def in_bounds_def split: list.splits sum.splits if_splits option.splits
        dest: num ParseInt32_bounds)
qed

lemma groupCreate_loop_shape:
  "groupCreate_loop args spec = Inr spec' \<Longrightarrow>
   \<exists>new. nags_Assignments spec' = nags_Assignments spec @ new \<and> nags_TargetLabels spec' = nags_TargetLabels spec \<and>
     list_all in_bounds new"
proof (induction args arbitrary: spec)
  case (Cons a args)
  then obtain spec1 where 1: "groupCreate_arg a spec = Inr spec1" "groupCreate_loop args spec1 = Inr spec'"
    by (auto split: sum.splits)
  obtain new1 where "nags_Assignments spec1 = nags_Assignments spec @ new1" "nags_TargetLabels spec1 = nags_TargetLabels spec"
    "list_all in_bounds new1" using groupCreate_arg_shape [OF 1(1)] by blast
  moreover obtain new2 where "nags_Assignments spec' = nags_Assignments spec1 @ new2"
    "nags_TargetLabels spec' = nags_TargetLabels spec1" "list_all in_bounds new2" using Cons.IH [OF 1(2)] by blast
  ultimately show ?case by (intro exI [of _ "new1 @ new2"]) simp
qed simp

text \<open>What \<^verbatim>\<open>group create\<close> accepts. Every assignment it reads asks for a number or a percentage but not both;
  a number is never negative and both fit 32 bits. A percentage may be negative or above 100 and the mode
  may be any string: they are not checked.\<close>

theorem groupCreate_bounds:
  assumes "groupCreate_loop args spec = Inr spec'"
  shows "\<exists>new. nags_Assignments spec' = nags_Assignments spec @ new \<and> nags_TargetLabels spec' = nags_TargetLabels spec \<and>
    (\<forall>a \<in> set new. (na_NumDesired a = 0 \<or> na_PercentDesired a = 0) \<and>
       0 \<le> na_NumDesired a \<and> na_NumDesired a < 2 ^ 31 \<and> - (2 ^ 31) \<le> na_PercentDesired a \<and> na_PercentDesired a < 2 ^ 31 \<and>
       na_TaintEffect a = '''' \<and> na_PackLeft a = None)"
  using groupCreate_loop_shape [OF assms] unfolding in_bounds_def list_all_iff .

theorem groupCreate_bounds_witness:
  "groupCreate_loop [''a:-5%:Nonsense''] \<lparr>nags_TargetLabels = [], nags_DefaultAssignment = None, nags_Assignments = []\<rparr> =
     Inr \<lparr>nags_TargetLabels = [], nags_DefaultAssignment = None, nags_Assignments = [cli_assignment ''a'' ''Nonsense'' 0 (-5)]\<rparr> \<and>
   na_PercentDesired (cli_assignment ''a'' ''Nonsense'' 0 (-5)) \<ge> - (2 ^ 31)"
proof -
  have w: "groupCreate_loop [''a:-5%:Nonsense''] \<lparr>nags_TargetLabels = [], nags_DefaultAssignment = None, nags_Assignments = []\<rparr> =
     Inr \<lparr>nags_TargetLabels = [], nags_DefaultAssignment = None, nags_Assignments = [cli_assignment ''a'' ''Nonsense'' 0 (-5)]\<rparr>"
    by code_simp
  show ?thesis using w groupCreate_bounds [OF w] by simp
qed


section \<open>Rules that fit the groups\<close>

text \<open>How the Kubernetes scheduler reads the two things a rule for an assignment consists of: tolerations
  without an effect, and required node expressions.\<close>

locale scheduler =
  fixes tolerates :: "toleration \<Rightarrow> taint \<Rightarrow> bool"
    and selects :: "nodeSelectorRequirement \<Rightarrow> node \<Rightarrow> bool"
  assumes equal: "tol_Operator tol = ''Equal'' \<Longrightarrow> tol_Effect tol = '''' \<Longrightarrow>
      tolerates tol t \<longleftrightarrow> taint_Key t = tol_Key tol \<and> taint_Value t = tol_Value tol"
    and exists: "tol_Operator tol = ''Exists'' \<Longrightarrow> tol_Effect tol = '''' \<Longrightarrow> tol_Key tol \<noteq> '''' \<Longrightarrow>
      tolerates tol t \<longleftrightarrow> taint_Key t = tol_Key tol"
    and sel_in: "nsr_Operator r = ''In'' \<Longrightarrow>
      selects r n \<longleftrightarrow> (\<exists>v \<in> set (nsr_Values r). mget (node_Labels n) (nsr_Key r) = Some v)"
    and sel_exists: "nsr_Operator r = ''Exists'' \<Longrightarrow> selects r n \<longleftrightarrow> mget (node_Labels n) (nsr_Key r) \<noteq> None"

definition k8s_tolerates :: "toleration \<Rightarrow> taint \<Rightarrow> bool" where
  "k8s_tolerates tol t \<longleftrightarrow>
     (tol_Effect tol = '''' \<or> tol_Effect tol = taint_Effect t) \<and>
     (tol_Key tol = '''' \<or> tol_Key tol = taint_Key t) \<and>
     (if tol_Operator tol = ''Exists'' then True
      else tol_Operator tol \<in> {'''', ''Equal''} \<and> tol_Key tol = taint_Key t \<and> tol_Value tol = taint_Value t)"

definition k8s_selects :: "nodeSelectorRequirement \<Rightarrow> node \<Rightarrow> bool" where
  "k8s_selects r n \<longleftrightarrow>
     (case mget (node_Labels n) (nsr_Key r) of
        Some v \<Rightarrow> nsr_Operator r = ''In'' \<and> v \<in> set (nsr_Values r) \<or> nsr_Operator r = ''NotIn'' \<and> v \<notin> set (nsr_Values r)
          \<or> nsr_Operator r = ''Exists''
      | None \<Rightarrow> nsr_Operator r \<in> {''NotIn'', ''DoesNotExist''})"

interpretation k8s: scheduler k8s_tolerates k8s_selects
  by unfold_locales (auto simp: k8s_tolerates_def k8s_selects_def split: option.splits)

lemma nag_prefix_assign_key: "nag_prefix @ g = assign_key g"
  by (simp add: nag_prefix_def assign_key_def GroupName_def)

text \<open>What the rule of \<^verbatim>\<open>require -A group/a,b,...\<close> puts into a pod.\<close>

definition required_exprs :: "pod \<Rightarrow> nodeSelectorRequirement list list" where
  "required_exprs p =
     (case Option.bind (Option.bind (p_Affinity p) aff_NodeAffinity) naff_Required of
        None \<Rightarrow> [] | Some ts \<Rightarrow> map nst_MatchExpressions ts)"

lemma split_assignment:
  assumes "CHR ''/'' \<notin> set g" and "vs \<noteq> []" and "\<forall>v \<in> set vs. CHR '','' \<notin> set v \<and> CHR ''/'' \<notin> set v"
  shows "split_on (CHR ''/'') (g @ ''/'' @ join '','' vs) = [g, join '','' vs]"
    and "split_on (CHR '','') (join '','' vs) = vs"
proof -
  have "CHR ''/'' \<notin> set (join '','' vs)" using assms(3) by (induction "'',''" vs rule: join.induct) auto
  then show "split_on (CHR ''/'') (g @ ''/'' @ join '','' vs) = [g, join '','' vs]"
    using split_on_append_sep [OF assms(1), of "join '','' vs"] by (simp add: split_on_no_sep)
  show "split_on (CHR '','') (join '','' vs) = vs" using split_on_join [OF assms(2)] assms(3) by simp
qed

lemma require_rule:
  assumes "rule_spec E fl = Inr spec" and "vf_mode fl = ''require''" and "vf_nodeAffinity fl = ''''"
    and "vf_assignment fl = g @ ''/'' @ join '','' vs"
    and "CHR ''/'' \<notin> set g" and "vs \<noteq> []" and "\<forall>v \<in> set vs. CHR '','' \<notin> set v \<and> CHR ''/'' \<notin> set v"
  shows "par_Scheduling spec = \<lparr>prs_MergeStrategy = MergeStrategyDefault, prs_NodeSelector = None,
     prs_Affinity = Some (cli_affinity\<lparr>aff_NodeAffinity :=
       Some \<lparr>naff_Required = Some [cli_term (assign_key g) ''In'' vs], naff_Preferred = []\<rparr>\<rparr>),
     prs_Tolerations = map (\<lambda>v. \<lparr>tol_Key = assign_key g, tol_Operator = ''Equal'', tol_Value = v, tol_Effect = ''''\<rparr>) vs\<rparr>"
  using assms(1-4) split_assignment [OF assms(5-7)]
  by (auto simp: rule_spec_def assignment_step_def nodeAffinity_step_def nodeSelector_step_def others_step_def
      applyTermToSpec_def nag_prefix_assign_key split: sum.splits)

text \<open>C18: the rules of the command line fit what the controller does to the nodes. Let a rule be created with
  \<^verbatim>\<open>require -A group/a,b,...\<close>. A pod that gets it requires exactly the nodes that the group's label gives to one
  of these assignments; and for each of them the node that \<^verbatim>\<open>Assign\<close> leaves is selected and the taint it
  may have added, whatever its effect, is tolerated.\<close>

theorem require_rule_fits_group:
  assumes "scheduler tolerates selects"
    and "rule_spec E fl = Inr spec" and "vf_mode fl = ''require''" and "vf_nodeAffinity fl = ''''"
    and "vf_assignment fl = nag_Name nag @ ''/'' @ join '','' vs"
    and "CHR ''/'' \<notin> set (nag_Name nag)" and "vs \<noteq> []" and "\<forall>v \<in> set vs. CHR '','' \<notin> set v \<and> CHR ''/'' \<notin> set v"
  shows "\<exists>req. required_exprs (ApplyToPod (par_Scheduling spec) p) = [[req]] \<and>
    (\<forall>n. selects req n \<longleftrightarrow> (\<exists>v \<in> set vs. GetAssignment nag n = Some v)) \<and>
    (\<forall>na n n' na'. na_Name na \<in> set vs \<and> known_mode na \<and> Assign nag n na = Inr (n', na') \<longrightarrow>
       selects req n' \<and>
       (\<forall>t \<in> set (n_Taints n') - set (n_Taints n).
          \<exists>tol \<in> set (p_Tolerations (ApplyToPod (par_Scheduling spec) p)). tolerates tol t))"
proof -
  let ?req = "\<lparr>nsr_Key = assign_key (nag_Name nag), nsr_Operator = ''In'', nsr_Values = vs\<rparr>"
  let ?p = "ApplyToPod (par_Scheduling spec) p"
  note rule = require_rule [OF assms(2-8)]
  have p: "required_exprs ?p = [[?req]]" "p_Tolerations ?p =
      map (\<lambda>v. \<lparr>tol_Key = assign_key (nag_Name nag), tol_Operator = ''Equal'', tol_Value = v, tol_Effect = ''''\<rparr>) vs"
    using assms(7) by (simp_all add: rule ApplyToPod_def GetMergeStrategy_def merge_strategy_defs required_exprs_def
        cli_affinity_def cli_term_def)
  have sel: "selects ?req n \<longleftrightarrow> (\<exists>v \<in> set vs. GetAssignment nag n = Some v)" for n
    by (simp add: scheduler.sel_in [OF assms(1)] GetAssignment_def)
  have "selects ?req n' \<and> (\<forall>t \<in> set (n_Taints n') - set (n_Taints n). \<exists>tol \<in> set (p_Tolerations ?p). tolerates tol t)"
    if "na_Name na \<in> set vs" "known_mode na" "Assign nag n na = Inr (n', na')" for na n n' na'
  proof
    have n': "n' = assigned_node nag n na" using that(2,3) by (auto simp: Assign_cases split: if_splits)
    show "selects ?req n'" using that(1,2) by (simp add: n' sel assigned_node_GetAssignment)
    show "\<forall>t \<in> set (n_Taints n') - set (n_Taints n). \<exists>tol \<in> set (p_Tolerations ?p). tolerates tol t"
      using that(1) by (auto simp: n' assigned_node_def assignment_taint_def p(2) scheduler.equal [OF assms(1)])
  qed
  then show ?thesis using p(1) sel by blast
qed

definition demo_flags :: cliFlags where
  "demo_flags = \<lparr>vf_kubeconfig = '''', vf_dryRun = False, vf_output = ''yaml'', vf_groupTargetLabels = '''',
     vf_groupName = '''', vf_groupAssignments = [], vf_nagNames = [], vf_nodeNames = [], vf_namespace = '''',
     vf_targetLabels = '''', vf_nodeSelector = '''', vf_nodeAffinity = '''', vf_assignment = ''io/fast,slow'',
     vf_topologyKey = ''kubernetes.io/hostname'', vf_name = ''r'', vf_mode = ''require''\<rparr>"

text \<open>A cluster of the given nodes and groups; no client configuration can be built in it.\<close>

definition demo_cli :: "node list \<Rightarrow> nag list \<Rightarrow> unit cliEnv" where
  "demo_cli nodes nags = \<lparr>ce_convert = (\<lambda>s. Inr []), ce_create = (\<lambda>obj. None), ce_listNags = Inr nags,
     ce_getNag = (\<lambda>n. Inl (NotFound n)), ce_listNodes = Inr nodes, ce_getNode = (\<lambda>n. Inl (NotFound n)),
     ce_marshal = (\<lambda>fmt obj. Inr fmt), ce_range = id, ce_kubeconfigVar = '''', ce_home = ''/root'',
     ce_joinPath = join ''/'', ce_buildConfig = (\<lambda>path. Inl (NotFound path)), ce_kubeClient = (\<lambda>c. None),
     ce_valetClient = (\<lambda>c. None), ce_message = (\<lambda>e. ''error'')\<rparr>"

theorem require_rule_fits_group_witness:
  "\<exists>spec req. rule_spec (demo_cli [] []) demo_flags = Inr spec \<and>
     required_exprs (ApplyToPod (par_Scheduling spec) (demo_pod ''d'' [])) = [[req]] \<and>
     k8s_selects req (demo_node ''n1'' [(assign_key ''io'', ''fast'')] [])"
proof -
  have r: "\<exists>spec. rule_spec (demo_cli [] []) demo_flags = Inr spec"
    by (simp add: rule_spec_def assignment_step_def nodeAffinity_step_def nodeSelector_step_def demo_cli_def demo_flags_def
        applyTermToSpec_def)
  then obtain spec where s: "rule_spec (demo_cli [] []) demo_flags = Inr spec" by blast
  have f: "vf_mode demo_flags = ''require''" "vf_nodeAffinity demo_flags = ''''"
    "vf_assignment demo_flags = nag_Name (demo_nag [] None) @ ''/'' @ join '','' [''fast'', ''slow'']"
    "CHR ''/'' \<notin> set (nag_Name (demo_nag [] None))" "[''fast'', ''slow''] \<noteq> []"
    "\<forall>v \<in> set [''fast'', ''slow'']. CHR '','' \<notin> set v \<and> CHR ''/'' \<notin> set v"
    by (simp_all add: demo_flags_def demo_defs)
  have g: "GetAssignment (demo_nag [] None) (demo_node ''n1'' [(assign_key ''io'', ''fast'')] []) = Some ''fast''"
    by (simp add: GetAssignment_def demo_defs)
  show ?thesis
    using require_rule_fits_group [OF k8s.scheduler_axioms s f, of "demo_pod ''d'' []"] s g by auto
qed

section \<open>The table of a group\<close>

lemma mget_add_member:
  "mget (add_member asg name m) a =
     (if a = asg then Some ((case mget m asg of None \<Rightarrow> [] | Some ns \<Rightarrow> ns) @ [name]) else mget m a)"
  by (simp add: add_member_def update_conv' mget_def)

lemma wf_add_member: "wf_map m \<Longrightarrow> wf_map (add_member asg name m)"
  by (simp add: wf_map_def add_member_def distinct_update)

text \<open>At most one label of a node has the key of the group.\<close>

lemma fold_one_label:
  "distinct (map fst al) \<Longrightarrow>
   fold (\<lambda>(lk, lv) m. if lk = key then add_member lv name m else m) al m =
     (case map_of al key of None \<Rightarrow> m | Some v \<Rightarrow> add_member v name m)"
proof (induction al arbitrary: m)
  case (Cons kv al)
  obtain k v where kv: "kv = (k, v)" by force
  have "map_of al k = None" using Cons.prems by (simp add: kv map_of_eq_None_iff)
  then show ?case using Cons by (auto simp: kv)
qed simp

lemma assignmentMembers_fold:
  assumes "\<forall>n \<in> set nodes. wf_map (node_Labels n)"
  shows "fold (\<lambda>node m. fold (\<lambda>(lk, lv) m. if lk = nag_prefix @ nag_Name nag then add_member lv (node_Name node) m else m)
       (mitems (node_Labels node)) m) nodes m =
     fold (\<lambda>node m. case GetAssignment nag node of None \<Rightarrow> m | Some v \<Rightarrow> add_member v (node_Name node) m) nodes m"
  using assms
proof (induction nodes arbitrary: m)
  case (Cons n nodes)
  have "fold (\<lambda>(lk, lv) m. if lk = nag_prefix @ nag_Name nag then add_member lv (node_Name n) m else m)
      (mitems (node_Labels n)) m = (case GetAssignment nag n of None \<Rightarrow> m | Some v \<Rightarrow> add_member v (node_Name n) m)"
    using Cons.prems by (simp add: fold_one_label wf_map_def GetAssignment_def mget_def nag_prefix_assign_key)
  then show ?case using Cons by simp
qed simp

definition members :: "nag \<Rightarrow> node list \<Rightarrow> string \<Rightarrow> string list" where
  "members nag nodes a = names (filter (\<lambda>n. GetAssignment nag n = Some a) nodes)"

lemma fold_members:
  "mget (fold (\<lambda>node m. case GetAssignment nag node of None \<Rightarrow> m | Some v \<Rightarrow> add_member v (node_Name node) m) nodes m) a =
     (if members nag nodes a = [] then mget m a
      else Some ((case mget m a of None \<Rightarrow> [] | Some ns \<Rightarrow> ns) @ members nag nodes a))"
proof (induction nodes arbitrary: m)
  case (Cons n nodes)
  then show ?case
    by (cases "GetAssignment nag n") (auto simp: members_def names_def mget_add_member split: option.splits)
qed (simp add: members_def names_def)

lemma wf_fold_members:
  "wf_map m \<Longrightarrow> wf_map (fold (\<lambda>node m. case GetAssignment nag node of None \<Rightarrow> m | Some v \<Rightarrow> add_member v (node_Name node) m) nodes m)"
  by (induction nodes arbitrary: m) (auto simp: wf_add_member split: option.splits)

lemma assignmentMembers_get:
  assumes "\<forall>n \<in> set nodes. wf_map (node_Labels n)"
  shows "mget (assignmentMembers nag nodes) a = (if members nag nodes a = [] then None else Some (members nag nodes a))"
    and "wf_map (assignmentMembers nag nodes)"
  unfolding assignmentMembers_def assignmentMembers_fold [OF assms]
  by (simp_all add: fold_members, rule wf_fold_members) (simp add: wf_map_def)

text \<open>The rows of a table of columns.\<close>

definition column :: "string list gomap \<Rightarrow> string \<Rightarrow> string list" where
  "column m a = (case mget m a of None \<Rightarrow> [] | Some ns \<Rightarrow> ns)"

definition cell :: "string list \<Rightarrow> nat \<Rightarrow> string" where
  "cell ns i = (if i < length ns then ns ! i else '''')"

lemma column_set_members: "column (set_members a ns m) b = (if b = a then ns else column m b)"
  by (simp add: column_def set_members_def update_conv' mget_def)

lemma report_row_cells:
  "distinct as \<Longrightarrow> \<exists>m'. report_row as m = (map (\<lambda>a. cell (column m a) 0) as, m') \<and>
     (\<forall>b. column m' b = (if b \<in> set as then tl (column m b) else column m b))"
proof (induction as arbitrary: m)
  case (Cons a as)
  show ?case
  proof (cases "column m a")
    case Nil
    then have g: "mget m a = None \<or> mget m a = Some []" by (auto simp: column_def split: option.splits)
    obtain m' where m': "report_row as m = (map (\<lambda>a. cell (column m a) 0) as, m')"
      "\<forall>b. column m' b = (if b \<in> set as then tl (column m b) else column m b)" using Cons by fastforce
    show ?thesis using g m' Nil by (auto simp: cell_def)
  next
    case (Cons x rest)
    then have g: "mget m a = Some (x # rest)" by (auto simp: column_def split: option.splits)
    have a: "a \<notin> set as" "distinct as" using Cons.prems by simp_all
    obtain m' where m': "report_row as (set_members a rest m) = (map (\<lambda>b. cell (column (set_members a rest m) b) 0) as, m')"
      "\<forall>b. column m' b = (if b \<in> set as then tl (column (set_members a rest m) b) else column (set_members a rest m) b)"
      using Cons.IH [OF a(2)] by blast
    have "map (\<lambda>b. cell (column (set_members a rest m) b) 0) as = map (\<lambda>b. cell (column m b) 0) as"
      using a(1) by (auto simp: column_set_members)
    then show ?thesis using g m' a(1) Cons by (auto simp: cell_def column_set_members)
  qed
qed simp

lemma cell_tl: "cell (tl ns) i = cell ns (Suc i)"
  by (cases ns) (auto simp: cell_def)

lemma report_rows_cells:
  "distinct as \<Longrightarrow> report_rows n as m = map (\<lambda>i. map (\<lambda>a. cell (column m a) i) as) [0..<n]"
proof (induction n arbitrary: m)
  case (Suc n)
  obtain m' where m': "report_row as m = (map (\<lambda>a. cell (column m a) 0) as, m')"
    "\<forall>b. column m' b = (if b \<in> set as then tl (column m b) else column m b)"
    using report_row_cells [OF Suc.prems] by blast
  have "report_rows n as m' = map (\<lambda>i. map (\<lambda>a. cell (column m a) (Suc i)) as) [0..<n]"
    using Suc m'(2) by (auto simp: cell_tl)
  then show ?case using m'(1) by (simp add: upt_conv_Cons map_Suc_upt [symmetric] del: upt_Suc)
qed simp

lemma num_rows_max:
  "fold (\<lambda>(k, v) n. if length v > n then length v else n) al n = Max (insert n (length ` snd ` set al))"
proof (induction al arbitrary: n)
  case (Cons kv al)
  obtain k v where kv: "kv = (k, v)" by force
  let ?S = "length ` snd ` set al"
  have "fold (\<lambda>(k, v) n. if length v > n then length v else n) (kv # al) n = Max (insert (max n (length v)) ?S)"
    using Cons by (auto simp: kv max_def)
  also have "\<dots> = Max (insert n (insert (length v) ?S))"
    by (cases "?S = {}") (simp_all add: ac_simps)
  finally show ?case by (simp add: kv)
qed simp

lemma num_rows_columns:
  "wf_map m \<Longrightarrow> num_rows m = Max (insert 0 ((\<lambda>a. length (column m a)) ` fst ` set (mitems m)))"
proof -
  assume wf: "wf_map m"
  have "length ` snd ` set (mitems m) = (\<lambda>a. length (column m a)) ` fst ` set (mitems m)"
    using wf by (force simp: column_def mitems_mget image_iff)
  then show ?thesis by (simp add: num_rows_def num_rows_max)
qed

text \<open>C20: \<^verbatim>\<open>group report nags\<close> shows each group completely. Whatever order the map is visited in, the header
  lists every assignment that some node has in the group once, the column under an assignment is its nodes in
  the order of the listing followed by blanks, and there are just as many rows as the longest column needs.\<close>

theorem report_table_complete:
  assumes "\<forall>n \<in> set nodes. wf_map (node_Labels n)"
    and "\<And>ks. distinct ks \<Longrightarrow> distinct (ce_range E ks) \<and> set (ce_range E ks) = set ks"
  shows "case report_table E nag nodes of (header, rows) \<Rightarrow>
    distinct header \<and> set header = {a. \<exists>n \<in> set nodes. GetAssignment nag n = Some a} \<and>
    rows = map (\<lambda>i. map (\<lambda>a. let ns = map node_Name (filter (\<lambda>n. GetAssignment nag n = Some a) nodes)
                           in if i < length ns then ns ! i else '''') header)
      [0..<Max (insert 0 ((\<lambda>a. length (filter (\<lambda>n. GetAssignment nag n = Some a) nodes)) ` set header))]"
proof -
  let ?m = "assignmentMembers nag nodes"
  let ?h = "ce_range E (map fst (mitems ?m))"
  note get = assignmentMembers_get(1) [OF assms(1)] and wf = assignmentMembers_get(2) [OF assms(1)]
  have h: "distinct ?h" "set ?h = fst ` set (mitems ?m)"
    using assms(2) [of "map fst (mitems ?m)"] wf by (simp_all add: wf_map_def)
  have col: "column ?m a = map node_Name (filter (\<lambda>n. GetAssignment nag n = Some a) nodes)" for a
    using get [of nag a] by (auto simp: column_def members_def names_def)
  have dom: "a \<in> fst ` set (mitems ?m) \<longleftrightarrow> mget ?m a \<noteq> None" for a
    by (simp add: mget_def map_of_eq_None_iff)
  have "a \<in> set ?h \<longleftrightarrow> (\<exists>n \<in> set nodes. GetAssignment nag n = Some a)" for a
    unfolding h(2) dom get [of nag a] by (auto simp: members_def names_def filter_empty_conv)
  then have set: "set ?h = {a. \<exists>n \<in> set nodes. GetAssignment nag n = Some a}" by blast
  have "report_table E nag nodes = (?h, map (\<lambda>i. map (\<lambda>a. cell (column ?m a) i) ?h)
      [0..<Max (insert 0 ((\<lambda>a. length (column ?m a)) ` set ?h))])"
    by (simp add: report_table_def Let_def report_rows_cells [OF h(1)] num_rows_columns [OF wf] h(2))
  then show ?thesis using h(1) set by (simp add: col cell_def Let_def)
qed

theorem report_table_complete_witness:
  "snd (report_table (demo_cli [] []) (demo_nag [] None)
     [demo_node ''n1'' [(assign_key ''io'', ''fast'')] [], demo_node ''n2'' [(assign_key ''io'', ''slow'')] [],
      demo_node ''n3'' [(assign_key ''io'', ''fast'')] []]) \<noteq> []"
proof -
  let ?ns = "[demo_node ''n1'' [(assign_key ''io'', ''fast'')] [], demo_node ''n2'' [(assign_key ''io'', ''slow'')] [],
      demo_node ''n3'' [(assign_key ''io'', ''fast'')] []]"
  let ?f = "\<lambda>a. length (filter (\<lambda>n. GetAssignment (demo_nag [] None) n = Some a) ?ns)"
  have w: "\<forall>n \<in> set ?ns. wf_map (node_Labels n)" by (simp add: demo_defs wf_map_def)
  have e: "\<And>ks. distinct ks \<Longrightarrow> distinct (ce_range (demo_cli [] []) ks) \<and> set (ce_range (demo_cli [] []) ks) = set ks"
    by (simp add: demo_cli_def)
  obtain h rows where t: "report_table (demo_cli [] []) (demo_nag [] None) ?ns = (h, rows)" by force
  from report_table_complete [OF w e, of "demo_nag [] None"] t
  have h: "set h = {a. \<exists>n \<in> set ?ns. GetAssignment (demo_nag [] None) n = Some a}"
    and l: "length rows = Max (insert 0 (?f ` set h))" by auto
  have "GetAssignment (demo_nag [] None) (demo_node ''n1'' [(assign_key ''io'', ''fast'')] []) = Some ''fast''"
    by (simp add: GetAssignment_def demo_defs)
  then have "''fast'' \<in> set h" "?f ''fast'' > 0" using h by auto
  moreover have "?f ''fast'' \<le> Max (insert 0 (?f ` set h))"
    by (rule Max_ge) (simp, rule insertI2, rule imageI, fact)
  ultimately have "Max (insert 0 (?f ` set h)) > 0" by linarith
  then show ?thesis using l t by auto
qed

section \<open>The clients are configured before the flags are read\<close>

lemma run_command_kubeconfig: "run_command E cmd (fl\<lparr>vf_kubeconfig := path\<rparr>) = run_command E cmd fl"
  by (cases cmd) (simp_all add: run_command_def groupCreate_def groupReportByNag_def groupReportByNode_def
      assignmentCreate_def rule_spec_def assignment_step_def nodeAffinity_step_def nodeSelector_step_def
      others_step_def outputObject_def Let_def cong: sum.case_cong option.case_cong list.case_cong if_cong)

text \<open>\<^verbatim>\<open>--kubeconfig\<close> has no effect and \<^verbatim>\<open>--dry-run\<close> needs a cluster configuration. The clients are
  configured from the values the flags have before the command line is parsed, so the outcome does not depend
  on the parsed \<^verbatim>\<open>--kubeconfig\<close>, and when no configuration can be read every command fails, also a dry run.\<close>

theorem kubeconfig_flag_ignored:
  assumes "\<not> vf_dryRun fl0"
  shows "valetctl_main Env E0 fl0 (cmd, fl\<lparr>vf_kubeconfig := path\<rparr>) = valetctl_main Env E0 fl0 (cmd, fl) \<and>
    (\<forall>e. cli_getConfig E0 fl0 = Inl e \<longrightarrow> valetctl_main Env E0 fl0 (cmd, fl\<lparr>vf_dryRun := True\<rparr>) = Inl e)"
proof
  show "valetctl_main Env E0 fl0 (cmd, fl\<lparr>vf_kubeconfig := path\<rparr>) = valetctl_main Env E0 fl0 (cmd, fl)"
    by (simp add: valetctl_main_def run_command_kubeconfig cong: sum.case_cong)
qed (use assms in \<open>simp add: valetctl_main_def configureClients_def\<close>)

theorem kubeconfig_flag_ignored_witness:
  "valetctl_main (\<lambda>c. demo_cli [] []) (demo_cli [] []) demo_flags (AssignmentCreate, demo_flags\<lparr>vf_dryRun := True\<rparr>)
     = Inl (Fatalf ''Error getting Kubernetes client config'')"
proof -
  have d: "\<not> vf_dryRun demo_flags" by (simp add: demo_flags_def)
  have "cli_getConfig (demo_cli [] []) demo_flags = Inl (Fatalf ''Error getting Kubernetes client config'')"
    by (simp add: cli_getConfig_def demo_cli_def)
  then show ?thesis using kubeconfig_flag_ignored [OF d, of "\<lambda>c. demo_cli [] []" "demo_cli [] []"] by simp
qed

section \<open>Two flags that exclude each other\<close>

text \<open>With both \<^verbatim>\<open>-A\<close> and \<^verbatim>\<open>-a\<close> the node affinity of the second replaces that of the first, whose
  tolerations stay: the pod tolerates the taints of the group but is not bound to its nodes.\<close>

lemma node_affinity_replaces_assignment:
  assumes "vf_mode fl = ''require''" and "vf_nodeAffinity fl = k @ ''='' @ v" and "CHR ''='' \<notin> set k" and "CHR ''='' \<notin> set v"
  shows "nodeAffinity_step fl s = Inr (s\<lparr>prs_Affinity := Some (cli_affinity\<lparr>aff_NodeAffinity :=
     Some \<lparr>naff_Required = Some [cli_term k ''In'' (split_on (CHR '','') v)], naff_Preferred = []\<rparr>\<rparr>)\<rparr>)"
  using assms split_on_append_sep [OF assms(3), of v] by (simp add: nodeAffinity_step_def split_on_no_sep applyTermToSpec_def)

end
