(* ===== verification/Startup.thy ===== *)
theory Startup
  imports KubeValet Valetctl
begin

text \<open>
  The start of the process, from the arguments to the election: the flags that \<^verbatim>\<open>main.go\<close> declares, \<^verbatim>\<open>main\<close>, and the
  second half of \<^verbatim>\<open>KubeValet.Run\<close> in \<^verbatim>\<open>controller.go\<close>. The parser kingpin and the elector of client-go are parameters
  with their documented behaviour as locales. The command line of the manifest under \<^verbatim>\<open>deploy\<close> is shown to work.
\<close>

section \<open>The declared flags\<close>

datatype flagType = StringFlag | BoolFlag | IntFlag | DurationFlag | EnumFlag "string list" | ExistingFileFlag

record flagDecl =
  fd_name :: string
  fd_short :: "char option"
  fd_default :: "string option"
  fd_required :: bool
  fd_type :: flagType

definition flag_decl :: "string \<Rightarrow> char option \<Rightarrow> string option \<Rightarrow> bool \<Rightarrow> flagType \<Rightarrow> flagDecl" where
  "flag_decl n c d r t = \<lparr>fd_name = n, fd_short = c, fd_default = d, fd_required = r, fd_type = t\<rparr>"

definition DefaultElectionConfigmapName :: string where
  "DefaultElectionConfigmapName = ''kube-valet-election''"

text \<open>The two lock types of client-go.\<close>

definition ConfigMapsResourceLock :: string where "ConfigMapsResourceLock = ''configmaps''"
definition EndpointsResourceLock :: string where "EndpointsResourceLock = ''endpoints''"

definition app_flags :: "flagDecl list" where
  "app_flags =
     [flag_decl ''loglevel'' (Some (CHR ''L'')) (Some ''NOTICE'') False StringFlag,
      flag_decl ''in-cluster'' None (Some ''false'') False BoolFlag,
      flag_decl ''kubeconfig'' (Some (CHR ''c'')) None False StringFlag,
      flag_decl ''configmap-namespace'' None (Some ''kube-system'') False StringFlag,
      flag_decl ''configmap-name'' None (Some ''kube-valet'') False StringFlag,
      flag_decl ''node-assignment'' None (Some ''true'') False BoolFlag,
      flag_decl ''scheduling-packleft'' None (Some ''true'') False BoolFlag,
      flag_decl ''pod-assignment'' None (Some ''true'') False BoolFlag,
      flag_decl ''num-pod-threads'' None (Some ''1'') False IntFlag,
      flag_decl ''leader-elect'' None None False BoolFlag,
      flag_decl ''leader-elect-lease-duration'' None (Some ''30s'') False DurationFlag,
      flag_decl ''leader-elect-renew-deadline'' None (Some ''10s'') False DurationFlag,
      flag_decl ''leader-elect-resource-lock'' None (Some ConfigMapsResourceLock) False
        (EnumFlag [ConfigMapsResourceLock, EndpointsResourceLock]),
      flag_decl ''leader-elect-retry-period'' None (Some ''2s'') False DurationFlag,
      flag_decl ''lock-object-name'' None (Some DefaultElectionConfigmapName) False StringFlag,
      flag_decl ''leader-elect-id'' None None False StringFlag,
      flag_decl ''leader-elect-namespace'' None (Some ''kube-system'') False StringFlag,
      flag_decl ''listen'' None (Some '':443'') False StringFlag,
      flag_decl ''cert'' None None True ExistingFileFlag,
      flag_decl ''key'' None None True ExistingFileFlag]"

text \<open>A parsed value; durations are in nanoseconds.\<close>

datatype flagValue = StrVal string | BoolVal bool | IntVal int

fun str_of :: "flagValue \<Rightarrow> string" where "str_of (StrVal s) = s" | "str_of _ = ''''"
fun bool_of :: "flagValue \<Rightarrow> bool" where "bool_of (BoolVal b) = b" | "bool_of _ = False"
fun int_of :: "flagValue \<Rightarrow> int" where "int_of (IntVal i) = i" | "int_of _ = 0"

text \<open>What the pointers that \<^verbatim>\<open>app.Flag\<close> returned point to after parsing.\<close>

definition read_flags :: "(string \<Rightarrow> flagValue) \<Rightarrow> flags" where
  "read_flags v =
     \<lparr>fl_logLevel = str_of (v ''loglevel''), fl_inCluster = bool_of (v ''in-cluster''),
      fl_kubeconfig = str_of (v ''kubeconfig''), fl_nodeAssignment = bool_of (v ''node-assignment''),
      fl_packLeft = bool_of (v ''scheduling-packleft''), fl_podAssignment = bool_of (v ''pod-assignment''),
      fl_numPodThreads = int_of (v ''num-pod-threads''), fl_leaderElection = bool_of (v ''leader-elect''),
      fl_electDuration = int_of (v ''leader-elect-lease-duration''),
      fl_electDeadline = int_of (v ''leader-elect-renew-deadline''),
      fl_electResource = str_of (v ''leader-elect-resource-lock''),
      fl_electRetry = int_of (v ''leader-elect-retry-period''), fl_electName = str_of (v ''lock-object-name''),
      fl_electID = str_of (v ''leader-elect-id''), fl_electNamespace = str_of (v ''leader-elect-namespace''),
      fl_listen = str_of (v ''listen''), fl_tlsCertPath = str_of (v ''cert''), fl_tlsKeyPath = str_of (v ''key'')\<rparr>"

section \<open>The parser\<close>

text \<open>Arguments in the long form: \<^verbatim>\<open>--name=value\<close>, or \<^verbatim>\<open>--name\<close> for a boolean flag, which then is true.\<close>

definition split_arg :: "string \<Rightarrow> string \<times> string" where
  "split_arg arg = (takeWhile (\<lambda>c. c \<noteq> CHR ''='') arg, drop 1 (dropWhile (\<lambda>c. c \<noteq> CHR ''='') arg))"

definition given :: "string list \<Rightarrow> flagDecl \<Rightarrow> string option" where
  "given args d =
     (if ''--'' @ fd_name d \<in> set args then Some ''true'' else map_of (map split_arg args) (''--'' @ fd_name d))"

definition long_args :: "flagDecl list \<Rightarrow> string list \<Rightarrow> bool" where
  "long_args ds args \<longleftrightarrow>
     distinct (map (fst \<circ> split_arg) args) \<and>
     list_all (\<lambda>arg. list_ex (\<lambda>d. fst (split_arg arg) = ''--'' @ fd_name d \<and>
       (CHR ''='' \<in> set arg \<or> fd_type d = BoolFlag)) ds) args"

definition flag_text :: "string list \<Rightarrow> flagDecl \<Rightarrow> string option" where
  "flag_text args d = (case given args d of Some t \<Rightarrow> Some t | None \<Rightarrow> fd_default d)"

fun zero_value :: "flagType \<Rightarrow> flagValue" where
  "zero_value BoolFlag = BoolVal False"
| "zero_value IntFlag = IntVal 0"
| "zero_value DurationFlag = IntVal 0"
| "zero_value _ = StrVal ''''"

text \<open>What kingpin documents, for flags of these types: a value is read from the argument or else from the default,
  a required flag must be given, and parsing succeeds when every text can be read.\<close>

locale kingpin =
  fixes Parse :: "flagDecl list \<Rightarrow> string list \<Rightarrow> goerr + (string \<Rightarrow> flagValue)"
    and reads :: "flagType \<Rightarrow> string \<Rightarrow> flagValue option"
  assumes accepts: "distinct (map fd_name ds) \<Longrightarrow> long_args ds args \<Longrightarrow>
      (\<And>d. d \<in> set ds \<Longrightarrow> case flag_text args d of Some t \<Rightarrow> reads (fd_type d) t \<noteq> None | None \<Rightarrow> \<not> fd_required d) \<Longrightarrow>
      \<exists>v. Parse ds args = Inr v"
    and parsed: "distinct (map fd_name ds) \<Longrightarrow> long_args ds args \<Longrightarrow> Parse ds args = Inr v \<Longrightarrow> d \<in> set ds \<Longrightarrow>
      case flag_text args d of Some t \<Rightarrow> reads (fd_type d) t = Some (v (fd_name d))
      | None \<Rightarrow> v (fd_name d) = zero_value (fd_type d)"
    and reads_string: "reads StringFlag t = Some (StrVal t)"
    and reads_bool: "reads BoolFlag ''true'' = Some (BoolVal True)" "reads BoolFlag ''false'' = Some (BoolVal False)"
    and reads_int: "all_digits t \<Longrightarrow> length t \<le> 9 \<Longrightarrow> reads IntFlag t = Some (IntVal (digits_val t))"
    and reads_seconds: "all_digits t \<Longrightarrow> length t \<le> 9 \<Longrightarrow>
      reads DurationFlag (t @ ''s'') = Some (IntVal (digits_val t * 10 ^ 9))"
    and reads_enum: "reads (EnumFlag xs) t = (if t \<in> set xs then Some (StrVal t) else None)"
    and reads_file: "reads ExistingFileFlag t = Some w \<Longrightarrow> w = StrVal t"

lemma app_flags_distinct: "distinct (map fd_name app_flags)"
  by (simp add: app_flags_def flag_decl_def)

lemma app_flags_shorts: "distinct (CHR ''h'' # List.map_filter fd_short app_flags)"
  by (simp add: app_flags_def flag_decl_def List.map_filter_simps)


text \<open>A parser of long arguments; every file exists.\<close>

fun ref_reads :: "flagType \<Rightarrow> string \<Rightarrow> flagValue option" where
  "ref_reads StringFlag t = Some (StrVal t)"
| "ref_reads BoolFlag t =
     (if t = ''true'' then Some (BoolVal True) else if t = ''false'' then Some (BoolVal False) else None)"
| "ref_reads IntFlag t = (if all_digits t then Some (IntVal (digits_val t)) else None)"
| "ref_reads DurationFlag t =
     (if suffix ''s'' t \<and> all_digits (butlast t) then Some (IntVal (digits_val (butlast t) * 10 ^ 9)) else None)"
| "ref_reads (EnumFlag xs) t = (if t \<in> set xs then Some (StrVal t) else None)"
| "ref_reads ExistingFileFlag t = Some (StrVal t)"

definition ref_value :: "string list \<Rightarrow> flagDecl \<Rightarrow> flagValue option" where
  "ref_value args d =
     (case flag_text args d of
        Some t \<Rightarrow> ref_reads (fd_type d) t
      | None \<Rightarrow> if fd_required d then None else Some (zero_value (fd_type d)))"

definition ref_Parse :: "flagDecl list \<Rightarrow> string list \<Rightarrow> goerr + (string \<Rightarrow> flagValue)" where
  "ref_Parse ds args =
     (if long_args ds args \<and> list_all (\<lambda>d. ref_value args d \<noteq> None) ds
      then Inr (\<lambda>n. case find (\<lambda>d. fd_name d = n) ds of
        Some d \<Rightarrow> the (ref_value args d) | None \<Rightarrow> StrVal '''')
      else Inl (OtherErr ''usage''))"

lemma find_decl: "distinct (map fd_name ds) \<Longrightarrow> d \<in> set ds \<Longrightarrow> find (\<lambda>x. fd_name x = fd_name d) ds = Some d"
  by (induction ds) auto

interpretation ref_kingpin: kingpin ref_Parse ref_reads
proof unfold_locales
  fix ds args
  assume "long_args ds args"
    and d: "\<And>d. d \<in> set ds \<Longrightarrow> case flag_text args d of Some t \<Rightarrow> ref_reads (fd_type d) t \<noteq> None | None \<Rightarrow> \<not> fd_required d"
  then show "\<exists>v. ref_Parse ds args = Inr v"
    by (auto simp: ref_Parse_def ref_value_def list_all_iff split: option.split dest!: d)
next
  fix ds args v d
  assume "distinct (map fd_name ds)" and "ref_Parse ds args = Inr v" and d: "d \<in> set ds"
  then have v: "v (fd_name d) = the (ref_value args d)" and n: "ref_value args d \<noteq> None"
    by (auto simp: ref_Parse_def list_all_iff find_decl split: if_splits)
  then show "case flag_text args d of Some t \<Rightarrow> ref_reads (fd_type d) t = Some (v (fd_name d))
      | None \<Rightarrow> v (fd_name d) = zero_value (fd_type d)"
    by (auto simp: ref_value_def split: option.splits if_splits)
qed auto

section \<open>The election\<close>

record electionConfig =
  ec_Lock :: "string \<times> string \<times> string \<times> string"   \<comment> \<open>type, namespace, name, identity\<close>
  ec_LeaseDuration :: int
  ec_RenewDeadline :: int
  ec_RetryPeriod :: int

text \<open>\<^verbatim>\<open>resourcelock.New\<close> and \<^verbatim>\<open>NewLeaderElector\<close>, whose error \<^verbatim>\<open>RunOrDie\<close> panics with.\<close>

record electionLibs =
  el_NewLock :: "string \<Rightarrow> string \<Rightarrow> string \<Rightarrow> string \<Rightarrow> goerr option"
  el_NewLeaderElector :: "electionConfig \<Rightarrow> goerr option"

text \<open>What client-go documents of the timings: the lease outlives the renew deadline, the deadline 1.2 retry
  periods, and all are positive.\<close>

definition good_timings :: "electionConfig \<Rightarrow> bool" where
  "good_timings c \<longleftrightarrow>
     ec_RenewDeadline c < ec_LeaseDuration c \<and> 12 * ec_RetryPeriod c < 10 * ec_RenewDeadline c \<and> 0 < ec_RetryPeriod c"

locale leader_elector =
  fixes L :: electionLibs
  assumes lock_types: "ty \<in> {ConfigMapsResourceLock, EndpointsResourceLock} \<Longrightarrow> el_NewLock L ty ns nm who = None"
    and elector_ok: "good_timings c \<Longrightarrow> el_NewLeaderElector L c = None"
    and elector_err: "ec_LeaseDuration c \<le> ec_RenewDeadline c \<Longrightarrow> el_NewLeaderElector L c \<noteq> None"

text \<open>The end of \<^verbatim>\<open>KubeValet.Run\<close>: the election that is entered, or \<open>None\<close> when it is disabled.\<close>

definition enter_election :: "electionLibs \<Rightarrow> flags \<Rightarrow> string \<Rightarrow> gopanic + electionConfig option" where
  "enter_election L fl electID =
     (if fl_leaderElection fl then
        (case el_NewLock L (fl_electResource fl) (fl_electNamespace fl) (fl_electName fl) electID of
           Some err \<Rightarrow> Inl FatalExit
         | None \<Rightarrow>
             (let c = \<lparr>ec_Lock = (fl_electResource fl, fl_electNamespace fl, fl_electName fl, electID),
                       ec_LeaseDuration = fl_electDuration fl, ec_RenewDeadline = fl_electDeadline fl,
                       ec_RetryPeriod = fl_electRetry fl\<rparr>
              in case el_NewLeaderElector L c of
                   Some err \<Rightarrow> Inl (PanicError err)
                 | None \<Rightarrow> Inr (Some c)))
      else Inr None)"

definition ref_elector :: electionLibs where
  "ref_elector =
     \<lparr>el_NewLock = (\<lambda>ty ns nm who. if ty \<in> {ConfigMapsResourceLock, EndpointsResourceLock} then None
        else Some (OtherErr ''Invalid lock-type'')),
      el_NewLeaderElector = (\<lambda>c. if good_timings c then None else Some (OtherErr ''invalid timings''))\<rparr>"

interpretation ref_elector: leader_elector ref_elector
  by unfold_locales (auto simp: ref_elector_def good_timings_def)


section \<open>The process\<close>

text \<open>How \<^verbatim>\<open>main\<close> goes: it exits with a code, panics, or runs for as long as the election lets it. While it runs
  the webhook server serves beside it, and the watcher leads or stands by.\<close>

datatype 'a outcome = Exits int | Panics gopanic | Runs 'a

text \<open>\<^verbatim>\<open>log.Fatalf\<close> is \<^verbatim>\<open>os.Exit(1)\<close>.\<close>

definition ends :: "gopanic \<Rightarrow> 'a outcome" where
  "ends p = (if p = FatalExit then Exits 1 else Panics p)"

record 'q process =
  pr_server :: "('q resourceWatcher \<Rightarrow> pod \<Rightarrow> jsonPatchOperation list) webhookServer"
  pr_election :: "electionConfig option"
  pr_phase :: phase
  pr_watcher :: "'q resourceWatcher"

text \<open>What the goroutine of the webhook server gets from elsewhere. \<open>sv_early\<close> is the choice of the Go scheduler:
  whether that goroutine comes to load its key pair before the main one enters the election.\<close>

record ('q, 'k, 'w, 'r, 'p) servingEnv =
  sv_LoadX509KeyPair :: "string \<Rightarrow> string \<Rightarrow> goerr + 'k"
  sv_ListenAndServeTLS :: "('q resourceWatcher, 'k) httpServer \<Rightarrow> 'w \<Rightarrow> goerr option \<times> 'w"
  sv_codec :: "('r, 'p) codec"
  sv_world :: 'w
  sv_early :: bool

text \<open>The struct holds the clients and the configuration, which are the fields of the watcher's environment.\<close>

definition NewKubeValet :: "'q watcherEnv \<Rightarrow> valetConfig \<Rightarrow> 'q watcherEnv" where
  "NewKubeValet E cfg = E\<lparr>we_config := cfg\<rparr>"

text \<open>The end of the main goroutine's start, and the goroutine \<^verbatim>\<open>go mwhs.Run()\<close>. The process ends with the first of
  the two that fails: a webhook that cannot load its key pair ends it even after the election was entered.\<close>

definition start_election :: "electionLibs \<Rightarrow> flags \<Rightarrow> string \<Rightarrow> 'q watcherEnv \<Rightarrow> 'q process \<Rightarrow> 'q process outcome" where
  "start_election L fl electID E pr =
     (case enter_election L fl electID of
        Inl p \<Rightarrow> ends p
      | Inr (Some c) \<Rightarrow> Runs (pr\<lparr>pr_election := Some c\<rparr>)
      | Inr None \<Rightarrow>
          (case StartElectedComponents E (pr_watcher pr) of
             Inl p \<Rightarrow> ends p
           | Inr rw \<Rightarrow> Runs (pr\<lparr>pr_phase := Leading, pr_watcher := rw\<rparr>)))"

definition serve_webhook ::
    "('q, 'k, 'w, 'r, 'p) servingEnv \<Rightarrow> ('q resourceWatcher \<Rightarrow> pod \<Rightarrow> jsonPatchOperation list) webhookServer
     \<Rightarrow> gopanic + unit option" where
  "serve_webhook W mwhs = webhook_Run (sv_LoadX509KeyPair W) (sv_ListenAndServeTLS W) (sv_codec W) mwhs (sv_world W)"

definition KubeValet_process ::
    "electionLibs \<Rightarrow> ('q, 'k, 'w, 'r, 'p) servingEnv \<Rightarrow> flags \<Rightarrow> string \<Rightarrow> 'q watcherEnv \<Rightarrow> (string \<Rightarrow> bool)
     \<Rightarrow> caches \<Rightarrow> 'q \<Rightarrow> 'q process outcome" where
  "KubeValet_process L W fl electID E synced ch q0 =
     (case KubeValet_Run E synced ch q0 of
        Inl p \<Rightarrow> ends p
      | Inr kv \<Rightarrow>
          (let mwhs = New_webhook \<lparr>wh_Listen = fl_listen fl, wh_TLSCertPath = fl_tlsCertPath fl,
                        wh_TLSKeyPath = fl_tlsKeyPath fl\<rparr> (kv_podAssigner kv);
               started = start_election L fl electID E
                 \<lparr>pr_server = mwhs, pr_election = None, pr_phase = Standby, pr_watcher = kv_watcher kv\<rparr>
           in case serve_webhook W mwhs of
                Inr _ \<Rightarrow> started
              | Inl p \<Rightarrow>
                  (if sv_early W then ends p
                   else (case started of Runs pr \<Rightarrow> ends p | _ \<Rightarrow> started))))"

text \<open>\<^verbatim>\<open>MustParse\<close> exits with 1 when the arguments cannot be parsed.\<close>

definition valet_process where
  "valet_process Parse pf L W E synced ch q0 args =
     (case Parse app_flags args of
        Inl err \<Rightarrow> Exits 1
      | Inr v \<Rightarrow>
          (let fl = read_flags v in
           case valet_main fl pf of
             Inl code \<Rightarrow> Exits code
           | Inr (cfg, electID) \<Rightarrow> KubeValet_process L W fl electID (NewKubeValet E cfg) synced ch q0))"

lemma ends_not_Runs [simp]: "ends p \<noteq> Runs x"
  by (simp add: ends_def)

lemma start_election_Runs:
  assumes "start_election L fl electID E pr0 = Runs pr" and "pr_phase pr0 = Standby" and "pr_election pr0 = None"
    and "kv_reach E (fl_leaderElection fl) (Standby, pr_watcher pr0)"
  shows "kv_reach E (fl_leaderElection fl) (pr_phase pr, pr_watcher pr) \<and> pr_server pr = pr_server pr0 \<and>
    (pr_election pr = None \<longleftrightarrow> \<not> fl_leaderElection fl) \<and> (pr_phase pr = Standby \<longleftrightarrow> fl_leaderElection fl)"
proof (cases "fl_leaderElection fl")
  case True
  then show ?thesis using assms by (auto simp: start_election_def enter_election_def Let_def split: option.splits)
next
  case False
  then obtain rw where "StartElectedComponents E (pr_watcher pr0) = Inr rw" "pr = pr0\<lparr>pr_phase := Leading, pr_watcher := rw\<rparr>"
    using assms(1) by (auto simp: start_election_def enter_election_def split: sum.splits)
  then show ?thesis using kv_reach.step [OF assms(4) kv_step.elect] assms(3) False by simp
qed

lemma KubeValet_process_reach:
  assumes "KubeValet_process L W fl electID E synced ch q0 = Runs pr"
  shows "kv_reach E (fl_leaderElection fl) (pr_phase pr, pr_watcher pr) \<and>
    (pr_election pr = None \<longleftrightarrow> \<not> fl_leaderElection fl) \<and> (pr_phase pr = Standby \<longleftrightarrow> fl_leaderElection fl) \<and>
    serve_webhook W (pr_server pr) = Inr None"
proof -
  obtain kv where kv: "KubeValet_Run E synced ch q0 = Inr kv"
    using assms by (cases "KubeValet_Run E synced ch q0") (auto simp: KubeValet_process_def)
  let ?s = "New_webhook \<lparr>wh_Listen = fl_listen fl, wh_TLSCertPath = fl_tlsCertPath fl, wh_TLSKeyPath = fl_tlsKeyPath fl\<rparr> (kv_podAssigner kv)"
  obtain u where u: "serve_webhook W ?s = Inr u"
    and st: "start_election L fl electID E \<lparr>pr_server = ?s, pr_election = None, pr_phase = Standby, pr_watcher = kv_watcher kv\<rparr> = Runs pr"
    using assms kv by (auto simp: KubeValet_process_def Let_def split: sum.splits if_splits outcome.splits)
  have "u = None" using u by (auto simp: serve_webhook_def webhook_Run_never_returns split: sum.splits)
  then show ?thesis using start_election_Runs [OF st] kv_reach.start [OF kv] u by simp
qed

text \<open>A key pair that cannot be loaded ends the process, whenever its goroutine comes to run.\<close>

theorem bad_key_pair_ends_process:
  assumes "sv_LoadX509KeyPair W (fl_tlsCertPath fl) (fl_tlsKeyPath fl) = Inl err"
  shows "KubeValet_process L W fl electID E synced ch q0 \<noteq> Runs pr"
proof
  assume r: "KubeValet_process L W fl electID E synced ch q0 = Runs pr"
  then obtain kv where kv: "KubeValet_Run E synced ch q0 = Inr kv"
    by (cases "KubeValet_Run E synced ch q0") (auto simp: KubeValet_process_def)
  show False
    using r kv assms
    by (auto simp: KubeValet_process_def Let_def serve_webhook_def webhook_Run_def New_webhook_def split: if_splits outcome.splits)
qed

text \<open>The command line of the manifest \<^verbatim>\<open>deploy/deployment.yaml\<close>.\<close>

definition deployment_args :: "string list" where
  "deployment_args =
     [''--in-cluster'', ''--leader-elect'', ''--leader-elect-namespace=kube-valet'', ''--cert=/tls/server.pem'',
      ''--key=/tls/server-key.pem'']"

lemma deployment_long: "long_args app_flags deployment_args"
  by code_simp

text \<open>Of each flag its name, its type, whether it must be given, and the text it is read from.\<close>

definition flag_row :: "string list \<Rightarrow> flagDecl \<Rightarrow> string \<times> flagType \<times> bool \<times> string option" where
  "flag_row args d = (fd_name d, fd_type d, fd_required d, flag_text args d)"

lemma deployment_rows:
  "map (flag_row deployment_args) app_flags =
     [(''loglevel'', StringFlag, False, Some ''NOTICE''), (''in-cluster'', BoolFlag, False, Some ''true''),
      (''kubeconfig'', StringFlag, False, None), (''configmap-namespace'', StringFlag, False, Some ''kube-system''),
      (''configmap-name'', StringFlag, False, Some ''kube-valet''), (''node-assignment'', BoolFlag, False, Some ''true''),
      (''scheduling-packleft'', BoolFlag, False, Some ''true''), (''pod-assignment'', BoolFlag, False, Some ''true''),
      (''num-pod-threads'', IntFlag, False, Some ''1''), (''leader-elect'', BoolFlag, False, Some ''true''),
      (''leader-elect-lease-duration'', DurationFlag, False, Some (''30'' @ ''s'')),
      (''leader-elect-renew-deadline'', DurationFlag, False, Some (''10'' @ ''s'')),
      (''leader-elect-resource-lock'', EnumFlag [''configmaps'', ''endpoints''], False, Some ''configmaps''),
      (''leader-elect-retry-period'', DurationFlag, False, Some (''2'' @ ''s'')),
      (''lock-object-name'', StringFlag, False, Some ''kube-valet-election''), (''leader-elect-id'', StringFlag, False, None),
      (''leader-elect-namespace'', StringFlag, False, Some ''kube-valet''), (''listen'', StringFlag, False, Some '':443''),
      (''cert'', ExistingFileFlag, True, Some ''/tls/server.pem''), (''key'', ExistingFileFlag, True, Some ''/tls/server-key.pem'')]"
  by code_simp

lemma deployment_numbers:
  "all_digits ''1''" "all_digits ''30''" "all_digits ''10''" "all_digits ''2''"
  "digits_val ''1'' = 1" "digits_val ''30'' = 30" "digits_val ''10'' = 10" "digits_val ''2'' = 2"
  by code_simp+

definition deployment_flags :: flags where
  "deployment_flags =
     \<lparr>fl_logLevel = ''NOTICE'', fl_inCluster = True, fl_kubeconfig = '''', fl_nodeAssignment = True, fl_packLeft = True,
      fl_podAssignment = True, fl_numPodThreads = 1, fl_leaderElection = True, fl_electDuration = 30 * 10 ^ 9,
      fl_electDeadline = 10 * 10 ^ 9, fl_electResource = ''configmaps'', fl_electRetry = 2 * 10 ^ 9,
      fl_electName = ''kube-valet-election'', fl_electID = '''', fl_electNamespace = ''kube-valet'',
      fl_listen = '':443'', fl_tlsCertPath = ''/tls/server.pem'', fl_tlsKeyPath = ''/tls/server-key.pem''\<rparr>"

context kingpin
begin

lemmas reads_deployment = reads_string reads_bool reads_enum
  reads_int [OF deployment_numbers(1)] reads_seconds [OF deployment_numbers(2)]
  reads_seconds [OF deployment_numbers(3)] reads_seconds [OF deployment_numbers(4)]

lemma deployment_parsed:
  assumes "reads ExistingFileFlag ''/tls/server.pem'' \<noteq> None" and "reads ExistingFileFlag ''/tls/server-key.pem'' \<noteq> None"
  shows "\<exists>v. Parse app_flags deployment_args = Inr v \<and> read_flags v = deployment_flags"
proof -
  have "list_all (\<lambda>(n, ty, r, x). case x of Some t \<Rightarrow> reads ty t \<noteq> None | None \<Rightarrow> \<not> r) (map (flag_row deployment_args) app_flags)"
    unfolding deployment_rows using assms by (simp add: reads_deployment del: append.simps)
  then have "\<And>d. d \<in> set app_flags \<Longrightarrow>
      case flag_text deployment_args d of Some t \<Rightarrow> reads (fd_type d) t \<noteq> None | None \<Rightarrow> \<not> fd_required d"
    by (simp add: list_all_iff flag_row_def del: not_None_eq)
  from accepts [OF app_flags_distinct deployment_long this] obtain v where v: "Parse app_flags deployment_args = Inr v" by blast
  have "list_all (\<lambda>(n, ty, r, x). case x of Some t \<Rightarrow> Some (v n) = reads ty t | None \<Rightarrow> v n = zero_value ty)
      (map (flag_row deployment_args) app_flags)"
    using parsed [OF app_flags_distinct deployment_long v] by (fastforce simp: list_all_iff flag_row_def split: option.splits)
  then have "read_flags v = deployment_flags"
    unfolding deployment_rows
    by (auto simp: reads_deployment read_flags_def deployment_flags_def deployment_numbers simp del: append.simps dest!: reads_file [OF sym])
  then show ?thesis using v by blast
qed

end


section \<open>The properties\<close>

text \<open>C10: the shipped command line works. With the arguments of the manifest, certificate files that exist and
  hold a key pair, a client configuration and caches that sync, the process comes up: it does not exit or panic,
  whichever of its goroutines goes first: the webhook serves on port 443 for ever, and the main goroutine stands
  by, a state from which the registration invariant holds, in an election for the config map
  \<^verbatim>\<open>kube-valet/kube-valet-election\<close> with timings the elector accepts; the workers of both group controllers are
  started, and whenever the process is elected the components of all three controllers are registered.\<close>

theorem deployment_starts:
  assumes "kingpin Parse reads" and "leader_elector L"
    and "reads ExistingFileFlag ''/tls/server.pem'' \<noteq> None" and "reads ExistingFileFlag ''/tls/server-key.pem'' \<noteq> None"
    and "sv_LoadX509KeyPair W ''/tls/server.pem'' ''/tls/server-key.pem'' = Inr pair"
    and "pf_LogLevel pf ''NOTICE'' = None" and "pf_InClusterConfig pf = Inr config"
    and "pf_kubeClient pf config = None" and "pf_valetClient pf config = None" and "\<forall>i. synced i"
  shows "\<exists>pr c cfg. valet_process Parse pf L W E synced ch q0 deployment_args = Runs pr \<and>
    pr_phase pr = Standby \<and> kv_reach (NewKubeValet E cfg) True (Standby, pr_watcher pr) \<and> rw_caches (pr_watcher pr) = ch \<and>
    pr_election pr = Some c \<and> good_timings c \<and>
    ec_Lock c = (''configmaps'', ''kube-valet'', ''kube-valet-election'', pf_hostname pf) \<and>
    rw_served (pr_watcher pr) = [NagQ, PlQ] \<and> wh_Listen (ws_config (pr_server pr)) = '':443'' \<and>
    serve_webhook W (pr_server pr) = Inr None \<and>
    (\<forall>rw. kv_reach (NewKubeValet E cfg) True (Leading, rw) \<longrightarrow> registered [NagCtlr, PlCtlr] [ParPodCtlr, PlPodCtlr] rw)"
proof -
  let ?cfg = "\<lparr>vc_ParController = \<lparr>cc_Threads = 1, cc_ShouldRun = True\<rparr>,
     vc_NagController = \<lparr>cc_Threads = 1, cc_ShouldRun = True\<rparr>, vc_PLController = \<lparr>cc_Threads = 1, cc_ShouldRun = True\<rparr>\<rparr>"
  let ?E = "NewKubeValet E ?cfg"
  let ?c = "\<lparr>ec_Lock = (''configmaps'', ''kube-valet'', ''kube-valet-election'', pf_hostname pf),
     ec_LeaseDuration = 30 * 10 ^ 9, ec_RenewDeadline = 10 * 10 ^ 9, ec_RetryPeriod = 2 * 10 ^ 9\<rparr>"
  obtain v where v: "Parse app_flags deployment_args = Inr v" "read_flags v = deployment_flags"
    using kingpin.deployment_parsed [OF assms(1,3,4)] by blast
  have m: "valet_main deployment_flags pf = Inr (?cfg, pf_hostname pf)"
    using assms(6-9) by (simp add: valet_main_def getConfig_def deployment_flags_def)
  have good: "good_timings ?c" by (simp add: good_timings_def)
  have "el_NewLock L ''configmaps'' ''kube-valet'' ''kube-valet-election'' (pf_hostname pf) = None"
    by (rule leader_elector.lock_types [OF assms(2)]) (simp add: ConfigMapsResourceLock_def)
  then have el: "enter_election L deployment_flags (pf_hostname pf) = Inr (Some ?c)"
    using leader_elector.elector_ok [OF assms(2) good] by (simp add: enter_election_def deployment_flags_def Let_def)
  obtain kv where kv: "KubeValet_Run ?E synced ch q0 = Inr kv" "rw_caches (kv_watcher kv) = ch" "rw_served (kv_watcher kv) = [NagQ, PlQ]"
    using assms(10) by (simp add: KubeValet_Run_def watcher_Run_def waitForCacheSync_def NewKubeValet_def Let_def)
  obtain pr where pr: "KubeValet_process L W deployment_flags (pf_hostname pf) ?E synced ch q0 = Runs pr"
    "pr_election pr = Some ?c" "pr_watcher pr = kv_watcher kv" "wh_Listen (ws_config (pr_server pr)) = '':443''"
    using el kv assms(5)
    by (simp add: KubeValet_process_def start_election_def serve_webhook_def webhook_Run_def New_webhook_def deployment_flags_def Let_def)
  have r: "kv_reach ?E True (Standby, pr_watcher pr)" "pr_phase pr = Standby" "serve_webhook W (pr_server pr) = Inr None"
    using KubeValet_process_reach [OF pr(1)] by (auto simp: deployment_flags_def)
  have "registered [NagCtlr, PlCtlr] [ParPodCtlr, PlPodCtlr] rw" if "kv_reach ?E True (Leading, rw)" for rw
    using kv_reach_inv [OF that] by (simp add: kv_inv_def elected_ctlrs_def elected_podCtlrs_def NewKubeValet_def)
  then show ?thesis using v m pr kv r good by (intro exI [of _ pr] exI [of _ ?c] exI [of _ ?cfg]) (simp add: valet_process_def)
qed

definition demo_platform :: "unit platform" where
  "demo_platform = \<lparr>pf_hostname = ''host'', pf_LogLevel = (\<lambda>_. None), pf_InClusterConfig = Inr (),
     pf_BuildConfigFromFlags = (\<lambda>_. Inl (OtherErr ''no file'')), pf_kubeClient = (\<lambda>_. None), pf_valetClient = (\<lambda>_. None)\<rparr>"

definition demo_serving :: "(memq, string \<times> string, nat, pod, jsonPatchOperation list) servingEnv" where
  "demo_serving = \<lparr>sv_LoadX509KeyPair = (\<lambda>cert key. Inr (cert, key)),
     sv_ListenAndServeTLS = (\<lambda>srv w. (Some (OtherErr ''closed''), Suc w)), sv_codec = mem_codec (demo_pod '''' []),
     sv_world = 0, sv_early = True\<rparr>"

theorem deployment_starts_witness:
  "\<exists>pr c. valet_process ref_Parse demo_platform ref_elector demo_serving demo_wenv (\<lambda>_. True) demo_ch empty_memq deployment_args = Runs pr \<and>
    pr_election pr = Some c \<and> ec_Lock c = (''configmaps'', ''kube-valet'', ''kube-valet-election'', ''host'')"
proof -
  have p: "pf_LogLevel demo_platform ''NOTICE'' = None" "pf_InClusterConfig demo_platform = Inr ()"
    "pf_kubeClient demo_platform () = None" "pf_valetClient demo_platform () = None" "pf_hostname demo_platform = ''host''"
    by (simp_all add: demo_platform_def)
  have k: "sv_LoadX509KeyPair demo_serving ''/tls/server.pem'' ''/tls/server-key.pem'' = Inr (''/tls/server.pem'', ''/tls/server-key.pem'')"
    by (simp add: demo_serving_def)
  show ?thesis
    using deployment_starts [OF ref_kingpin.kingpin_axioms ref_elector.leader_elector_axioms _ _ k p(1-4),
        where synced = "\<lambda>_. True" and E = demo_wenv and ch = demo_ch and ?q0.0 = empty_memq] p(5)
    by auto
qed

text \<open>A lease that does not outlive the renew deadline is not rejected when the flags are read: the process ends, by the
  panic of \<^verbatim>\<open>RunOrDie\<close> if nothing else ends it first, after its caches have synced and its workers and webhook
  have started.\<close>

theorem invalid_lease_panics:
  assumes "leader_elector L" and "KubeValet_Run E synced ch q0 = Inr kv"
    and "fl_leaderElection fl" and "fl_electDuration fl \<le> fl_electDeadline fl"
  shows "(\<exists>err. KubeValet_process L W fl electID E synced ch q0 = Panics (PanicError err)) \<or>
    KubeValet_process L W fl electID E synced ch q0 = Exits 1"
  using assms(2-4) leader_elector.elector_err [OF assms(1), of "\<lparr>ec_Lock = (fl_electResource fl, fl_electNamespace fl, fl_electName fl, electID),
      ec_LeaseDuration = fl_electDuration fl, ec_RenewDeadline = fl_electDeadline fl, ec_RetryPeriod = fl_electRetry fl\<rparr>"]
  by (auto simp: KubeValet_process_def start_election_def enter_election_def ends_def serve_webhook_def webhook_Run_def Let_def
      split: option.splits sum.splits outcome.splits)

text \<open>The flags \<^verbatim>\<open>--configmap-namespace\<close> and \<^verbatim>\<open>--configmap-name\<close> are declared and never read.\<close>

theorem configmap_flags_unused:
  "read_flags (v(''configmap-namespace'' := x, ''configmap-name'' := y)) = read_flags v"
  by (simp add: read_flags_def)

section \<open>The metrics server\<close>

text \<open>\<^verbatim>\<open>startMetricsHttp\<close> has the same loop as the webhook server.\<close>

definition startMetricsHttp :: "(string \<Rightarrow> 'w \<Rightarrow> goerr option \<times> 'w) \<Rightarrow> 'w \<Rightarrow> unit option" where
  "startMetricsHttp listenAndServe w = serve_loop (listenAndServe '':8080'') w"

lemma startMetricsHttp_forever: "startMetricsHttp listenAndServe w = None"
  by (simp add: startMetricsHttp_def serve_loop_forever)

end
