(* ===== verification/Workers.thy ===== *)
theory Workers
  imports Queue
begin

text \<open>
  \<^verbatim>\<open>RetryingWorkQueue.Run\<close>: several goroutines run \<^verbatim>\<open>runWorker\<close> on one queue. A worker is where it stands in
  \<^verbatim>\<open>processNextItem\<close>; the workers, the event handlers that add keys and whatever else changes the state interleave
  in any order, one call on the queue, one lookup or one run of the controller's function at a time. The comment in the
  code promises that no key is processed twice at the same time; that, and that no key is lost, is proved here.
\<close>

section \<open>Workers\<close>

datatype 'obj position =
    Waiting                           \<comment> \<open>before \<^verbatim>\<open>Get\<close>\<close>
  | Took string                       \<comment> \<open>has a key, before the lookup\<close>
  | Processing string 'obj            \<comment> \<open>before the call of the controller's function\<close>
  | Finishing string "goerr option"   \<comment> \<open>before \<^verbatim>\<open>handleErr\<close>\<close>
  | Leaving string                    \<comment> \<open>before the deferred \<^verbatim>\<open>Done\<close>\<close>
  | Stopped                           \<comment> \<open>the queue was shut down; \<^verbatim>\<open>wait.Until\<close> tries again\<close>

fun worker_step ::
    "('q, 'obj, 's) retryingWorkQueue \<Rightarrow> 'obj position \<Rightarrow> 'q \<Rightarrow> 's \<Rightarrow> (gopanic + 'obj position) \<times> 'q \<times> 's" where
  "worker_step rwq Waiting q s =
     (case wq_Get (rwq_queue rwq) q of ((key, quit), q1) \<Rightarrow> (Inr (if quit then Stopped else Took key), q1, s))"
| "worker_step rwq (Took key) q s =
     (case rwq_indexer rwq of
        None \<Rightarrow> (Inr (Finishing key (Some (OtherErr ''indexer has not been set''))), q, s)
      | Some getByKey \<Rightarrow>
          (case getByKey s key of
             Inl err \<Rightarrow> (Inr (Finishing key (Some err)), q, s)
           | Inr None \<Rightarrow> (Inr (Finishing key None), q, s)
           | Inr (Some obj) \<Rightarrow> (Inr (Processing key obj), q, s)))"
| "worker_step rwq (Processing key obj) q s =
     (case rwq_businessLogicFunc rwq obj s of
        (Inl p, s1) \<Rightarrow> (Inl p, wq_Done (rwq_queue rwq) key q, s1)
      | (Inr err, s1) \<Rightarrow> (Inr (Finishing key err), q, s1))"
| "worker_step rwq (Finishing key err) q s = (Inr (Leaving key), handleErr (rwq_queue rwq) err key q, s)"
| "worker_step rwq (Leaving key) q s = (Inr Waiting, wq_Done (rwq_queue rwq) key q, s)"
| "worker_step rwq Stopped q s = (Inr Waiting, q, s)"

section \<open>The pool\<close>

record ('q, 'obj, 's) pool =
  pl_queue :: 'q
  pl_state :: 's
  pl_workers :: "'obj position list"
  pl_crashed :: "gopanic option"      \<comment> \<open>a panic of a worker ends the process\<close>

record ('q, 'obj, 's) newWorkQueue =
  nwq_queue :: "'q workqueue"
  nwq_indexer :: "('s \<Rightarrow> string \<Rightarrow> goerr + 'obj option) option"
  nwq_threadiness :: int

definition NewRetryingWorkQueue ::
    "'q workqueue \<Rightarrow> ('s \<Rightarrow> string \<Rightarrow> goerr + 'obj option) option \<Rightarrow> int \<Rightarrow> ('q, 'obj, 's) newWorkQueue" where
  "NewRetryingWorkQueue Q indexer threadiness =
     \<lparr>nwq_queue = Q, nwq_indexer = indexer, nwq_threadiness = threadiness\<rparr>"

text \<open>\<^verbatim>\<open>Run\<close> sets the controller's function and starts the workers; \<open>q\<close> and \<open>s\<close> are what they find.\<close>

definition Run_queue ::
    "('q, 'obj, 's) newWorkQueue \<Rightarrow> ('obj \<Rightarrow> 's \<Rightarrow> (gopanic + goerr option) \<times> 's) \<Rightarrow> 'q \<Rightarrow> 's \<Rightarrow>
     ('q, 'obj, 's) retryingWorkQueue \<times> ('q, 'obj, 's) pool" where
  "Run_queue c businessLogicFunc q s =
     (\<lparr>rwq_queue = nwq_queue c, rwq_indexer = nwq_indexer c, rwq_businessLogicFunc = businessLogicFunc\<rparr>,
      \<lparr>pl_queue = q, pl_state = s, pl_workers = replicate (nat (nwq_threadiness c)) Waiting, pl_crashed = None\<rparr>)"

inductive pool_step :: "('q, 'obj, 's) retryingWorkQueue \<Rightarrow> ('q, 'obj, 's) pool \<Rightarrow> ('q, 'obj, 's) pool \<Rightarrow> bool"
  for rwq where
  work: "pl_crashed P = None \<Longrightarrow> i < length (pl_workers P) \<Longrightarrow>
     worker_step rwq (pl_workers P ! i) (pl_queue P) (pl_state P) = (Inr w, q, s) \<Longrightarrow>
     pool_step rwq P (P\<lparr>pl_queue := q, pl_state := s, pl_workers := (pl_workers P)[i := w]\<rparr>)"
| crash: "pl_crashed P = None \<Longrightarrow> i < length (pl_workers P) \<Longrightarrow>
     worker_step rwq (pl_workers P ! i) (pl_queue P) (pl_state P) = (Inl p, q, s) \<Longrightarrow>
     pool_step rwq P (P\<lparr>pl_queue := q, pl_state := s, pl_workers := (pl_workers P)[i := Stopped], pl_crashed := Some p\<rparr>)"
| enqueue: "pl_crashed P = None \<Longrightarrow> pool_step rwq P (P\<lparr>pl_queue := wq_Add (rwq_queue rwq) k (pl_queue P)\<rparr>)"
| others: "pl_crashed P = None \<Longrightarrow> pool_step rwq P (P\<lparr>pl_state := s\<rparr>)"

text \<open>The pools that can come about after \<^verbatim>\<open>Run\<close>.\<close>

inductive pool_reach :: "('q, 'obj, 's) retryingWorkQueue \<Rightarrow> ('q, 'obj, 's) pool \<Rightarrow> ('q, 'obj, 's) pool \<Rightarrow> bool"
  for rwq P0 where
  start: "pool_reach rwq P0 P0"
| step: "pool_reach rwq P0 P \<Longrightarrow> pool_step rwq P P' \<Longrightarrow> pool_reach rwq P0 P'"

section \<open>Exclusion\<close>

fun holds :: "'obj position \<Rightarrow> string option" where
  "holds Waiting = None" | "holds Stopped = None" | "holds (Took k) = Some k" | "holds (Processing k obj) = Some k"
| "holds (Finishing k err) = Some k" | "holds (Leaving k) = Some k"

definition held :: "'obj position list \<Rightarrow> string set" where
  "held ws = {k. \<exists>i < length ws. holds (ws ! i) = Some k}"

definition exclusive :: "'obj position list \<Rightarrow> bool" where
  "exclusive ws \<longleftrightarrow> (\<forall>i < length ws. \<forall>j < length ws. \<forall>k. holds (ws ! i) = Some k \<and> holds (ws ! j) = Some k \<longrightarrow> i = j)"

text \<open>A queue that several workers share: \<^verbatim>\<open>Get\<close> on a queue that is shut down changes nothing.\<close>

locale shared_queue = rate_limited_queue +
  assumes quit: "wq_Get Q q = ((k, True), q') \<Longrightarrow> pend q' = pend q \<and> busy q' = busy q"
begin

text \<open>What a step of one worker does: a worker without a key may take one that nobody has, a worker with a key keeps
  it or gives it up; no other key leaves the queue.\<close>

lemma worker_effect:
  assumes "rwq_queue rwq = Q" and "worker_step rwq w q s = (r, q', s')"
    and "h' = (case r of Inr w' \<Rightarrow> holds w' | Inl p \<Rightarrow> None)"
  shows "(case holds w of
      None \<Rightarrow> set_option h' \<inter> busy q = {} \<and> busy q' = busy q \<union> set_option h' \<and> pend q - set_option h' \<subseteq> pend q'
    | Some k \<Rightarrow> (h' = Some k \<and> busy q' = busy q \<or> h' = None \<and> busy q' = busy q - {k}) \<and> pend q \<subseteq> pend q')"
proof (cases w)
  case Waiting
  obtain k b q1 where g: "wq_Get Q q = ((k, b), q1)" by (metis prod.exhaust)
  then show ?thesis using assms(2,3) get [of q k q1] quit [of q k q1] by (cases b) (auto simp: Waiting assms(1))
next
  case (Took k)
  then show ?thesis using assms by (auto split: option.splits sum.splits)
next
  case (Processing k obj)
  then show ?thesis using assms(2,3) by (auto simp: assms(1) finished split: prod.splits sum.splits)
next
  case (Finishing k err)
  then show ?thesis using assms(2,3) by (auto simp: assms(1) handleErr_pend)
next
  case (Leaving k)
  then show ?thesis using assms(2,3) by (auto simp: assms(1) finished)
next
  case Stopped
  then show ?thesis using assms by auto
qed

lemma held_update:
  assumes "exclusive ws" and "i < length ws" and "h' = holds w"
    and "case holds (ws ! i) of None \<Rightarrow> set_option h' \<inter> held ws = {} | Some k \<Rightarrow> h' = Some k \<or> h' = None"
  shows "exclusive (ws[i := w]) \<and>
    held (ws[i := w]) = (held ws - set_option (holds (ws ! i))) \<union> set_option h'"
proof -
  have other: "holds (ws ! j) \<noteq> Some k" if "j < length ws" "j \<noteq> i" "h' = Some k \<or> holds (ws ! i) = Some k" for j k
    using assms that by (auto simp: exclusive_def held_def split: option.splits)
  have at: "holds (ws[i := w] ! j) = (if j = i then h' else holds (ws ! j))" if "j < length ws" for j
    using that by (simp add: nth_list_update assms(3))
  have "exclusive (ws[i := w])"
    unfolding exclusive_def
  proof (intro allI impI)
    fix a b k assume "a < length (ws[i := w])" "b < length (ws[i := w])"
      "holds (ws[i := w] ! a) = Some k \<and> holds (ws[i := w] ! b) = Some k"
    then show "a = b" using assms(1) other [of a k] other [of b k] at [of a] at [of b]
      by (cases "a = i"; cases "b = i") (auto simp: exclusive_def)
  qed
  moreover have "k \<in> held (ws[i := w]) \<longleftrightarrow> k \<in> (held ws - set_option (holds (ws ! i))) \<union> set_option h'" for k
  proof
    assume "k \<in> held (ws[i := w])"
    then obtain j where "j < length ws" "holds (ws[i := w] ! j) = Some k" by (auto simp: held_def)
    then show "k \<in> (held ws - set_option (holds (ws ! i))) \<union> set_option h'"
      using at [of j] other [of j k] by (cases "j = i") (auto simp: held_def)
  next
    assume k: "k \<in> (held ws - set_option (holds (ws ! i))) \<union> set_option h'"
    show "k \<in> held (ws[i := w])"
    proof (cases "h' = Some k")
      case True
      then show ?thesis using at [OF assms(2)] assms(2) by (auto simp: held_def)
    next
      case False
      then obtain j where j: "j < length ws" "holds (ws ! j) = Some k" "holds (ws ! i) \<noteq> Some k"
        using k by (auto simp: held_def)
      then have "j \<noteq> i" by blast
      then show ?thesis using at [OF j(1)] j by (auto simp: held_def)
    qed
  qed
  ultimately show ?thesis by blast
qed

lemma held_mem: "i < length ws \<Longrightarrow> holds (ws ! i) = Some k \<Longrightarrow> k \<in> held ws"
  by (auto simp: held_def)

lemma pool_inv_step:
  assumes "pool_step rwq P P'" and "rwq_queue rwq = Q" and "exclusive (pl_workers P) \<and> busy (pl_queue P) = held (pl_workers P)"
  shows "exclusive (pl_workers P') \<and> busy (pl_queue P') = held (pl_workers P')"
  using assms(1)
proof cases
  case (work i w q s)
  have "case holds (pl_workers P ! i) of None \<Rightarrow> set_option (holds w) \<inter> held (pl_workers P) = {} | Some k \<Rightarrow> holds w = Some k \<or> holds w = None"
    using worker_effect [OF assms(2) work(4) refl] assms(3) by (auto split: option.splits)
  from held_update [OF _ work(3) refl this] show ?thesis
    using worker_effect [OF assms(2) work(4) refl] assms(3) work(1) held_mem [OF work(3)] by (auto split: option.splits)
next
  case (crash i p q s)
  have "case holds (pl_workers P ! i) of None \<Rightarrow> set_option (holds Stopped) \<inter> held (pl_workers P) = {}
      | Some k \<Rightarrow> holds Stopped = Some k \<or> holds (Stopped :: 'b position) = None" by (simp split: option.splits)
  from held_update [OF _ crash(3) refl this] show ?thesis
    using worker_effect [OF assms(2) crash(4) refl] assms(3) crash(1) by (auto split: option.splits)
next
  case (enqueue k)
  then show ?thesis using assms(2,3) by (simp add: add)
qed (use assms(3) in auto)

lemma pool_reach_inv:
  assumes "pool_reach rwq P0 P" and "rwq_queue rwq = Q"
    and "exclusive (pl_workers P0) \<and> busy (pl_queue P0) = held (pl_workers P0)"
  shows "exclusive (pl_workers P) \<and> busy (pl_queue P) = held (pl_workers P)"
  using assms(1) by induction (use assms(3) pool_inv_step [OF _ assms(2)] in blast)+

text \<open>A pending key stays pending until a worker that had none takes it.\<close>

lemma pending_kept:
  assumes "pool_step rwq P P'" and "rwq_queue rwq = Q" and "k \<in> pend (pl_queue P)"
  shows "k \<in> pend (pl_queue P') \<or>
    (\<exists>i < length (pl_workers P). pl_workers P ! i = Waiting \<and> pl_workers P' ! i = Took k)"
  using assms(1)
proof cases
  case (work i w q s)
  show ?thesis
  proof (cases "k \<in> pend q")
    case False
    then have n: "holds (pl_workers P ! i) = None" "holds w = Some k"
      using worker_effect [OF assms(2) work(4) refl] assms(3) by (auto split: option.splits)
    have "pl_workers P ! i = Waiting \<and> w = Took k"
      using n work(4) by (cases "pl_workers P ! i") (auto split: prod.splits if_splits)
    then show ?thesis using work(1,3) by auto
  qed (simp add: work)
next
  case (crash i p q s)
  then show ?thesis using worker_effect [OF assms(2) crash(4) refl] assms(3) by (auto split: option.splits)
next
  case (enqueue k')
  then show ?thesis using assms(2,3) by (simp add: add)
qed (use assms(3) in auto)

end

interpretation mem_shared: shared_queue mem_queue mem_pend mem_busy
  by unfold_locales (auto simp: mem_queue_def split: option.splits)

section \<open>One item, worker by worker\<close>

text \<open>A worker that is not interrupted takes the pool where \<open>processNextItem\<close> says.\<close>

lemma work_Inr:
  "pl_crashed P = None \<Longrightarrow> i < length (pl_workers P) \<Longrightarrow>
   worker_step rwq (pl_workers P ! i) (pl_queue P) (pl_state P) = (Inr w, q, s) \<Longrightarrow>
   P' = P\<lparr>pl_queue := q, pl_state := s, pl_workers := (pl_workers P)[i := w]\<rparr> \<Longrightarrow> pool_step rwq P P'"
  using pool_step.work by metis

text \<open>From its position after \<^verbatim>\<open>Get\<close> a worker is back at \<^verbatim>\<open>Get\<close> after two to four steps.\<close>

definition at_worker :: "('q, 'obj, 's) pool \<Rightarrow> nat \<Rightarrow> 'obj position \<Rightarrow> 'q \<Rightarrow> 's \<Rightarrow> ('q, 'obj, 's) pool" where
  "at_worker P i w q s = P\<lparr>pl_queue := q, pl_state := s, pl_workers := (pl_workers P)[i := w]\<rparr>"

lemma at_worker_step:
  assumes "pl_crashed P = None" and "i < length (pl_workers P)" and "worker_step rwq w q s = (Inr w', q', s')"
  shows "pool_step rwq (at_worker P i w q s) (at_worker P i w' q' s')"
  by (rule work_Inr [where i = i and w = w' and q = q' and s = s']) (use assms in \<open>simp_all add: at_worker_def\<close>)

lemma finish_steps:
  assumes "pl_crashed P = None" and "i < length (pl_workers P)"
  shows "(pool_step rwq)\<^sup>*\<^sup>* (at_worker P i (Finishing k err) q s)
    (at_worker P i Waiting (wq_Done (rwq_queue rwq) k (handleErr (rwq_queue rwq) err k q)) s)"
  by (rule converse_rtranclp_into_rtranclp, rule at_worker_step [OF assms], simp,
      rule r_into_rtranclp, rule at_worker_step [OF assms], simp)

lemma item_steps:
  assumes "pl_crashed P = None" and "i < length (pl_workers P)" and "pl_workers P ! i = Waiting"
    and "processNextItem rwq (pl_queue P) (pl_state P) = (Inr True, q', s')"
  shows "(pool_step rwq)\<^sup>*\<^sup>* P (P\<lparr>pl_queue := q', pl_state := s'\<rparr>)"
proof -
  let ?s = "pl_state P" and ?Q = "rwq_queue rwq"
  note st = at_worker_step [OF assms(1,2), where rwq = rwq]
  have lu: "(pl_workers P)[i := Waiting] = pl_workers P" using assms(3) by (metis list_update_id)
  have P: "P = at_worker P i Waiting (pl_queue P) ?s" using lu by (cases P) (simp add: at_worker_def)
  obtain k q1 where g: "wq_Get ?Q (pl_queue P) = ((k, False), q1)"
    using assms(4) by (cases "wq_Get ?Q (pl_queue P)") (auto simp: processNextItem_def Let_def split: bool.splits)
  obtain err where v: "verdict rwq k ?s = (Inr err, s')" "q' = wq_Done ?Q k (handleErr ?Q err k q1)"
    using processNextItem_verdict [OF g, of ?s] assms(4) by (auto split: prod.splits sum.splits)
  have "(pool_step rwq)\<^sup>*\<^sup>* (at_worker P i (Took k) q1 ?s) (at_worker P i (Finishing k err) q1 s')"
  proof (cases "\<exists>get obj. rwq_indexer rwq = Some get \<and> get ?s k = Inr (Some obj)")
    case True
    then obtain get obj where o: "rwq_indexer rwq = Some get" "get ?s k = Inr (Some obj)" by blast
    have "pool_step rwq (at_worker P i (Took k) q1 ?s) (at_worker P i (Processing k obj) q1 ?s)"
      by (rule st) (simp add: o)
    moreover have "pool_step rwq (at_worker P i (Processing k obj) q1 ?s) (at_worker P i (Finishing k err) q1 s')"
      by (rule st) (use v(1) in \<open>auto simp: verdict_def o split: prod.splits sum.splits\<close>)
    ultimately show ?thesis by (meson converse_rtranclp_into_rtranclp r_into_rtranclp)
  next
    case False
    then have "worker_step rwq (Took k) q1 ?s = (Inr (Finishing k err), q1, s')"
      using v(1) by (auto simp: verdict_def split: option.splits sum.splits)
    then show ?thesis using st by blast
  qed
  moreover have "pool_step rwq P (at_worker P i (Took k) q1 ?s)"
    by (subst P, rule st) (simp add: g)
  moreover have "at_worker P i Waiting q' s' = P\<lparr>pl_queue := q', pl_state := s'\<rparr>"
    using lu by (cases P) (simp add: at_worker_def)
  ultimately show ?thesis
    using finish_steps [OF assms(1,2), of rwq k err q1 s'] v(2)
    by (metis converse_rtranclp_into_rtranclp rtranclp_trans)
qed

section \<open>The property\<close>

text \<open>C26: parallel workers. However many workers run on one queue, and however their steps interleave with each
  other, with events that add keys and with other changes of the state: no two workers ever work on the same key, the
  keys the queue holds as being processed are exactly those of the workers (so nothing stays marked, also after a
  panic), and a pending key leaves the queue only when an idle worker takes it.\<close>

theorem workers_exclusive:
  assumes "shared_queue (nwq_queue c) pend busy" and "busy q = {}"
    and "Run_queue c f q s = (rwq, P0)" and "pool_reach rwq P0 P"
  shows "(\<forall>i < length (pl_workers P). \<forall>j < length (pl_workers P). \<forall>k.
      holds (pl_workers P ! i) = Some k \<and> holds (pl_workers P ! j) = Some k \<longrightarrow> i = j) \<and>
    busy (pl_queue P) = held (pl_workers P) \<and>
    (\<forall>P' k. pool_step rwq P P' \<and> k \<in> pend (pl_queue P) \<longrightarrow> k \<in> pend (pl_queue P') \<or>
      (\<exists>i < length (pl_workers P). pl_workers P ! i = Waiting \<and> pl_workers P' ! i = Took k))"
proof -
  have Q: "rwq_queue rwq = nwq_queue c" and P0: "pl_queue P0 = q" "set (pl_workers P0) \<subseteq> {Waiting}"
    using assms(3) by (auto simp: Run_queue_def)
  have idle: "holds (pl_workers P0 ! i) = None" if "i < length (pl_workers P0)" for i
    using P0(2) nth_mem [OF that] by auto
  then have "exclusive (pl_workers P0) \<and> busy (pl_queue P0) = held (pl_workers P0)"
    using assms(2) P0(1) by (auto simp: exclusive_def held_def)
  from shared_queue.pool_reach_inv [OF assms(1,4) Q this] shared_queue.pending_kept [OF assms(1) _ Q]
  show ?thesis by (auto simp: exclusive_def)
qed

text \<open>Two workers; the first has taken the only key.\<close>

theorem workers_exclusive_witness:
  "\<exists>rwq P0 P. Run_queue (NewRetryingWorkQueue mem_queue (Some (\<lambda>s k. Inr (Some k))) 2) (\<lambda>obj s. (Inr None, s)) demo_memq ()
      = (rwq, P0) \<and> pool_reach rwq P0 P \<and> pl_workers P = [Took ''io'', Waiting] \<and> mem_busy (pl_queue P) = {''io''}"
proof -
  let ?c = "NewRetryingWorkQueue mem_queue (Some (\<lambda>(s :: unit) k. Inr (Some k))) 2"
  have c: "shared_queue (nwq_queue ?c) mem_pend mem_busy"
    using mem_shared.shared_queue_axioms by (simp add: NewRetryingWorkQueue_def)
  have b: "mem_busy demo_memq = {}" by (simp add: mem_busy_def demo_memq_def)
  obtain rwq P0 where r: "Run_queue ?c (\<lambda>obj s. (Inr None, s)) demo_memq () = (rwq, P0)" by force
  then have rw: "rwq_queue rwq = mem_queue"
    and P0: "P0 = \<lparr>pl_queue = demo_memq, pl_state = (), pl_workers = [Waiting, Waiting], pl_crashed = None\<rparr>"
    by (auto simp: Run_queue_def NewRetryingWorkQueue_def numeral_2_eq_2)
  let ?P = "P0\<lparr>pl_queue := demo_memq\<lparr>mq_waiting := [], mq_busy := [''io'']\<rparr>, pl_state := (), pl_workers := (pl_workers P0)[0 := Took ''io'']\<rparr>"
  have "pool_step rwq P0 ?P"
    by (rule pool_step.work [of _ 0]) (simp_all add: P0 rw mem_queue_def demo_memq_def)
  then have re: "pool_reach rwq P0 ?P" by (rule pool_reach.step [OF pool_reach.start])
  from workers_exclusive [OF c b r re] have "mem_busy (pl_queue ?P) = held (pl_workers ?P)" by blast
  moreover have w: "pl_workers ?P = [Took ''io'', Waiting]" by (simp add: P0)
  moreover have "held (pl_workers ?P) = {''io''}" unfolding w by (auto simp: held_def less_Suc_eq)
  ultimately show ?thesis using r re by blast
qed

end
