(* ===== verification/GroupCache.thy ===== *)
theory GroupCache
  imports NodeAssignment
begin

text \<open>
  The cached group behind the pointer that \<^verbatim>\<open>pkg/controller/nodeassignment/controller.go\<close> hands to
  \<^verbatim>\<open>ReconcileNag\<close>. The reconciliation assigns nodes to the group's default assignment through a pointer into
  the group, and \<^verbatim>\<open>Assign\<close> fills in the mode and the effect there: the only change a reconciliation ever makes
  to the cached group, and one that no later reconciliation can tell.
\<close>

section \<open>Two stages of one group\<close>

definition settle_default :: "nag \<Rightarrow> nag" where
  "settle_default g =
     g\<lparr>nag_Spec := (nag_Spec g)\<lparr>nags_DefaultAssignment := map_option settled (nag_Default g)\<rparr>\<rparr>"

definition later_group :: "nag \<Rightarrow> nag \<Rightarrow> bool" where
  "later_group g g' \<longleftrightarrow> g' = g \<or> g' = settle_default g"

lemma settled_idem [simp]: "settled (settled a) = settled a"
  by (simp add: settled_def effective_mode_def effective_effect_def mode_defs)

lemma settle_default_idem [simp]: "settle_default (settle_default g) = settle_default g"
  by (simp add: settle_default_def option.map_comp comp_def)

lemma later_refl [simp]: "later_group g g" "later_group g (settle_default g)"
  by (simp_all add: later_group_def)

lemma later_trans: "later_group g h \<Longrightarrow> later_group h k \<Longrightarrow> later_group g k"
  by (auto simp: later_group_def)

lemma settle_default_simps [simp]:
  "nag_meta (settle_default g) = nag_meta g" "nag_Assignments (settle_default g) = nag_Assignments g"
  "nag_TargetLabels (settle_default g) = nag_TargetLabels g"
  "nag_Default (settle_default g) = map_option settled (nag_Default g)"
  "default_name (settle_default g) = default_name g"
  by (simp_all add: settle_default_def default_name_def option.map_comp comp_def)

text \<open>Nothing a reconciliation looks at, but for the default assignment itself, tells the two stages apart.\<close>

lemma settle_default_reads [simp]:
  "TargetsNode (settle_default g) = TargetsNode g" "GetAssignment (settle_default g) = GetAssignment g"
  "known_names (settle_default g) = known_names g" "satisfied (settle_default g) = satisfied g"
  "clean_of (settle_default g) = clean_of g"
  by (simp_all add: fun_eq_iff TargetsNode_def GetAssignment_def known_names_def satisfied_def clean_of_def group_taint_def
      cong: option.case_cong)

lemma sane_group_settle_default [simp]: "sane_group (settle_default g) \<longleftrightarrow> sane_group g"
  by (cases "nag_Default g") (simp_all add: sane_group_def)

lemma Unassign_settle_default [simp]: "Unassign match (settle_default g) = Unassign match g"
  by (simp add: fun_eq_iff Unassign_def RemoveLabel_def RemoveTaint_def group_taints_def)

lemma targeted_settle_default [simp]:
  "targeted match (settle_default g) = targeted match g" "outcome match (settle_default g) = outcome match g"
proof -
  have s: "strip match (settle_default g) = strip match g"
    by (rule ext) (simp add: strip_def cong: option.case_cong if_cong)
  show t: "targeted match (settle_default g) = targeted match g" by (rule ext) (simp add: targeted_def s)
  show "outcome match (settle_default g) = outcome match g" by (intro ext) (simp add: outcome_def t)
qed

section \<open>The stages of one reconciliation\<close>

lemma nodeSets_loop_Nag:
  "nodeSets_loop K wc ns s = (r, wc', s') \<Longrightarrow> wc_Nag wc' = wc_Nag wc"
proof (induction ns arbitrary: wc s)
  case (Cons n ns)
  obtain n1 wc1 where body: "(case GetAssignment (wc_Nag wc) n of
           Some ca \<Rightarrow>
             if ca \<notin> wc_KnownAssignments wc
             then (snd (Unassign (k_match K) (wc_Nag wc) n),
                   wc\<lparr>wc_UnassignedNodeNames := set_add (node_Name n) (wc_UnassignedNodeNames wc)\<rparr>)
             else (n, wc)
         | None \<Rightarrow> (n, wc)) = (n1, wc1)" by force
  have 1: "wc_Nag wc1 = wc_Nag wc" using body by (auto split: option.splits if_splits)
  obtain ru wc2 s2 where u: "UpdateNodeAssignment K wc1 n1 None s = (ru, wc2, s2)"
    by (cases "UpdateNodeAssignment K wc1 n1 None s") auto
  show ?case
    using Cons.prems Cons.IH [of wc2 s2] Cons.IH [of wc1 s]
      Cons.IH [of "wc1\<lparr>wc_TargetedNodes := wc_TargetedNodes wc1 @ [n1]\<rparr>" s] body 1 u UpdateNodeAssignment_Nag [OF u]
    by (auto split: if_splits option.splits sum.splits)
qed simp

lemma NewWriterContext_Nag:
  assumes "NewWriterContext K g s = (r, wc, s')" shows "wc_Nag wc = g"
proof -
  let ?wc0 = "updateKnownAssignments (empty_writerContext g)"
  obtain r1 wc1 s1 where u: "updateNodeSets K ?wc0 s = (r1, wc1, s1)" by (cases "updateNodeSets K ?wc0 s") auto
  then have "wc_Nag wc1 = g"
    using nodeSets_loop_Nag [of K ?wc0]
    by (auto simp: updateNodeSets_def updateKnownAssignments_def empty_writerContext_def split: sum.splits prod.splits)
  then show ?thesis
    using assms u by (auto simp: NewWriterContext_def Update_def updateAssignmentChanges_def updateCurrentAssignments_def
        split: sum.splits)
qed

lemma Assign_settles: "Assign g n a = Inr (n', a') \<Longrightarrow> a' = settled a"
  by (auto simp: Assign_cases settled_def split: if_splits)

lemma UpdateNodeAssignment_settles:
  "UpdateNodeAssignment K wc n (Some a) s = (Inr (e, na'), wc', s') \<Longrightarrow> na' = Some (settled a)"
  by (auto simp: UpdateNodeAssignment_def split: sum.splits option.splits prod.splits dest: Assign_settles)

lemma place_node_later:
  assumes "place_node K wc n s = (r, wc', s')" shows "later_group (wc_Nag wc) (wc_Nag wc')"
proof -
  obtain ra wc1 s1 where a: "assignNode K wc n s = (ra, wc1, s1)" by (cases "assignNode K wc n s") auto
  then have 1: "wc_Nag wc1 = wc_Nag wc" using assignNode_loop_Nag by (simp add: assignNode_def)
  show ?thesis
  proof (cases "nag_Default (wc_Nag wc)")
    case None
    then show ?thesis using assms a 1 by (auto simp: place_node_def split: sum.splits bool.splits if_splits)
  next
    case (Some df)
    obtain ru wc2 s2 where u: "UpdateNodeAssignment K wc1 n (Some df) s1 = (ru, wc2, s2)"
      by (cases "UpdateNodeAssignment K wc1 n (Some df) s1") auto
    have 2: "wc_Nag wc2 = wc_Nag wc" using UpdateNodeAssignment_Nag [OF u] 1 by simp
    have "wc_Nag (set_default na' wc2) = settle_default (wc_Nag wc)" if "ru = Inr (e, na')" for e na'
      using UpdateNodeAssignment_settles [OF u [unfolded that]] Some 2 by (simp add: set_default_def settle_default_def)
    then show ?thesis using assms a u 1 2 Some
      by (auto simp: place_node_def split: sum.splits bool.splits if_splits)
  qed
qed

lemma reconcileNode_later:
  assumes "reconcileNode K wc n s = (r, n', wc', s')" shows "later_group (wc_Nag wc) (wc_Nag wc')"
proof (cases "GetAssignment (wc_Nag wc) n")
  case None
  then have "place_node K wc n s = (r, wc', s')" using assms by (auto simp: reconcileNode_def split: prod.splits)
  then show ?thesis by (rule place_node_later)
next
  case (Some ca)
  obtain n1 wc1 where m: "unassign_in_memory K wc n ca = (n1, wc1)" by (rule prod.exhaust)
  obtain r2 wc2 s2 where p: "place_node K wc1 n1 s = (r2, wc2, s2)" by (cases "place_node K wc1 n1 s") auto
  have "wc_Nag wc1 = wc_Nag wc" using m by (auto simp: unassign_in_memory_def release_change_def)
  then show ?thesis
    using assms Some m p place_node_later [OF p] by (auto simp: reconcileNode_def split: if_splits)
qed

lemma reconcile_loop_later:
  "reconcile_loop K wc ns s = (r, ns', wc', s') \<Longrightarrow> later_group (wc_Nag wc) (wc_Nag wc')"
proof (induction ns arbitrary: wc s r ns' wc' s')
  case (Cons n ns)
  obtain r1 n1 wc1 s1 where n1: "reconcileNode K wc n s = (r1, n1, wc1, s1)"
    by (cases "reconcileNode K wc n s") auto
  obtain r2 ns2 wc2 s2 where l: "reconcile_loop K wc1 ns s1 = (r2, ns2, wc2, s2)"
    by (cases "reconcile_loop K wc1 ns s1") auto
  show ?case
    using reconcileNode_later [OF n1] Cons.IH [OF l] Cons.prems n1 l
    by (auto split: sum.splits option.splits intro: later_trans)
qed simp

lemma cleanup_loop_Nag: "cleanup_loop K wc nms s = (r, wc', s') \<Longrightarrow> wc_Nag wc' = wc_Nag wc"
proof (induction nms arbitrary: wc s)
  case (Cons nm nms)
  obtain r1 wc1 s1 where u: "UnassignNodeByName K wc nm s = (r1, wc1, s1)"
    by (cases "UnassignNodeByName K wc nm s") auto
  then have "wc_Nag wc1 = wc_Nag wc"
    using UpdateNodeAssignment_Nag [of K wc _ None]
    by (auto simp: UnassignNodeByName_def split: sum.splits prod.splits)
  then show ?case using Cons u by (auto split: sum.splits)
qed simp

lemma unassignAll_loop_Nag: "unassignAll_loop K wc ns s = (r, wc', s') \<Longrightarrow> wc_Nag wc' = wc_Nag wc"
proof (induction ns arbitrary: wc s)
  case (Cons n ns)
  obtain r1 wc1 s1 where u: "UpdateNodeAssignment K wc n None s = (r1, wc1, s1)"
    by (cases "UpdateNodeAssignment K wc n None s") auto
  show ?case using Cons u UpdateNodeAssignment_Nag [OF u] by (auto split: sum.splits)
qed simp

lemma Reconcile_later:
  assumes "Reconcile K wc s = (r, wc', s')" shows "later_group (wc_Nag wc) (wc_Nag wc')"
proof -
  obtain r1 ns wc1 s1 where l: "reconcile_loop K wc (wc_TargetedNodes wc) s = (r1, ns, wc1, s1)"
    by (cases "reconcile_loop K wc (wc_TargetedNodes wc) s") auto
  have "wc_Nag wc' = wc_Nag wc1"
    using assms l cleanup_loop_Nag [of K "wc1\<lparr>wc_TargetedNodes := ns\<rparr>"]
    by (auto simp: Reconcile_def split: sum.splits option.splits)
  then show ?thesis using reconcile_loop_later [OF l] by simp
qed

text \<open>Whatever the server answers, panics included, \<^verbatim>\<open>ReconcileNag\<close> leaves the group it was given or the group
  with its default assignment settled.\<close>

lemma ReconcileNag_later:
  assumes "ReconcileNag K g s = (r, g', s')" shows "later_group g g'"
proof -
  obtain r1 wc s1 where new: "NewWriterContext K g s = (r1, wc, s1)" by (cases "NewWriterContext K g s") auto
  have g: "wc_Nag wc = g" by (rule NewWriterContext_Nag [OF new])
  obtain ra s2 where a: "AddFinalizer K g s1 = (ra, s2)" by (rule prod.exhaust)
  obtain rr wc3 s3 where rec: "Reconcile K wc s2 = (rr, wc3, s3)" by (cases "Reconcile K wc s2") auto
  obtain ru wc4 s4 where u: "UnassignAllNodes K wc s1 = (ru, wc4, s4)" by (cases "UnassignAllNodes K wc s1") auto
  have "wc_Nag wc4 = g"
    using u unassignAll_loop_Nag [of K wc] g by (auto simp: UnassignAllNodes_def split: sum.splits prod.splits)
  then show ?thesis
    using assms new a rec u g Reconcile_later [OF rec]
    by (auto simp: ReconcileNag_def split: sum.splits if_splits prod.splits option.splits)
qed

section \<open>The cache\<close>

definition later_cache :: "nag_cache \<Rightarrow> nag_cache \<Rightarrow> bool" where
  "later_cache G C \<longleftrightarrow> (\<forall>k. rel_option later_group (G k) (C k))"

lemma later_cache_refl [simp]: "later_cache G G"
  by (simp add: later_cache_def option.rel_refl)

lemma later_cache_get: "later_cache G C \<Longrightarrow> C k = Some g' \<Longrightarrow> \<exists>g. G k = Some g \<and> later_group g g'"
  by (metis later_cache_def option_rel_Some2)

lemma later_cache_none: "later_cache G C \<Longrightarrow> C k = None \<longleftrightarrow> G k = None"
  by (metis later_cache_def rel_option_None1 rel_option_None2)

lemma later_cache_put:
  assumes "later_cache G C" and "keyFunc g' = Inr k" and "G k = Some g" and "later_group g g'"
  shows "later_cache G (cache_put keyFunc g' C)"
  using assms by (simp add: later_cache_def cache_put_def)

end
