(* ===== verification/GroupFrame.thy ===== *)
theory GroupFrame
  imports GroupCache
begin

text \<open>
  What a reconciliation does to the groups on the server. The writes to nodes leave them alone; only the finalizer of
  the group that is reconciled is ever written. On a server that answers the group client too, a reconciliation of a
  group without the finalizer puts it on the stored group: the step after which the group can be reconciled at all.
\<close>

section \<open>The node operations leave the groups alone\<close>

context cluster_api
begin

lemma send_node_patch_groups: "send_node_patch K old new s = (e, s') \<Longrightarrow> nagview s' = nagview s"
  by (auto simp: send_node_patch_def node_patch_nagview split: sum.splits if_splits)

lemma UpdateNodeAssignment_groups: "UpdateNodeAssignment K wc n na s = (r, wc', s') \<Longrightarrow> nagview s' = nagview s"
  by (auto simp: UpdateNodeAssignment_def split: sum.splits option.splits prod.splits dest: send_node_patch_groups)

lemma nodeSets_loop_groups: "nodeSets_loop K wc ns s = (r, wc', s') \<Longrightarrow> nagview s' = nagview s"
proof (induction ns arbitrary: wc s)
  case (Cons n ns)
  then show ?case
    by (auto simp: Let_def split: prod.splits if_splits option.splits sum.splits dest!: UpdateNodeAssignment_groups)
qed simp

lemma NewWriterContext_groups: "NewWriterContext K g s = (r, wc, s') \<Longrightarrow> nagview s' = nagview s"
proof -
  have "nagview s2 = nagview s" if "updateNodeSets K wc1 s = (r2, wc2, s2)" for wc1 r2 wc2 s2
    using that list_ok list_err
    by (auto simp: updateNodeSets_def split: prod.splits sum.splits dest!: nodeSets_loop_groups) blast+
  then show "NewWriterContext K g s = (r, wc, s') \<Longrightarrow> nagview s' = nagview s"
    by (auto simp: NewWriterContext_def Update_def split: prod.splits sum.splits)
qed

lemma assignNode_loop_groups: "assignNode_loop K wc n as s = (r, wc', s') \<Longrightarrow> nagview s' = nagview s"
proof (induction as)
  case (Cons a as)
  then show ?case
    by (auto split: option.splits if_splits prod.splits sum.splits dest!: UpdateNodeAssignment_groups)
qed simp

lemma place_node_groups: "place_node K wc n s = (r, wc', s') \<Longrightarrow> nagview s' = nagview s"
  by (auto simp: place_node_def assignNode_def split: prod.splits sum.splits bool.splits option.splits if_splits
      dest!: UpdateNodeAssignment_groups assignNode_loop_groups)

lemma reconcileNode_groups: "reconcileNode K wc n s = (r, n', wc', s') \<Longrightarrow> nagview s' = nagview s"
  by (auto simp: reconcileNode_def split: prod.splits option.splits if_splits dest!: place_node_groups)

lemma reconcile_loop_groups: "reconcile_loop K wc ns s = (r, ns', wc', s') \<Longrightarrow> nagview s' = nagview s"
proof (induction ns arbitrary: wc s r ns' wc' s')
  case (Cons n ns)
  then show ?case by (fastforce split: prod.splits sum.splits option.splits dest: reconcileNode_groups)
qed simp

lemma cleanup_loop_groups: "cleanup_loop K wc nms s = (r, wc', s') \<Longrightarrow> nagview s' = nagview s"
proof (induction nms arbitrary: wc s)
  case (Cons nm nms)
  obtain r1 wc1 s1 where u: "UnassignNodeByName K wc nm s = (r1, wc1, s1)"
    by (cases "UnassignNodeByName K wc nm s") auto
  obtain q s2 where q: "k_nodesGet K nm s = (q, s2)" by force
  then have "s2 = s" using get_ok get_err by (cases q) blast+
  then have "nagview s1 = nagview s"
    using u q by (auto simp: UnassignNodeByName_def split: sum.splits prod.splits dest!: UpdateNodeAssignment_groups)
  then show ?case using Cons u by (auto split: sum.splits)
qed simp

lemma Reconcile_groups: "Reconcile K wc s = (r, wc', s') \<Longrightarrow> nagview s' = nagview s"
  by (auto simp: Reconcile_def split: prod.splits sum.splits option.splits dest!: reconcile_loop_groups cleanup_loop_groups)

lemma UnassignAllNodes_groups: "UnassignAllNodes K wc s = (r, wc', s') \<Longrightarrow> nagview s' = nagview s"
proof -
  have loop: "nagview s2 = nagview s1" if "unassignAll_loop K wc1 ns s1 = (r2, wc2, s2)" for wc1 ns s1 r2 wc2 s2
    using that
  proof (induction ns arbitrary: wc1 s1)
    case (Cons n ns)
    then show ?case by (auto split: prod.splits sum.splits dest!: UpdateNodeAssignment_groups)
  qed simp
  then show "UnassignAllNodes K wc s = (r, wc', s') \<Longrightarrow> nagview s' = nagview s"
    using list_ok list_err by (auto simp: UnassignAllNodes_def split: prod.splits sum.splits dest!: loop) blast+
qed

section \<open>The finalizers of other groups\<close>

lemma attempts_other:
  assumes "nm' \<noteq> nm"
  shows "find_nag nm' (nagview (snd (addFinalizer_attempt K nm s))) = find_nag nm' (nagview s)"
    and "find_nag nm' (nagview (snd (removeFinalizer_attempt K nm s))) = find_nag nm' (nagview s)"
proof -
  have o: "find_nag nm' (nagview (snd (case k_nagsGet K nm s of ((result, getErr), s1) \<Rightarrow>
      k_nagsUpdate K (set_Finalizers result (f (nag_Finalizers result))) s1))) = find_nag nm' (nagview s)" for f
  proof -
    obtain r s' where a: "(case k_nagsGet K nm s of ((result, getErr), s1) \<Rightarrow>
      k_nagsUpdate K (set_Finalizers result (f (nag_Finalizers result))) s1) = (r, s')" by force
    then show ?thesis using finalizer_attempt [OF a] assms by (cases r) (auto simp: finalizers_updated_def)
  qed
  show "find_nag nm' (nagview (snd (addFinalizer_attempt K nm s))) = find_nag nm' (nagview s)"
    using o [of "\<lambda>fs. fs @ [nagFinalizer]"] by (simp add: addFinalizer_attempt_def)
  show "find_nag nm' (nagview (snd (removeFinalizer_attempt K nm s))) = find_nag nm' (nagview s)"
    using o by (simp add: removeFinalizer_attempt_def)
qed

lemma finalizers_other:
  assumes "nm \<noteq> nag_Name g"
  shows "find_nag nm (nagview (snd (AddFinalizer K g s))) = find_nag nm (nagview s)"
    and "find_nag nm (nagview (snd (RemoveFinalizer K g s))) = find_nag nm (nagview s)"
proof -
  let ?v = "\<lambda>s. find_nag nm (nagview s)"
  have r: "?v (snd (k_retry K f s)) = ?v s" if "\<And>s. ?v (snd (f s)) = ?v s" for f
    by (rule retry_run_keeps [of f _ _ _ ?v, OF retry_law that])
  show "?v (snd (AddFinalizer K g s)) = ?v s"
    using r [of "addFinalizer_attempt K (nag_Name g)"] attempts_other(1) [OF assms]
    by (auto simp: AddFinalizer_def split: prod.splits option.splits)
  show "?v (snd (RemoveFinalizer K g s)) = ?v s"
    by (simp add: RemoveFinalizer_def r attempts_other(2) [OF assms])
qed

lemma ReconcileNag_other_groups:
  assumes "ReconcileNag K g s = (r, g', s')" and "nm \<noteq> nag_Name g"
  shows "find_nag nm (nagview s') = find_nag nm (nagview s)"
proof -
  obtain r1 wc s1 where new: "NewWriterContext K g s = (r1, wc, s1)" by (cases "NewWriterContext K g s") auto
  have w: "wc_Nag wc = g" "nagview s1 = nagview s"
    by (rule NewWriterContext_Nag [OF new], rule NewWriterContext_groups [OF new])
  obtain ra s2 where a: "AddFinalizer K g s1 = (ra, s2)" by (rule prod.exhaust)
  obtain rr wc3 s3 where rec: "Reconcile K wc s2 = (rr, wc3, s3)" by (cases "Reconcile K wc s2") auto
  obtain ru wc4 s4 where u: "UnassignAllNodes K wc s1 = (ru, wc4, s4)" by (cases "UnassignAllNodes K wc s1") auto
  have "wc_Nag wc4 = g"
    using u unassignAll_loop_Nag [of K wc] w(1) by (auto simp: UnassignAllNodes_def split: sum.splits prod.splits)
  then show ?thesis
    using assms new a rec u w finalizers_other(1) [OF assms(2), of s1] finalizers_other(2) [OF assms(2), of s4]
      Reconcile_groups [OF rec] UnassignAllNodes_groups [OF u]
    by (auto simp: ReconcileNag_def split: sum.splits if_splits prod.splits option.splits)
qed

end

section \<open>A server that does not fail\<close>

text \<open>A group that is stored can be read, and its finalizers can be replaced by others, in which case it stays.\<close>

locale reliable_cluster = cluster_api K view nagview + reliable_node_api K view
  for K :: "('s, 'd, 'p) kube" and view and nagview +
  assumes nag_get_total: "find_nag nm (nagview s) = Some g \<Longrightarrow> k_nagsGet K nm s = ((g, None), s)"
    and nag_update_total: "find_nag nm (nagview s) = Some g \<Longrightarrow> nm \<noteq> '''' \<Longrightarrow> fs \<noteq> [] \<Longrightarrow>
      \<exists>s'. k_nagsUpdate K (set_Finalizers g fs) s = (None, s') \<and> find_nag nm (nagview s') \<noteq> None"
begin

lemma AddFinalizer_total:
  assumes "find_nag (nag_Name g) (nagview s) \<noteq> None" and "nag_Name g \<noteq> ''''" and "nagFinalizer \<notin> set (nag_Finalizers g)"
  shows "\<exists>s' x. AddFinalizer K g s = ((True, None), s') \<and> find_nag (nag_Name g) (nagview s') = Some x \<and>
    nagFinalizer \<in> set (nag_Finalizers x)"
proof -
  let ?a = "addFinalizer_attempt K (nag_Name g)"
  obtain y where y: "find_nag (nag_Name g) (nagview s) = Some y" using assms(1) by blast
  obtain s1 where u: "k_nagsUpdate K (set_Finalizers y (nag_Finalizers y @ [nagFinalizer])) s = (None, s1)"
    "find_nag (nag_Name g) (nagview s1) \<noteq> None"
    using nag_update_total [OF y assms(2), of "nag_Finalizers y @ [nagFinalizer]"] by auto
  have a: "?a s = (None, s1)" using nag_get_total [OF y] u(1) by (simp add: addFinalizer_attempt_def)
  have "retry_run ?a s (fst (k_retry K ?a s)) (snd (k_retry K ?a s))" by (rule retry_law)
  then have "k_retry K ?a s = (None, s1)"
    using a by (cases rule: retry_run.cases) (auto simp: prod_eq_iff)
  then have r: "AddFinalizer K g s = ((True, None), s1)" using assms(3) by (simp add: AddFinalizer_def)
  moreover obtain x where "find_nag (nag_Name g) (nagview s1) = Some x" using u(2) by blast
  ultimately show ?thesis using AddFinalizer_effect [OF r] by (auto simp: finalizers_updated_def)
qed

text \<open>A group without the finalizer gets it on the server. (Its nodes are left to the reconciliation that the update
  event of this write causes.)\<close>

lemma ReconcileNag_new:
  assumes "wf_view (view s)" and "om_DeletionTimestamp (nag_meta g) = None" and "nagFinalizer \<notin> set (nag_Finalizers g)"
    and "find_nag (nag_Name g) (nagview s) \<noteq> None" and "nag_Name g \<noteq> ''''"
  shows "\<exists>g' s' x. ReconcileNag K g s = (Inr None, g', s') \<and> wf_view (view s') \<and> names (view s') = names (view s) \<and>
    find_nag (nag_Name g) (nagview s') = Some x \<and> nagFinalizer \<in> set (nag_Finalizers x)"
proof -
  obtain wc s1 where new: "NewWriterContext K g s = (Inr (), wc, s1)" "wc_Nag wc = g"
    "wf_view (view s1)" "names (view s1) = names (view s)" using NewWriterContext_total [OF assms(1)] by blast
  obtain s2 x where f: "AddFinalizer K g s1 = ((True, None), s2)" "find_nag (nag_Name g) (nagview s2) = Some x"
    "nagFinalizer \<in> set (nag_Finalizers x)"
    using AddFinalizer_total [OF _ assms(5,3), of s1] assms(4) NewWriterContext_groups [OF new(1)] by auto
  then have "view s2 = view s1" using finalizers_view(1) [of g s1] by simp
  then show ?thesis using new f assms(2) by (auto simp: ReconcileNag_def)
qed

end

lemma find_nag_map_stored:
  "find_nag nm (map (\<lambda>x. if nag_Name x = nm then g else x) gs) \<noteq> None \<longleftrightarrow> find_nag nm gs \<noteq> None"
  if "nag_Name g = nm"
  using that by (induction gs) (auto simp: find_nag_def)

interpretation mem_reliable_cluster: reliable_cluster mem_kube mem_nodes mem_nags
proof (unfold_locales, goal_cases)
  case (1 nm s g)
  then show ?case by (simp add: mem_nagsGet_def)
next
  case (2 nm s g fs)
  have n: "nag_Name g = nm" by (rule find_nag_name [OF 2(1)])
  have "nm \<in> nag_Name ` set (mem_nags s)" using 2(1) n by (auto simp: find_nag_def find_Some_iff)
  then show ?case using 2 n find_nag_map_stored [of "set_Finalizers g fs" nm "mem_nags s"] by (simp add: mem_nagsUpdate_def)
qed

end
