(* ===== verification/Convergence.thy ===== *)
theory Convergence
  imports GroupFrame
begin

text \<open>
  The node assignment controller as a whole: the queue of \<^verbatim>\<open>pkg/queues\<close> with the reconciliation of
  \<^verbatim>\<open>pkg/controller/nodeassignment\<close>. When no further event arrives and the server does not fail, a worker that
  empties its queue leaves every group it was given where a reconciliation can bring it: a group that is being deleted
  without a trace, a group with the controller's finalizer where it wants to be, and a new group with the finalizer
  on the server. Reconciling one group does not undo what was done for another. The worker's state is the server and
  the cache of groups, into which reconciliations write (\<^verbatim>\<open>GroupCache\<close>).
\<close>

section \<open>Where a group wants to be\<close>

definition group_settled :: "taint_match \<Rightarrow> nag \<Rightarrow> node list \<Rightarrow> bool" where
  "group_settled match g ns \<longleftrightarrow>
     (if om_DeletionTimestamp (nag_meta g) \<noteq> None then \<forall>n \<in> set ns. clean_of g n
      else satisfied g (outcome match g ns ns) \<and>
        (\<forall>nm. nm \<notin> set (names (targeted match g ns)) \<longrightarrow> label_at (nag_Name g) ns nm = None))"

text \<open>A new group: all that a reconciliation does for it is to put the controller's finalizer on the group the server
  stores.\<close>

definition new_group :: "nag \<Rightarrow> bool" where
  "new_group g \<longleftrightarrow> om_DeletionTimestamp (nag_meta g) = None \<and> nagFinalizer \<notin> set (nag_Finalizers g)"

definition has_finalizer :: "string \<Rightarrow> nag list \<Rightarrow> bool" where
  "has_finalizer nm gs \<longleftrightarrow> (\<exists>x. find_nag nm gs = Some x \<and> nagFinalizer \<in> set (nag_Finalizers x))"

text \<open>Where a reconciliation brings a group when the server has the nodes \<open>ns\<close> and the groups \<open>gs\<close>.\<close>

definition group_done :: "taint_match \<Rightarrow> nag \<Rightarrow> node list \<Rightarrow> nag list \<Rightarrow> bool" where
  "group_done match g ns gs \<longleftrightarrow>
     (if new_group g then has_finalizer (nag_Name g) gs else group_settled match g ns)"

definition new_groups_stored :: "nag_cache \<Rightarrow> nag list \<Rightarrow> bool" where
  "new_groups_stored G gs \<longleftrightarrow>
     (\<forall>k g. G k = Some g \<longrightarrow> new_group g \<longrightarrow> k \<noteq> '''' \<and> find_nag k gs \<noteq> None)"

text \<open>The cached groups: each under its name and with distinct, named assignments, and none selects nodes by a
  label that the controller itself sets for one of them.\<close>

definition groups_apart :: "nag_cache \<Rightarrow> bool" where
  "groups_apart G \<longleftrightarrow>
     (\<forall>k g. G k = Some g \<longrightarrow> nag_Name g = k \<and> om_Namespace (nag_meta g) = '''' \<and> sane_group g \<and>
        (\<forall>h \<in> dom G. \<forall>(l, v) \<in> set (nag_TargetLabels g). \<not> own_key h l))"

text \<open>What client-go documents of the key function: an object without a namespace has its name for a key.\<close>

definition keys_by_name :: "(nag \<Rightarrow> goerr + string) \<Rightarrow> bool" where
  "keys_by_name keyFunc \<longleftrightarrow> (\<forall>g. om_Namespace (nag_meta g) = '''' \<longrightarrow> keyFunc g = Inr (nag_Name g))"

lemma group_done_later: "later_group g g' \<Longrightarrow> group_done match g' ns gs \<longleftrightarrow> group_done match g ns gs"
  by (auto simp: later_group_def group_done_def group_settled_def new_group_def)

lemma groups_apartD:
  assumes "groups_apart G" and "G k = Some g" and "later_group g g'"
  shows "nag_Name g' = k" "om_Namespace (nag_meta g') = ''''" "sane_group g'"
    "\<forall>h \<in> dom G. \<forall>(l, v) \<in> set (nag_TargetLabels g'). \<not> own_key h l"
proof -
  have same: "nag_meta g' = nag_meta g" "sane_group g' = sane_group g" "nag_TargetLabels g' = nag_TargetLabels g"
    using assms(3) by (auto simp: later_group_def)
  show "nag_Name g' = k" "om_Namespace (nag_meta g') = ''''" "sane_group g'"
    "\<forall>h \<in> dom G. \<forall>(l, v) \<in> set (nag_TargetLabels g'). \<not> own_key h l"
    using assms(1,2) unfolding same groups_apart_def by blast+
qed

section \<open>What depends on the foreign part of a node only\<close>

text \<open>Two lists of nodes that agree but for the labels and taints of group \<open>h\<close>.\<close>

definition same_but :: "string \<Rightarrow> node list \<Rightarrow> node list \<Rightarrow> bool" where
  "same_but h = list_all2 (\<lambda>a b. node_Name a = node_Name b \<and> foreign h a = foreign h b)"

lemma same_but_fview: "same_but h ns' ns \<longleftrightarrow> fview h ns' = fview h ns"
  by (auto simp: same_but_def fview_def list_all2_conv_all_nth list_eq_iff_nth_eq)

lemma foreign_label: "foreign h a = foreign h b \<Longrightarrow> \<not> own_key h l \<Longrightarrow> mget (node_Labels a) l = mget (node_Labels b) l"
  by (simp add: foreign_def fun_eq_iff) meson

lemma own_key_other [simp]:
  "own_key h (assign_key g) \<longleftrightarrow> h = g" "own_key h (packleft_key g) \<longleftrightarrow> h = g" "\<not> own_key h ProtectedNodeLabelKey"
  by (auto simp: own_key_def)

lemma TargetsNode_foreign:
  assumes "foreign h a = foreign h b" and "\<forall>(l, v) \<in> set (nag_TargetLabels g). \<not> own_key h l"
  shows "TargetsNode g a \<longleftrightarrow> TargetsNode g b"
proof -
  have "mget (node_Labels a) ProtectedNodeLabelKey = mget (node_Labels b) ProtectedNodeLabelKey"
    by (rule foreign_label [OF assms(1)]) simp
  moreover have "match_labels (nag_TargetLabels g) (node_Labels a) True \<longleftrightarrow>
      match_labels (nag_TargetLabels g) (node_Labels b) True"
    using assms(2) foreign_label [OF assms(1)] by (fastforce simp: match_labels_iff)
  ultimately show ?thesis by (simp add: TargetsNode_def split: option.split)
qed

lemma foreign_strip: "match_taint_law match \<Longrightarrow> foreign (nag_Name g) (strip match g n) = foreign (nag_Name g) n"
  by (simp add: strip_def split: option.splits)

lemma names_targeted:
  assumes "match_taint_law match" and "\<forall>(l, v) \<in> set (nag_TargetLabels g). \<not> own_key (nag_Name g) l"
  shows "names (targeted match g ns) = names (filter (TargetsNode g) ns)"
proof (induction ns)
  case (Cons n ns)
  then show ?case
    using TargetsNode_foreign [OF foreign_strip [OF assms(1)] assms(2), of n] by (auto simp: names_def)
qed (simp add: names_def)

lemma names_targets_same:
  assumes "same_but h ns' ns" and "\<forall>(l, v) \<in> set (nag_TargetLabels g). \<not> own_key h l"
  shows "names (filter (TargetsNode g) ns') = names (filter (TargetsNode g) ns)"
  using assms(1) unfolding same_but_def
proof (induction rule: list_all2_induct)
  case (Cons a as b bs)
  then show ?case using TargetsNode_foreign [OF _ assms(2), of a b] by (auto simp: names_def)
qed (simp add: names_def)

lemma label_at_same:
  assumes "same_but h ns' ns" and "g \<noteq> h"
  shows "label_at g ns' nm = label_at g ns nm"
  using assms(1) unfolding same_but_def
proof (induction rule: list_all2_induct)
  case (Cons a as b bs)
  then show ?case using foreign_label [of h a b "assign_key g"] assms(2) by (auto simp: label_at_def)
qed (simp add: label_at_def)

lemma clean_of_same:
  assumes "foreign h a = foreign h b" and "nag_Name g \<noteq> h"
  shows "clean_of g a \<longleftrightarrow> clean_of g b"
proof -
  have l: "mget (node_Labels a) k = mget (node_Labels b) k" if "group_key g k" for k
    by (rule foreign_label [OF assms(1)]) (use that assms(2) in \<open>auto simp: group_key_def\<close>)
  have f: "filter (\<lambda>t. \<not> own_key h (taint_Key t)) (n_Taints a) = filter (\<lambda>t. \<not> own_key h (taint_Key t)) (n_Taints b)"
    using assms(1) by (simp add: foreign_def)
  have "group_taint g t \<Longrightarrow> \<not> own_key h (taint_Key t)" for t
    using assms(2) by (auto simp: group_taint_def)
  then have "(\<forall>t \<in> set (n_Taints a). \<not> group_taint g t) \<longleftrightarrow> (\<forall>t \<in> set (n_Taints b). \<not> group_taint g t)"
    using arg_cong [OF f, of set] by (auto simp: set_eq_iff)
  then show ?thesis using l by (simp add: clean_of_def group_key_def)
qed

lemma outcome_names:
  "outcome match g ns ns' = map (label_at (nag_Name g) ns') (names (targeted match g ns))"
  by (simp add: outcome_def names_def)


lemma group_settled_same:
  assumes "same_but h ns' ns" and "nag_Name g \<noteq> h" and "match_taint_law match"
    and "\<forall>(l, v) \<in> set (nag_TargetLabels g). \<not> own_key h l \<and> \<not> own_key (nag_Name g) l"
    and "group_settled match g ns"
  shows "group_settled match g ns'"
proof -
  have tl: "\<forall>(l, v) \<in> set (nag_TargetLabels g). \<not> own_key h l"
    "\<forall>(l, v) \<in> set (nag_TargetLabels g). \<not> own_key (nag_Name g) l" using assms(4) by auto
  have t: "names (targeted match g ns') = names (targeted match g ns)"
    by (simp only: names_targeted [OF assms(3) tl(2)] names_targets_same [OF assms(1) tl(1)])
  have l: "label_at (nag_Name g) ns' = label_at (nag_Name g) ns"
    by (rule ext) (rule label_at_same [OF assms(1,2)])
  have "\<exists>b \<in> set ns. foreign h a = foreign h b" if "a \<in> set ns'" for a
    using assms(1) that by (fastforce simp: same_but_def list_all2_conv_all_nth in_set_conv_nth)
  then have "(\<forall>n \<in> set ns. clean_of g n) \<Longrightarrow> \<forall>n \<in> set ns'. clean_of g n"
    using clean_of_same [OF _ assms(2)] by metis
  then show ?thesis using assms(5) by (auto simp: group_settled_def outcome_names t l split: if_splits)
qed

section \<open>One reconciliation\<close>

context reliable_cluster
begin

text \<open>The nodes of the server, of which only the labels and taints change.\<close>

definition nodes_ok :: "string list \<Rightarrow> 's \<Rightarrow> bool" where
  "nodes_ok nms s \<longleftrightarrow> wf_view (view s) \<and> names (view s) = nms"

lemma reconciled_frame:
  assumes "wf_view (view s)" and "ReconcileNag K g s = (r, g', s')"
  shows "same_but (nag_Name g) (view s') (view s)"
proof -
  have "frame_ok (nag_Name g) (fview (nag_Name g) (view s)) (view s)"
    using assms(1) by (auto simp: frame_ok_def wf_view_def wf_labels_def wf_node_def)
  from ReconcileNag_ok [OF this assms(2)] show ?thesis by (simp add: frame_ok_def same_but_fview)
qed

lemma reconciled:
  assumes "nodes_ok nms s" and "int (length nms) < 2 ^ 63" and "sane_group g"
    and tl: "\<forall>(l, v) \<in> set (nag_TargetLabels g). \<not> own_key (nag_Name g) l"
    and stored: "new_group g \<longrightarrow> nag_Name g \<noteq> '''' \<and> find_nag (nag_Name g) (nagview s) \<noteq> None"
  shows "\<exists>g' s'. ReconcileNag K g s = (Inr None, g', s') \<and> nodes_ok nms s' \<and>
    same_but (nag_Name g) (view s') (view s) \<and> group_done (k_match K) g (view s') (nagview s')"
proof -
  have w: "wf_view (view s)" "names (view s) = nms" using assms(1) by (simp_all add: nodes_ok_def)
  have len: "int (length (view s)) < 2 ^ 63" using assms(2) w(2) by (metis length_map names_def)
  note frame = reconciled_frame [OF w(1)]
  consider (dying) "om_DeletionTimestamp (nag_meta g) \<noteq> None" | (live) "live_group g" | (new) "new_group g"
    by (cases "om_DeletionTimestamp (nag_meta g) = None"; cases "nagFinalizer \<in> set (nag_Finalizers g)")
      (simp_all add: live_group_def new_group_def)
  then show ?thesis
  proof cases
    case dying
    from ReconcileNag_dying [OF cluster_api_axioms reliable_node_api_axioms w(1) dying] show ?thesis
      using frame dying w(2) by (fastforce simp: nodes_ok_def group_done_def group_settled_def new_group_def)
  next
    case live
    obtain g' s' where r: "ReconcileNag K g s = (Inr None, g', s')" "names (view s') = names (view s)" "wf_view (view s')"
      "satisfied g (outcome (k_match K) g (view s) (view s'))"
      "\<forall>nm. nm \<notin> set (names (targeted (k_match K) g (view s))) \<longrightarrow> label_at (nag_Name g) (view s') nm = None"
      using ReconcileNag_reliable [OF reliable_node_api_axioms w(1) assms(3) live len] by blast
    have "names (targeted (k_match K) g (view s')) = names (targeted (k_match K) g (view s))"
      using names_targeted [OF match_law tl] names_targets_same [OF frame [OF r(1)] tl] by simp
    then have "group_settled (k_match K) g (view s')"
      using r(4,5) live by (simp add: group_settled_def live_group_def outcome_names)
    then show ?thesis using r frame w(2) live by (auto simp: nodes_ok_def group_done_def new_group_def live_group_def)
  next
    case new
    then have n: "om_DeletionTimestamp (nag_meta g) = None" "nagFinalizer \<notin> set (nag_Finalizers g)"
      by (simp_all add: new_group_def)
    from ReconcileNag_new [OF w(1) n] stored new show ?thesis
      using frame w(2) by (fastforce simp: nodes_ok_def group_done_def has_finalizer_def)
  qed
qed

section \<open>The worker\<close>

text \<open>The cache started with the groups \<open>G\<close>; a key is done when its group, if there is one, is settled.\<close>

definition key_done :: "nag_cache \<Rightarrow> string \<Rightarrow> 's \<Rightarrow> bool" where
  "key_done G k s \<longleftrightarrow> (\<forall>g. G k = Some g \<longrightarrow> group_done (k_match K) g (view s) (nagview s))"

lemma key_done_same:
  assumes "groups_apart G" and "G h \<noteq> None" and "same_but h (view s') (view s)" and "k \<noteq> h"
    and "find_nag k (nagview s') = find_nag k (nagview s)" and "key_done G k s"
  shows "key_done G k s'"
  unfolding key_done_def
proof (intro allI impI)
  fix g assume g: "G k = Some g"
  have n: "nag_Name g = k" and d: "h \<in> dom G" "k \<in> dom G"
    and l: "\<forall>h \<in> dom G. \<forall>(l, v) \<in> set (nag_TargetLabels g). \<not> own_key h l"
    using assms(1,2) g by (auto simp: groups_apart_def)
  have "\<forall>(l, v) \<in> set (nag_TargetLabels g). \<not> own_key h l \<and> \<not> own_key (nag_Name g) l" using l d n by fastforce
  note settled = group_settled_same [OF assms(3) _ match_law this]
  have "group_done (k_match K) g (view s) (nagview s)" using assms(6) g by (simp add: key_done_def)
  then show "group_done (k_match K) g (view s') (nagview s')"
    using settled n assms(4,5) by (auto simp: group_done_def has_finalizer_def split: if_splits)
qed

lemma worker_step:
  assumes "keys_by_name (nac_keyFunc c)" and "groups_apart G" and "int (length nms) < 2 ^ 63"
    and "nodes_ok nms s" and "later_cache G C" and "new_groups_stored G (nagview s)"
  shows "\<exists>e s1 C1. verdict (nac_worker c K) k (s, C) = (Inr e, (s1, C1)) \<and> nodes_ok nms s1 \<and> later_cache G C1 \<and>
    new_groups_stored G (nagview s1) \<and> key_done G k s1 \<and> (\<forall>k'. key_done G k' s \<longrightarrow> key_done G k' s1)"
proof (cases "C k")
  case None
  then have "G k = None" using later_cache_none [OF assms(5)] by simp
  then show ?thesis using assms(4-6) None by (simp add: verdict_def nac_worker_def key_done_def)
next
  case (Some g1)
  obtain g where g: "G k = Some g" "later_group g g1" using later_cache_get [OF assms(5) Some] by blast
  note n = groups_apartD [OF assms(2) g]
  have new1: "new_group g1 = new_group g" using g(2) by (auto simp: later_group_def new_group_def)
  have tl: "\<forall>(l, v) \<in> set (nag_TargetLabels g1). \<not> own_key (nag_Name g1) l" using n(4) g(1) n(1) by blast
  have st: "new_group g1 \<longrightarrow> nag_Name g1 \<noteq> '''' \<and> find_nag (nag_Name g1) (nagview s) \<noteq> None"
    using assms(6) g(1) n(1) new1 by (simp add: new_groups_stored_def)
  obtain g2 s1 where r: "ReconcileNag K g1 s = (Inr None, g2, s1)" "nodes_ok nms s1"
    "same_but k (view s1) (view s)" "group_done (k_match K) g1 (view s1) (nagview s1)"
    using reconciled [OF assms(4,3) n(3) tl st] n(1) by blast
  have other: "find_nag k' (nagview s1) = find_nag k' (nagview s)" if "k' \<noteq> k" for k'
    using ReconcileNag_other_groups [OF r(1)] that n(1) by simp
  have g2: "later_group g g2" using later_trans [OF g(2) ReconcileNag_later [OF r(1)]] .
  then have "nac_keyFunc c g2 = Inr k"
    using assms(1) groups_apartD(1,2) [OF assms(2) g(1) g2] by (simp add: keys_by_name_def)
  note later = later_cache_put [of G C "nac_keyFunc c", OF assms(5) this g(1) g2]
  have k: "key_done G k s1" using r(4) g by (simp add: key_done_def group_done_later)
  moreover have "key_done G k' s1" if "key_done G k' s" for k'
    using that key_done_same [OF assms(2) _ r(3)] other g(1) k by (cases "k' = k") auto
  moreover have "new_groups_stored G (nagview s1)"
    unfolding new_groups_stored_def
  proof (intro allI impI)
    fix k' h assume h: "G k' = Some h" "new_group h"
    have "find_nag k' (nagview s1) \<noteq> None"
    proof (cases "k' = k")
      case True
      then have "group_done (k_match K) g (view s1) (nagview s1)" "new_group g"
        using k h g(1) by (simp_all add: key_done_def)
      then show ?thesis using True n(1) g groups_apartD(1) [OF assms(2) g(1) later_refl(1)]
        by (auto simp: group_done_def has_finalizer_def)
    next
      case False
      then show ?thesis using other assms(6) h by (simp add: new_groups_stored_def)
    qed
    then show "k' \<noteq> '''' \<and> find_nag k' (nagview s1) \<noteq> None" using assms(6) h by (simp add: new_groups_stored_def)
  qed
  ultimately show ?thesis using r later Some by (simp add: verdict_def nac_worker_def)
qed

end

text \<open>C6: the controller converges. On a server that does not fail, with cached groups that do not select nodes
  by each other's labels, whose new ones are stored there, and with no further event, a worker empties its queue within
  as many items as attempts are left to the pending keys. Afterwards every group that was pending is done. A live group
  that had the controller's finalizer is settled: each of its assignments has the nodes it asks for (or the nodes ran
  out) and no untargeted node a label of the group. A group that is being deleted has left no trace. A new group, one
  without the finalizer, is not served yet, but has the finalizer on the server; the event of that update makes it
  pending again, as a group that is served. What was done before for a group that was not pending still is: groups do
  not undo each other's work. The cached groups, which the reconciliations write into, differ from the initial ones in
  the mode and effect of their default assignments at most.\<close>

theorem controller_converges:
  assumes "draining_queue (nac_queue c) pend busy" and "reliable_cluster K view nagview"
    and "keys_by_name (nac_keyFunc c)" and "groups_apart G" and "new_groups_stored G (nagview s)"
    and "wf_view (view s)" and "int (length (view s)) < 2 ^ 63" and "busy q = {}"
  shows "\<exists>n q' s' G'. n \<le> (\<Sum>k \<in> pend q. attempts_left (wq_NumRequeues (nac_queue c) k q)) \<and>
    runWorker n (nac_worker c K) q (s, G) = (Inr True, q', (s', G')) \<and>
    pend q' = {} \<and> names (view s') = names (view s) \<and> later_cache G G' \<and>
    (\<forall>k g. G k = Some g \<and> (k \<in> pend q \<or> group_done (k_match K) g (view s) (nagview s)) \<longrightarrow>
      (if new_group g then has_finalizer k (nagview s') else group_settled (k_match K) g (view s')))"
proof -
  let ?I = "\<lambda>st. reliable_cluster.nodes_ok view (names (view s)) (fst st) \<and> later_cache G (snd st) \<and>
      new_groups_stored G (nagview (fst st))"
    and ?D = "\<lambda>k st. reliable_cluster.key_done K view nagview G k (fst st)"
  have q: "rwq_queue (nac_worker c K) = nac_queue c" by (simp add: nac_worker_def)
  have len: "int (length (names (view s))) < 2 ^ 63" using assms(7) by (simp add: names_def)
  have i: "?I (s, G)" using assms(5,6) by (simp add: reliable_cluster.nodes_ok_def [OF assms(2)])
  have step: "\<exists>e s1. verdict (nac_worker c K) k st = (Inr e, s1) \<and> ?I s1 \<and> ?D k s1 \<and> (\<forall>k'. ?D k' st \<longrightarrow> ?D k' s1)"
    if "?I st" for k st
    using that reliable_cluster.worker_step [OF assms(2-4) len, where s = "fst st" and C = "snd st" and k = k]
    by (cases st) fastforce
  obtain n q' s' G' where "n \<le> draining_queue.budget (nac_queue c) pend q"
    "runWorker n (nac_worker c K) q (s, G) = (Inr True, q', (s', G'))"
    "pend q' = {}" "?I (s', G')" "\<forall>k. k \<in> pend q \<or> ?D k (s, G) \<longrightarrow> ?D k (s', G')"
    using draining_queue.drains_done [where I = ?I and D = ?D, OF assms(1) q step assms(8) i] by (metis prod.collapse)
  moreover have "nag_Name g = k" if "G k = Some g" for k g using assms(4) that by (simp add: groups_apart_def)
  ultimately show ?thesis
    unfolding draining_queue.budget_def [OF assms(1)] reliable_cluster.nodes_ok_def [OF assms(2)]
      reliable_cluster.key_done_def [OF assms(2)] fst_conv snd_conv group_done_def by (smt (verit) option.inject)
qed

text \<open>A group to be served, one that is being deleted and a new one, all pending.\<close>

definition demo_gone :: nag where
  "demo_gone = demo_dying\<lparr>nag_meta := (nag_meta demo_dying)\<lparr>om_Name := ''gone''\<rparr>\<rparr>"

definition demo_fresh :: nag where
  "demo_fresh = demo_live\<lparr>nag_meta := (nag_meta demo_live)\<lparr>om_Name := ''fresh'', om_Finalizers := []\<rparr>\<rparr>"

definition demo_groups :: nag_cache where
  "demo_groups = [''io'' \<mapsto> demo_live, ''gone'' \<mapsto> demo_gone, ''fresh'' \<mapsto> demo_fresh]"

definition demo_two :: mem where
  "demo_two = \<lparr>mem_nodes = [demo_node ''n1'' [(assign_key ''gone'', ''fast'')] [], demo_node ''n2'' [(assign_key ''io'', ''old'')] []],
     mem_nags = [demo_live, demo_gone, demo_fresh]\<rparr>"

definition demo_two_queue :: memq where
  "demo_two_queue = \<lparr>mq_waiting = [''io'', ''gone'', ''fresh''], mq_busy = [], mq_requeues = []\<rparr>"

theorem controller_converges_witness:
  "\<exists>n q' s' G'. n \<le> 18 \<and>
     runWorker n (nac_worker demo_controller mem_kube) demo_two_queue (demo_two, demo_groups) = (Inr True, q', (s', G')) \<and> mem_pend q' = {} \<and>
     satisfied demo_live (outcome match_ref demo_live (mem_nodes s') (mem_nodes s')) \<and>
     (\<forall>n \<in> set (mem_nodes s'). clean_of demo_gone n) \<and> has_finalizer ''fresh'' (mem_nags s')"
proof -
  have key: "keys_by_name (nac_keyFunc demo_controller)" by (simp add: keys_by_name_def demo_controller_def)
  have d: "draining_queue (nac_queue demo_controller) mem_pend mem_busy"
    using mem_dq.draining_queue_axioms by (simp add: demo_controller_def)
  have live: "om_Namespace (nag_meta demo_live) = ''''" "om_DeletionTimestamp (nag_meta demo_live) = None" "\<not> new_group demo_live"
    using demo_group_ok(2) by (simp_all add: demo_live_def demo_meta_def live_group_def new_group_def)
  have gone: "nag_Name demo_gone = ''gone''" "om_Namespace (nag_meta demo_gone) = ''''" "nag_TargetLabels demo_gone = []" "sane_group demo_gone"
    "om_DeletionTimestamp (nag_meta demo_gone) \<noteq> None"
    using demo_group_ok(1) by (simp_all add: demo_gone_def demo_dying_def sane_group_def default_name_def live)
  have fresh: "nag_Name demo_fresh = ''fresh''" "om_Namespace (nag_meta demo_fresh) = ''''" "nag_TargetLabels demo_fresh = []"
    "sane_group demo_fresh" "new_group demo_fresh"
    using demo_group_ok(1) by (simp_all add: demo_fresh_def sane_group_def default_name_def live new_group_def)
  have g: "groups_apart demo_groups"
    using demo_group_ok(1) gone(1-4) fresh(1-4) by (auto simp: groups_apart_def demo_groups_def live)
  have st: "new_groups_stored demo_groups (mem_nags demo_two)"
    using live(3) gone fresh by (auto simp: new_groups_stored_def demo_groups_def demo_two_def find_nag_def new_group_def)
  have w: "wf_view (mem_nodes demo_two)" "int (length (mem_nodes demo_two)) < 2 ^ 63" "mem_busy demo_two_queue = {}"
    by (simp_all add: demo_two_def wf_view_def wf_node_def wf_map_def names_def demo_defs demo_two_queue_def mem_busy_def)
  have p: "mem_pend demo_two_queue = {''io'', ''gone'', ''fresh''}"
    "(\<Sum>k \<in> {''io'', ''gone'', ''fresh''}. attempts_left (wq_NumRequeues (nac_queue demo_controller) k demo_two_queue)) = 18"
    by (simp_all add: mem_pend_def demo_two_queue_def demo_controller_def mem_queue_def mq_count_def attempts_left_def)
  have m: "demo_groups ''io'' = Some demo_live" "demo_groups ''gone'' = Some demo_gone" "demo_groups ''fresh'' = Some demo_fresh"
    by (simp_all add: demo_groups_def)
  from controller_converges [OF d mem_reliable_cluster.reliable_cluster_axioms key g st w]
  obtain n q' s' G' where n: "n \<le> 18"
      "runWorker n (nac_worker demo_controller mem_kube) demo_two_queue (demo_two, demo_groups) = (Inr True, q', (s', G'))" "mem_pend q' = {}"
    and s: "\<And>k g. demo_groups k = Some g \<Longrightarrow> k \<in> mem_pend demo_two_queue \<Longrightarrow>
      (if new_group g then has_finalizer k (mem_nags s') else group_settled (k_match mem_kube) g (mem_nodes s'))"
    unfolding p by blast
  have "group_settled match_ref demo_live (mem_nodes s')" "group_settled match_ref demo_gone (mem_nodes s')"
    "has_finalizer ''fresh'' (mem_nags s')"
    using s [OF m(1)] s [OF m(2)] s [OF m(3)] p(1) live(3) gone(5) fresh(5) by (simp_all add: new_group_def)
  then show ?thesis using n gone(5) live(2) by (auto simp: group_settled_def)
qed


text \<open>The write into the cache is real: after one item the cached group is no longer the one the informer stored.\<close>

theorem cached_group_is_overwritten:
  "map_option nag_Default (snd (snd (verdict (nac_worker demo_controller mem_kube) ''io'' (demo_two, demo_groups))) ''io'')
     = Some (Some (settled (demo_assignment ''rest'' ''''))) \<and>
   map_option nag_Default (demo_groups ''io'') = Some (Some (demo_assignment ''rest'' '''')) \<and>
   settled (demo_assignment ''rest'' '''') \<noteq> demo_assignment ''rest'' ''''"
  by code_simp

end
