(* ===== verification/StaleTaints.thy ===== *)
theory StaleTaints
  imports GroupFrame
begin

text \<open>
  Which nodes lose or gain taints in a reconciliation. \<^verbatim>\<open>Reconcile\<close> takes a node off its assignment in memory only
  and puts the new assignment on that copy; the patch is computed between the two copies, so it mentions a
  taint only if the new assignment adds one. A node that goes from an assignment with a taint to one without
  therefore keeps the old taint on the server. This holds whatever the server answers.
\<close>

section \<open>Labels that go with a change of taints\<close>

text \<open>The assignments that add a taint.\<close>

definition tainted_names :: "nag \<Rightarrow> string set" where
  "tainted_names g = na_Name ` set (filter (\<lambda>a. effective_mode a = NodeAssignmentModeLabelAndTaint)
     (nag_Assignments g @ (case nag_Default g of None \<Rightarrow> [] | Some a \<Rightarrow> [a])))"

definition tainted_label :: "nag \<Rightarrow> node \<Rightarrow> bool" where
  "tainted_label g n \<longleftrightarrow> GetAssignment g n = None \<or> GetAssignment g n \<in> Some ` tainted_names g"

text \<open>Against the nodes \<open>B\<close>: every node has its taints, but for those with a name in \<open>X\<close>, whose label then is none
  or that of an assignment with a taint.\<close>

definition taints_kept :: "nag \<Rightarrow> node list \<Rightarrow> string set \<Rightarrow> node list \<Rightarrow> bool" where
  "taints_kept g B X ns \<longleftrightarrow>
     (\<forall>b \<in> set B. \<forall>c \<in> set ns. node_Name c = node_Name b \<longrightarrow>
        n_Taints c = n_Taints b \<or> node_Name c \<in> X \<and> tainted_label g c)"

lemma taints_kept_mono: "taints_kept g B X ns \<Longrightarrow> X \<subseteq> Y \<Longrightarrow> taints_kept g B Y ns"
  by (auto simp: taints_kept_def)

lemma taints_kept_write:
  assumes "taints_kept g B X ns"
    and "\<forall>c \<in> set ns. node_Name c = nm \<longrightarrow> node_Name (f c) = nm \<and>
      (tainted_label g (f c) \<or> nm \<notin> X \<and> n_Taints (f c) = n_Taints c)"
  shows "taints_kept g B (insert nm X) (update_view nm f ns)"
  using assms by (fastforce simp: taints_kept_def update_view_def)

lemma tainted_namesI:
  "a \<in> set (nag_Assignments g) \<or> nag_Default g = Some a \<Longrightarrow> effective_mode a = NodeAssignmentModeLabelAndTaint \<Longrightarrow>
   na_Name a \<in> tainted_names g"
  by (cases "nag_Default g") (auto simp: tainted_names_def)

lemma effective_mode_settled [simp]: "effective_mode (settled a) = effective_mode a"
  by (simp add: settled_def effective_mode_def mode_defs)

lemma tainted_names_later: "later_group g h \<Longrightarrow> tainted_names h = tainted_names g"
proof -
  have n: "na_Name (settled a) = na_Name a" for a by (simp add: settled_def)
  have "tainted_names (settle_default g) = tainted_names g"
    by (cases "nag_Default g") (simp_all add: tainted_names_def n)
  then show "later_group g h \<Longrightarrow> tainted_names h = tainted_names g" by (auto simp: later_group_def)
qed

lemma GetAssignment_later: "later_group g h \<Longrightarrow> GetAssignment h = GetAssignment g"
  by (auto simp: later_group_def)

lemma GetAssignment_merge:
  assumes "wf_map (node_Labels old)" and "wf_map (node_Labels new)"
  shows "GetAssignment g (merge_node old new c) =
    (if GetAssignment g new = GetAssignment g old then GetAssignment g c else GetAssignment g new)"
  using merge_labels_get [OF assms] by (simp add: GetAssignment_def)

section \<open>One write\<close>

context cluster_api
begin

text \<open>An unassigned node has no label of the group, if the copy in memory has one or is the server's.\<close>

lemma unassign_taints:
  assumes "wc_ok nm fv wc (view s)" and "copy_ok nm fv n" and "later_group g (wc_Nag wc)" and "taints_kept g B X (view s)"
    and "GetAssignment g n \<noteq> None \<or> n \<in> set (view s)"
    and "UpdateNodeAssignment K wc n None s = (r, wc', s')"
  shows "taints_kept g B (insert (node_Name n) X) (view s')"
    and "m \<in> set (view s) \<Longrightarrow> node_Name m \<noteq> node_Name n \<Longrightarrow> m \<in> set (view s')"
proof -
  let ?n = "snd (Unassign (k_match K) (wc_Nag wc) n)"
  obtain e where e: "send_node_patch K n ?n s = (e, s')"
    using assms(6) by (auto simp: UpdateNodeAssignment_def split: prod.splits option.splits)
  have w: "wf_map (node_Labels n)" "wf_map (node_Labels ?n)"
    using assms(2) by (simp_all add: copy_ok_def wf_map_Unassign match_law)
  have v: "view s' = view s \<or> view s' = update_view (node_Name n) (merge_node n ?n) (view s)"
    using e send_node_patch_ok [OF _ node_variant_Unassign w] send_node_patch_err by (cases e) auto
  have U: "GetAssignment g ?n = None"
    using Unassign_removes_group [OF match_law, of "wc_Nag wc" n] GetAssignment_later [OF assms(3)] by simp
  have "tainted_label g (merge_node n ?n c)" if c: "c \<in> set (view s)" "node_Name c = node_Name n" for c
  proof (cases "GetAssignment g n")
    case None
    then have "n \<in> set (view s)" using assms(5) by blast
    moreover have "distinct (names (view s))" using assms(1) by (simp add: wc_ok_def frame_ok_def)
    ultimately have "c = n" using c by (metis find_Some_iff_names option.inject)
    then show ?thesis using None U by (simp add: tainted_label_def GetAssignment_merge [OF w])
  qed (simp add: tainted_label_def GetAssignment_merge [OF w] U)
  then show "taints_kept g B (insert (node_Name n) X) (view s')"
    using v taints_kept_write [OF assms(4), of "node_Name n" "merge_node n ?n"] taints_kept_mono [OF assms(4) subset_insertI]
    by auto
  show "m \<in> set (view s) \<Longrightarrow> node_Name m \<noteq> node_Name n \<Longrightarrow> m \<in> set (view s')"
    using v by (auto simp: update_view_def)
qed

text \<open>An assigned node keeps its taints, or has the label of an assignment with a taint.\<close>

lemma assign_taints:
  assumes "copy_ok nm fv n" and "later_group g (wc_Nag wc)" and "taints_kept g B X (view s)"
    and "GetAssignment g n = None" and "node_Name n \<notin> X"
    and "a \<in> set (nag_Assignments (wc_Nag wc)) \<or> nag_Default (wc_Nag wc) = Some a"
    and "UpdateNodeAssignment K wc n (Some a) s = (r, wc', s')"
  shows "taints_kept g B (insert (node_Name n) X) (view s')"
    and "r = Inr (Some err, na') \<Longrightarrow> taints_kept g B X (view s')"
proof -
  let ?n = "assigned_node (wc_Nag wc) n a"
  show "taints_kept g B (insert (node_Name n) X) (view s')"
  proof (cases "Assign (wc_Nag wc) n a")
    case (Inl p)
    then show ?thesis using assms(7) taints_kept_mono [OF assms(3) subset_insertI] by (auto simp: UpdateNodeAssignment_def)
  next
    case (Inr na2)
    then have "fst na2 = ?n" by (auto simp: Assign_cases split: if_splits)
    then obtain e where e: "send_node_patch K n ?n s = (e, s')"
      using assms(7) Inr by (cases na2) (auto simp: UpdateNodeAssignment_def split: prod.splits option.splits)
    have w: "wf_map (node_Labels n)" "wf_map (node_Labels ?n)"
      using assms(1) by (simp_all add: copy_ok_def wf_map_assigned_node)
    have v: "view s' = view s \<or> view s' = update_view (node_Name n) (merge_node n ?n) (view s)"
      using e send_node_patch_ok [OF _ node_variant_assigned w] send_node_patch_err by (cases e) auto
    have "tainted_label g (merge_node n ?n c) \<or> n_Taints (merge_node n ?n c) = n_Taints c" for c
    proof (cases "effective_mode a = NodeAssignmentModeLabelAndTaint")
      case True
      then have "known_mode a" by (simp add: known_mode_def)
      then have "GetAssignment g ?n = Some (na_Name a)"
        using assigned_node_GetAssignment [of a "wc_Nag wc" n] GetAssignment_later [OF assms(2)] by simp
      moreover have "na_Name a \<in> tainted_names g"
        using tainted_namesI [OF assms(6) True] tainted_names_later [OF assms(2)] by simp
      ultimately show ?thesis using assms(4) by (simp add: tainted_label_def GetAssignment_merge [OF w])
    next
      case False
      then have "n_Taints n = n_Taints ?n" by (simp add: assigned_node_def)
      then show ?thesis by simp
    qed
    then show ?thesis
      using v assms(5) taints_kept_write [OF assms(3), of "node_Name n" "merge_node n ?n"]
        taints_kept_mono [OF assms(3) subset_insertI] by auto
  qed
  assume err: "r = Inr (Some err, na')"
  show "taints_kept g B X (view s')"
    using assms(3,7) err by (auto simp: UpdateNodeAssignment_def split: sum.splits option.splits prod.splits dest: send_node_patch_err)
qed

section \<open>The loops\<close>

text \<open>The names \<open>X\<close> of the nodes whose taints may have changed are apart from the nodes yet to be visited.\<close>

definition fresh_for :: "string set \<Rightarrow> node list \<Rightarrow> bool" where
  "fresh_for X ns \<longleftrightarrow> distinct (names ns) \<and> X \<inter> set (names ns) = {}"

lemma fresh_for_Cons [simp]:
  "fresh_for X (n # ns) \<longleftrightarrow> fresh_for X ns \<and> node_Name n \<notin> X \<and> node_Name n \<notin> set (names ns)"
  by (auto simp: fresh_for_def names_def)

lemma nodeSets_loop_taints:
  assumes "wc_ok nm fv wc (view s)" and "\<forall>n \<in> set ns. copy_ok nm fv n" and "wc_Nag wc = g"
    and "taints_kept g B X (view s)" and "fresh_for X (wc_TargetedNodes wc @ ns)"
    and "nodeSets_loop K wc ns s = (r, wc', s')"
  shows "\<exists>Y. taints_kept g B Y (view s') \<and> fresh_for Y (wc_TargetedNodes wc')"
  using assms
proof (induction ns arbitrary: wc s X)
  case Nil
  then show ?case by auto
next
  case (Cons n ns)
  have nm: "nag_Name g = nm" using Cons.prems(1,3) by (simp add: wc_ok_def)
  have app: "fresh_for X (wc_TargetedNodes wc @ ns)" "node_Name n \<notin> X" "node_Name n \<notin> set (names (wc_TargetedNodes wc @ ns))"
    "fresh_for X (wc_TargetedNodes wc)" using Cons.prems(5) by (auto simp: fresh_for_def names_def)
  obtain n1 wc1 where body: "(case GetAssignment (wc_Nag wc) n of
           Some ca \<Rightarrow>
             if ca \<notin> wc_KnownAssignments wc
             then (snd (Unassign (k_match K) (wc_Nag wc) n),
                   wc\<lparr>wc_UnassignedNodeNames := set_add (node_Name n) (wc_UnassignedNodeNames wc)\<rparr>)
             else (n, wc)
         | None \<Rightarrow> (n, wc)) = (n1, wc1)" by force
  have n1: "copy_ok nm fv n1" "node_Name n1 = node_Name n" and wc1: "wc_ok nm fv wc1 (view s)" "wc_Nag wc1 = g"
    "wc_TargetedNodes wc1 = wc_TargetedNodes wc"
    using body Cons.prems(1-3) nm match_law by (auto simp: wc_ok_def split: option.splits if_splits)
  have rest: "\<forall>n \<in> set ns. copy_ok nm fv n" using Cons.prems(2) by simp
  show ?case
  proof (cases "TargetsNode g n1")
    case True
    let ?wc = "wc1\<lparr>wc_TargetedNodes := wc_TargetedNodes wc1 @ [n1]\<rparr>"
    have ok: "wc_ok nm fv ?wc (view s)" using wc1 n1 by (auto simp: wc_ok_def)
    have fr: "fresh_for X (wc_TargetedNodes ?wc @ ns)"
      using Cons.prems(5) wc1(3) n1(2) by (auto simp: fresh_for_def names_def)
    show ?thesis
      using Cons.IH [OF ok rest _ Cons.prems(4) fr] Cons.prems(3,6) True body wc1(2) by simp
  next
    case False
    show ?thesis
    proof (cases "GetAssignment g n1")
      case None
      with Cons.IH [OF wc1(1) rest wc1(2) Cons.prems(4)] Cons.prems(3,6) False body app(1) wc1(3) show ?thesis by simp
    next
      case (Some ca)
      obtain ru wc2 s2 where u: "UpdateNodeAssignment K wc1 n1 None s = (ru, wc2, s2)"
        by (cases "UpdateNodeAssignment K wc1 n1 None s") auto
      have ok: "wc_ok nm fv wc2 (view s2)" by (rule update_ok [OF wc1(1) n1(1) u])
      have wc2: "wc_Nag wc2 = g" "wc_TargetedNodes wc2 = wc_TargetedNodes wc"
        using u wc1(2,3) by (auto simp: UpdateNodeAssignment_def split: sum.splits option.splits prod.splits)
      have k: "taints_kept g B (insert (node_Name n) X) (view s2)"
        using unassign_taints(1) [OF wc1(1) n1(1) _ Cons.prems(4) _ u] wc1(2) Some n1(2) by simp
      have fr: "fresh_for (insert (node_Name n) X) (wc_TargetedNodes wc2 @ ns)"
        "fresh_for (insert (node_Name n) X) (wc_TargetedNodes wc2)"
        using app(1,3) wc2(2) by (auto simp: fresh_for_def names_def)
      show ?thesis
        using Cons.IH [OF ok rest wc2(1) k fr(1)] Cons.prems(3,6) False body Some u k fr(2)
        by (auto split: sum.splits option.splits)
    qed
  qed
qed

lemma assignNode_loop_taints:
  assumes "copy_ok nm fv n" and "later_group g (wc_Nag wc)" and "taints_kept g B X (view s)"
    and "GetAssignment g n = None" and "node_Name n \<notin> X" and "set as \<subseteq> set (nag_Assignments (wc_Nag wc))"
    and "assignNode_loop K wc n as s = (r, wc', s')"
  shows "taints_kept g B (insert (node_Name n) X) (view s')"
    and "r = Inr (False, err) \<Longrightarrow> taints_kept g B X (view s')"
  using assms(6,7)
proof (induction as)
  case Nil
  { case 1 then show ?case using taints_kept_mono [OF assms(3) subset_insertI] by simp }
  { case 2 then show ?case using assms(3) by simp }
next
  case (Cons a as)
  obtain ru wc2 s2 where u: "UpdateNodeAssignment K wc n (Some a) s = (ru, wc2, s2)"
    by (cases "UpdateNodeAssignment K wc n (Some a) s") auto
  { case 1
    then show ?case using Cons.IH(1) assign_taints(1) [OF assms(1-5) _ u] u
      by (auto split: option.splits if_splits sum.splits prod.splits) }
  { case 2
    then show ?case using Cons.IH(2) assign_taints(2) [OF assms(1-5) _ u] u
      by (auto split: option.splits if_splits sum.splits prod.splits) }
qed

lemma place_node_taints:
  assumes "wc_ok nm fv wc (view s)" and "copy_ok nm fv n" and "later_group g (wc_Nag wc)" and "taints_kept g B X (view s)"
    and "GetAssignment g n = None" and "node_Name n \<notin> X" and "place_node K wc n s = (r, wc', s')"
  shows "taints_kept g B (insert (node_Name n) X) (view s')"
proof -
  obtain ra wc1 s1 where a: "assignNode K wc n s = (ra, wc1, s1)" by (cases "assignNode K wc n s") auto
  note loop = assignNode_loop_taints [OF assms(2-6) subset_refl a [unfolded assignNode_def]]
  have 1: "wc_Nag wc1 = wc_Nag wc" using a assignNode_loop_Nag by (simp add: assignNode_def)
  show ?thesis
  proof (cases "\<exists>df err. ra = Inr (False, err) \<and> nag_Default (wc_Nag wc1) = Some df")
    case False
    then show ?thesis using assms(7) a loop(1) by (auto simp: place_node_def split: sum.splits bool.splits if_splits option.splits)
  next
    case True
    then obtain df err where df: "ra = Inr (False, err)" "nag_Default (wc_Nag wc1) = Some df" by blast
    obtain ru wc2 s2 where u: "UpdateNodeAssignment K wc1 n (Some df) s1 = (ru, wc2, s2)"
      by (cases "UpdateNodeAssignment K wc1 n (Some df) s1") auto
    have "taints_kept g B (insert (node_Name n) X) (view s2)"
      by (rule assign_taints(1) [OF assms(2) _ loop(2) [OF df(1)] assms(5,6) _ u]) (use assms(3) 1 df(2) in simp_all)
    then show ?thesis using assms(7) a df u loop(1)
      by (auto simp: place_node_def split: sum.splits bool.splits if_splits)
  qed
qed

lemma reconcileNode_taints:
  assumes "wc_ok nm fv wc (view s)" and "copy_ok nm fv n" and "later_group g (wc_Nag wc)" and "taints_kept g B X (view s)"
    and "node_Name n \<notin> X" and "reconcileNode K wc n s = (r, n', wc', s')"
  shows "taints_kept g B (insert (node_Name n) X) (view s')"
proof (cases "GetAssignment (wc_Nag wc) n")
  case None
  then have p: "place_node K wc n s = (r, wc', s')" using assms(6) by (auto simp: reconcileNode_def split: prod.splits)
  have "GetAssignment g n = None" using None GetAssignment_later [OF assms(3)] by simp
  from place_node_taints [OF assms(1-4) this assms(5) p] show ?thesis .
next
  case (Some ca)
  show ?thesis
  proof (cases "must_unassign wc ca")
    case False
    then show ?thesis using assms(6) Some taints_kept_mono [OF assms(4) subset_insertI] by (simp add: reconcileNode_def)
  next
    case True
    obtain n1 wc1 where m: "unassign_in_memory K wc n ca = (n1, wc1)" by (rule prod.exhaust)
    then have p: "place_node K wc1 n1 s = (r, wc', s')" using assms(6) Some True by (auto simp: reconcileNode_def split: prod.splits)
    have n1: "n1 = snd (Unassign (k_match K) (wc_Nag wc) n)" using m by (simp add: unassign_in_memory_def)
    have nm: "nag_Name (wc_Nag wc) = nm" using assms(1) by (simp add: wc_ok_def)
    have c: "copy_ok nm fv n1" "node_Name n1 = node_Name n" "GetAssignment g n1 = None"
      using assms(2) n1 nm Unassign_removes_group [OF match_law, of "wc_Nag wc" n] GetAssignment_later [OF assms(3)]
      by (simp_all add: match_law)
    have w: "wc_ok nm fv wc1 (view s)" "later_group g (wc_Nag wc1)"
      using m assms(1,3) by (auto simp: unassign_in_memory_def release_change_def wc_ok_def)
    show ?thesis using place_node_taints [OF w(1) c(1) w(2) assms(4) c(3) _ p] assms(5) c(2) by simp
  qed
qed

lemma reconcile_loop_taints:
  assumes "wc_ok nm fv wc (view s)" and "\<forall>n \<in> set ns. copy_ok nm fv n" and "later_group g (wc_Nag wc)"
    and "taints_kept g B X (view s)" and "fresh_for X ns" and "reconcile_loop K wc ns s = (r, ns', wc', s')"
  shows "\<exists>Y. taints_kept g B Y (view s')"
  using assms
proof (induction ns arbitrary: wc s X r ns' wc' s')
  case Nil
  then show ?case by auto
next
  case (Cons n ns)
  obtain r1 n1 wc1 s1 where n1: "reconcileNode K wc n s = (r1, n1, wc1, s1)"
    by (cases "reconcileNode K wc n s") auto
  have c: "copy_ok nm fv n" "\<forall>n \<in> set ns. copy_ok nm fv n" "node_Name n \<notin> X" using Cons.prems(2,5) by auto
  have ok: "wc_ok nm fv wc1 (view s1)" using reconcileNode_ok [OF Cons.prems(1) c(1) n1] by blast
  have k: "taints_kept g B (insert (node_Name n) X) (view s1)"
    by (rule reconcileNode_taints [OF Cons.prems(1) c(1) Cons.prems(3,4) c(3) n1])
  have l: "later_group g (wc_Nag wc1)" using later_trans [OF Cons.prems(3) reconcileNode_later [OF n1]] .
  have f: "fresh_for (insert (node_Name n) X) ns" using Cons.prems(5) by (auto simp: fresh_for_def names_def)
  show ?case
    using Cons.IH [OF ok c(2) l k f] Cons.prems(6) n1 k by (auto split: sum.splits option.splits prod.splits)
qed

lemma cleanup_loop_taints:
  assumes "wc_ok nm fv wc (view s)" and "later_group g (wc_Nag wc)" and "taints_kept g B X (view s)"
    and "cleanup_loop K wc nms s = (r, wc', s')"
  shows "\<exists>Y. taints_kept g B Y (view s')"
  using assms
proof (induction nms arbitrary: wc s X)
  case Nil
  then show ?case by auto
next
  case (Cons m nms)
  obtain q s2 where q: "k_nodesGet K m s = (q, s2)" by force
  then have s2: "s2 = s" using get_ok get_err by (cases q) blast+
  show ?case
  proof (cases q)
    case (Inl e)
    then have "UnassignNodeByName K wc m s = (Inr (Some e), wc, s)" using q s2 by (simp add: UnassignNodeByName_def)
    then show ?thesis using Cons by auto
  next
    case (Inr n)
    then have n: "n \<in> set (view s)" using q get_ok by (metis find_Some_iff nth_mem)
    then have c: "copy_ok nm fv n" using Cons.prems(1) frame_ok_copies by (auto simp: wc_ok_def)
    obtain ru wc2 s3 where u: "UpdateNodeAssignment K wc n None s = (ru, wc2, s3)"
      by (cases "UpdateNodeAssignment K wc n None s") auto
    have ok: "wc_ok nm fv wc2 (view s3)" by (rule update_ok [OF Cons.prems(1) c u])
    have k: "taints_kept g B (insert (node_Name n) X) (view s3)"
      using unassign_taints(1) [OF Cons.prems(1) c Cons.prems(2,3) _ u] n by blast
    have l: "later_group g (wc_Nag wc2)" using UpdateNodeAssignment_Nag [OF u] Cons.prems(2) by simp
    obtain r2 where "UnassignNodeByName K wc m s = (r2, wc2, s3)"
      using u q s2 Inr by (cases ru) (auto simp: UnassignNodeByName_def split: prod.splits)
    then show ?thesis using Cons.IH [OF ok l k] Cons.prems(4) k by (cases r2) auto
  qed
qed

lemma unassignAll_loop_taints:
  assumes "wc_ok nm fv wc (view s)" and "set ns \<subseteq> set (view s)" and "distinct (names ns)" and "later_group g (wc_Nag wc)"
    and "taints_kept g B X (view s)" and "unassignAll_loop K wc ns s = (r, wc', s')"
  shows "\<exists>Y. taints_kept g B Y (view s')"
  using assms
proof (induction ns arbitrary: wc s X)
  case Nil
  then show ?case by auto
next
  case (Cons n ns)
  have c: "copy_ok nm fv n" using Cons.prems(1,2) frame_ok_copies by (auto simp: wc_ok_def)
  obtain ru wc2 s2 where u: "UpdateNodeAssignment K wc n None s = (ru, wc2, s2)"
    by (cases "UpdateNodeAssignment K wc n None s") auto
  note un = unassign_taints [OF Cons.prems(1) c Cons.prems(4,5) _ u]
  have ok: "wc_ok nm fv wc2 (view s2)" by (rule update_ok [OF Cons.prems(1) c u])
  have k: "taints_kept g B (insert (node_Name n) X) (view s2)" using un(1) Cons.prems(2) by auto
  have "node_Name m \<noteq> node_Name n" if "m \<in> set ns" for m using Cons.prems(3) that by (auto simp: names_def image_iff)
  then have sub: "set ns \<subseteq> set (view s2)" using un(2) Cons.prems(2) by auto
  have l: "later_group g (wc_Nag wc2)" using UpdateNodeAssignment_Nag [OF u] Cons.prems(4) by simp
  have d: "distinct (names ns)" using Cons.prems(3) by (simp add: names_def)
  show ?case using Cons.IH [OF ok sub d l k] Cons.prems(6) u k by (cases ru) auto
qed

section \<open>A reconciliation\<close>

lemma NewWriterContext_taints:
  assumes "frame_ok (nag_Name g) fv (view s)" and "NewWriterContext K g s = (r, wc, s')"
  shows "\<exists>Y. taints_kept g (view s) Y (view s') \<and> fresh_for Y (wc_TargetedNodes wc)"
proof -
  let ?wc0 = "updateKnownAssignments (empty_writerContext g)"
  have ok0: "wc_ok (nag_Name g) fv ?wc0 (view s)" and g0: "wc_Nag ?wc0 = g" "wc_TargetedNodes ?wc0 = []"
    using assms(1) by (simp_all add: wc_ok_def empty_writerContext_def updateKnownAssignments_def)
  have d: "distinct (names (view s))" using assms(1) by (simp add: frame_ok_def)
  have "b = c" if "b \<in> set (view s)" "c \<in> set (view s)" "node_Name c = node_Name b" for b c
    using that d by (metis find_Some_iff_names option.inject)
  then have k0: "taints_kept g (view s) {} (view s)" by (fastforce simp: taints_kept_def)
  obtain r1 wc1 s2 where u: "updateNodeSets K ?wc0 s = (r1, wc1, s2)" by (cases "updateNodeSets K ?wc0 s") auto
  have "\<exists>Y. taints_kept g (view s) Y (view s2) \<and> fresh_for Y (wc_TargetedNodes wc1)"
  proof (cases "k_nodesList K s")
    case (Pair l s1)
    show ?thesis
    proof (cases l)
      case (Inl e)
      then show ?thesis using u Pair list_err [of s e s1] k0 g0(2) by (auto simp: updateNodeSets_def fresh_for_def names_def)
    next
      case (Inr ns)
      with Pair list_ok have l: "k_nodesList K s = (Inr (view s), s)" by auto
      have c: "\<forall>n \<in> set (view s). copy_ok (nag_Name g) fv n" using frame_ok_copies [OF assms(1)] by blast
      have "nodeSets_loop K ?wc0 (view s) s = (r1, wc1, s2)" using u l by (simp add: updateNodeSets_def)
      from nodeSets_loop_taints [OF ok0 c g0(1) k0 _ this] show ?thesis using g0(2) d by (simp add: fresh_for_def)
    qed
  qed
  then show ?thesis
    using assms(2) u
    by (auto simp: NewWriterContext_def Update_def updateAssignmentChanges_def updateCurrentAssignments_def split: sum.splits)
qed

lemma Reconcile_taints:
  assumes "wc_ok nm fv wc (view s)" and "wc_Nag wc = g" and "taints_kept g B X (view s)"
    and "fresh_for X (wc_TargetedNodes wc)" and "Reconcile K wc s = (r, wc', s')"
  shows "\<exists>Y. taints_kept g B Y (view s')"
proof -
  obtain r1 ns wc1 s1 where l: "reconcile_loop K wc (wc_TargetedNodes wc) s = (r1, ns, wc1, s1)"
    by (cases "reconcile_loop K wc (wc_TargetedNodes wc) s") auto
  have c: "\<forall>n \<in> set (wc_TargetedNodes wc). copy_ok nm fv n" using assms(1) unfolding wc_ok_def by blast
  have later: "later_group g (wc_Nag wc)" by (simp add: assms(2))
  obtain Y where Y: "taints_kept g B Y (view s1)"
    using reconcile_loop_taints [OF assms(1) c later assms(3,4) l] by blast
  have ok: "wc_ok nm fv (wc1\<lparr>wc_TargetedNodes := ns\<rparr>) (view s1)"
    using reconcile_loop_ok [OF assms(1) c l] by (simp add: wc_ok_def)
  have "later_group g (wc_Nag (wc1\<lparr>wc_TargetedNodes := ns\<rparr>))" using reconcile_loop_later [OF l] assms(2) by simp
  note clean = cleanup_loop_taints [OF ok this Y]
  show ?thesis using assms(5) l Y clean by (auto simp: Reconcile_def split: sum.splits option.splits)
qed

lemma UnassignAllNodes_taints:
  assumes "wc_ok nm fv wc (view s)" and "wc_Nag wc = g" and "taints_kept g B X (view s)"
    and "UnassignAllNodes K wc s = (r, wc', s')"
  shows "\<exists>Y. taints_kept g B Y (view s')"
proof (cases "k_nodesList K s")
  case (Pair l s1)
  show ?thesis
  proof (cases l)
    case (Inl e)
    then show ?thesis using assms Pair list_err [of s e s1] by (auto simp: UnassignAllNodes_def)
  next
    case (Inr ns)
    with Pair list_ok have l: "k_nodesList K s = (Inr (view s), s)" by auto
    have "unassignAll_loop K wc (view s) s = (r, wc', s')" using assms(4) l by (simp add: UnassignAllNodes_def)
    from unassignAll_loop_taints [OF assms(1) subset_refl _ _ assms(3) this] show ?thesis
      using assms(1,2) by (simp add: wc_ok_def frame_ok_def)
  qed
qed

lemma ReconcileNag_taints:
  assumes "distinct (names (view s))" and "wf_labels (view s)" and "ReconcileNag K g s = (r, g', s')"
  shows "\<exists>Y. taints_kept g (view s) Y (view s')"
proof -
  let ?fv = "fview (nag_Name g) (view s)"
  have f: "frame_ok (nag_Name g) ?fv (view s)" using assms(1,2) by (simp add: frame_ok_def)
  obtain r1 wc s1 where new: "NewWriterContext K g s = (r1, wc, s1)" by (cases "NewWriterContext K g s") auto
  have w: "wc_Nag wc = g" "wc_ok (nag_Name g) ?fv wc (view s1)"
    by (rule NewWriterContext_Nag [OF new], rule NewWriterContext_ok [OF f new])
  obtain X where X: "taints_kept g (view s) X (view s1)" "fresh_for X (wc_TargetedNodes wc)"
    using NewWriterContext_taints [OF f new] by blast
  obtain ra s2 where a: "AddFinalizer K g s1 = (ra, s2)" by (rule prod.exhaust)
  then have v2: "view s2 = view s1" using finalizers_view(1) by (metis snd_conv)
  obtain rr wc3 s3 where rec: "Reconcile K wc s2 = (rr, wc3, s3)" by (cases "Reconcile K wc s2") auto
  have k3: "\<exists>Y. taints_kept g (view s) Y (view s3)"
    using Reconcile_taints [OF _ w(1) _ X(2) rec] w(2) X(1) v2 by simp
  obtain ru wc4 s4 where u: "UnassignAllNodes K wc s1 = (ru, wc4, s4)" by (cases "UnassignAllNodes K wc s1") auto
  have k4: "\<exists>Y. taints_kept g (view s) Y (view s4)" by (rule UnassignAllNodes_taints [OF w(2,1) X(1) u])
  obtain rf s5 where rf: "RemoveFinalizer K (wc_Nag wc4) s4 = (rf, s5)" by force
  then have v5: "view s5 = view s4" using finalizers_view(2) by (metis snd_conv)
  show ?thesis
    using assms(3) new a rec u rf k3 k4 v2 v5 X(1) w(1)
    by (auto simp: ReconcileNag_def split: sum.splits if_splits prod.splits option.splits)
qed

end

section \<open>The property\<close>

text \<open>C35: a stale taint. Whatever the server answers, a node that after a reconciliation has a label of the group,
  and one that is not of an assignment with a taint, has exactly the taints it had before. So a node that carried the
  taint of its old assignment and was reassigned to a \<^verbatim>\<open>LabelOnly\<close> one keeps the old taint beside the new label: the
  patch is computed from the copy that was unassigned in memory, and does not mention the taint.\<close>

theorem untainted_assignment_keeps_taints:
  assumes "cluster_api K view nagview" and "distinct (names (view s))" and "wf_labels (view s)"
    and "ReconcileNag K g s = (r, g', s')"
    and "n \<in> set (view s)" and "n' \<in> set (view s')" and "node_Name n' = node_Name n"
    and "GetAssignment g n' = Some a" and "a \<notin> tainted_names g"
  shows "n_Taints n' = n_Taints n"
proof -
  obtain Y where "taints_kept g (view s) Y (view s')"
    using cluster_api.ReconcileNag_taints [OF assms(1-4)] by blast
  moreover have "\<not> tainted_label g n'" using assms(8,9) by (auto simp: tainted_label_def)
  ultimately show ?thesis using assms(5-7) unfolding taints_kept_def by blast
qed

section \<open>Witness\<close>

text \<open>A node on an assignment that is gone, with its taint.\<close>

definition old_taint :: taint where
  "old_taint = \<lparr>taint_Key = assign_key ''io'', taint_Value = ''old'', taint_Effect = TaintEffectNoSchedule\<rparr>"

definition stale_mem :: mem where
  "stale_mem = \<lparr>mem_nodes = [demo_node ''n1'' [(assign_key ''io'', ''old'')] [old_taint]], mem_nags = [demo_live]\<rparr>"

theorem untainted_assignment_keeps_taints_witness:
  "\<exists>n'. mem_nodes (snd (snd (ReconcileNag mem_kube demo_live stale_mem))) = [n'] \<and>
     GetAssignment demo_live n' = Some ''fast'' \<and> n_Taints n' = [old_taint]"
proof -
  let ?n = "demo_node ''n1'' [(assign_key ''io'', ''old'')] [old_taint]"
  obtain r g s' where r: "ReconcileNag mem_kube demo_live stale_mem = (r, g, s')" by (metis prod.exhaust)
  have w: "distinct (names (mem_nodes stale_mem))" "wf_labels (mem_nodes stale_mem)" "?n \<in> set (mem_nodes stale_mem)"
    by (simp_all add: stale_mem_def wf_labels_def wf_map_def names_def demo_defs)
  have "map (\<lambda>n. (node_Name n, GetAssignment demo_live n))
      (mem_nodes (snd (snd (ReconcileNag mem_kube demo_live stale_mem)))) = [(''n1'', Some ''fast'')]"
    by code_simp
  then obtain n' where n': "mem_nodes s' = [n']" "node_Name n' = ''n1''" "GetAssignment demo_live n' = Some ''fast''"
    by (auto simp: r)
  have "''fast'' \<notin> tainted_names demo_live" by code_simp
  moreover have "node_Name n' = node_Name ?n" using n'(2) by (simp add: demo_defs)
  moreover have "n' \<in> set (mem_nodes s')" by (simp only: n'(1) list.set insertI1)
  ultimately have "n_Taints n' = n_Taints ?n"
    by (intro untainted_assignment_keeps_taints [OF mem_cluster.cluster_api_axioms w(1,2) r w(3) _ _ n'(3)])
  then show ?thesis using n' r by (simp add: demo_node_def)
qed

end
