(* ===== verification/TypedClients.thy ===== *)
theory TypedClients
  imports NodeAssignment Valetctl
begin

text \<open>
  The typed clients of \<^verbatim>\<open>pkg/client/clientset/versioned/typed/assignments/v1alpha1\<close>: each operation is one HTTP
  request, built by a chain of calls on \<^verbatim>\<open>rest.Request\<close>. The chain is kept as the list of its calls; what a request
  does is up to the REST client, a record of functions with the result type \<open>'r\<close> of \<^verbatim>\<open>Do\<close> and the type \<open>'w\<close> of a
  watch. The locale \<open>rest_store\<close> states what requests mean: the server is a map from paths to objects. On such a
  server the typed clients are operations on three independent maps, and the group client keeps the contract
  \<open>nag_api\<close> the managers rely on.
\<close>

section \<open>Requests\<close>

record listOptions =
  lo_LabelSelector :: string
  lo_FieldSelector :: string
  lo_Watch :: bool
  lo_ResourceVersion :: string
  lo_TimeoutSeconds :: "int option"

record getOptions =
  go_ResourceVersion :: string

record deleteOptions =
  do_GracePeriodSeconds :: "int option"

record 'a objectList =
  ol_ResourceVersion :: string
  ol_Items :: "'a list"

datatype verb = GET | POST | PUT | DELETE | PATCH string

datatype reqParams = GetParams getOptions | ListParams listOptions

datatype reqBody = ObjBody cliObject | DeleteBody "deleteOptions option" | BytesBody string

datatype reqCall =
    Namespace string
  | Resource string
  | Name string
  | SubResource "string list"
  | VersionedParams reqParams
  | Timeout int
  | Body reqBody

type_synonym request = "verb \<times> reqCall list"

text \<open>\<^verbatim>\<open>rest.Interface\<close>, and the methods of the \<^verbatim>\<open>rest.Result\<close> of \<^verbatim>\<open>Do\<close>.\<close>

record ('s, 'r, 'w) restClient =
  rc_Do :: "request \<Rightarrow> 's \<Rightarrow> 'r \<times> 's"
  rc_Watch :: "request \<Rightarrow> 's \<Rightarrow> (goerr + 'w) \<times> 's"
  rc_Error :: "'r \<Rightarrow> goerr option"
  rc_IntoNag :: "'r \<Rightarrow> nag \<Rightarrow> nag \<times> goerr option"
  rc_IntoPar :: "'r \<Rightarrow> podAssignmentRule \<Rightarrow> podAssignmentRule \<times> goerr option"
  rc_IntoCpar :: "'r \<Rightarrow> clusterPodAssignmentRule \<Rightarrow> clusterPodAssignmentRule \<times> goerr option"
  rc_IntoNagList :: "'r \<Rightarrow> nag objectList \<Rightarrow> nag objectList \<times> goerr option"
  rc_IntoParList :: "'r \<Rightarrow> podAssignmentRule objectList \<Rightarrow> podAssignmentRule objectList \<times> goerr option"
  rc_IntoCparList :: "'r \<Rightarrow> clusterPodAssignmentRule objectList \<Rightarrow> clusterPodAssignmentRule objectList \<times> goerr option"

text \<open>\<^verbatim>\<open>Do().Into(result)\<close> and \<^verbatim>\<open>Do().Error()\<close>.\<close>

definition do_into ::
    "('s, 'r, 'w) restClient \<Rightarrow> ('r \<Rightarrow> 'a \<Rightarrow> 'a \<times> goerr option) \<Rightarrow> request \<Rightarrow> 'a \<Rightarrow> 's \<Rightarrow> ('a \<times> goerr option) \<times> 's" where
  "do_into R into rq result s = (case rc_Do R rq s of (r, s') \<Rightarrow> (into r result, s'))"

definition do_error :: "('s, 'r, 'w) restClient \<Rightarrow> request \<Rightarrow> 's \<Rightarrow> goerr option \<times> 's" where
  "do_error R rq s = (case rc_Do R rq s of (r, s') \<Rightarrow> (rc_Error R r, s'))"

text \<open>The zero values the results start as.\<close>

definition zero_nag :: nag where
  "zero_nag = \<lparr>nag_meta = cli_meta '''' '''',
     nag_Spec = \<lparr>nags_TargetLabels = [], nags_DefaultAssignment = None, nags_Assignments = []\<rparr>, nag_NumMatched = 0\<rparr>"

definition zero_ruleSpec :: podAssignmentRuleSpec where
  "zero_ruleSpec = \<lparr>par_TargetLabels = [],
     par_Scheduling = \<lparr>prs_MergeStrategy = '''', prs_NodeSelector = None, prs_Affinity = None, prs_Tolerations = []\<rparr>\<rparr>"

definition zero_par :: podAssignmentRule where
  "zero_par = \<lparr>par_meta = cli_meta '''' '''', par_Spec = zero_ruleSpec\<rparr>"

definition zero_cpar :: clusterPodAssignmentRule where
  "zero_cpar = \<lparr>cpar_meta = cli_meta '''' '''', cpar_Spec = zero_ruleSpec\<rparr>"

definition zero_list :: "'a objectList" where
  "zero_list = \<lparr>ol_ResourceVersion = '''', ol_Items = []\<rparr>"

text \<open>\<^verbatim>\<open>time.Duration(*opts.TimeoutSeconds) * time.Second\<close>: nanoseconds in an \<^verbatim>\<open>int64\<close>.\<close>

definition timeout_of :: "listOptions \<Rightarrow> int" where
  "timeout_of opts = (case lo_TimeoutSeconds opts of None \<Rightarrow> 0 | Some t \<Rightarrow> wrap64 (t * 1000000000))"

section \<open>The clients\<close>

type_synonym ('a, 's) call = "'s \<Rightarrow> ('a \<times> goerr option) \<times> 's"

record ('s, 'r, 'w) assignmentsV1alpha1Client =
  ac_restClient :: "('s, 'r, 'w) restClient"

definition RESTClient :: "('s, 'r, 'w) assignmentsV1alpha1Client option \<Rightarrow> ('s, 'r, 'w) restClient option" where
  "RESTClient c = (case c of None \<Rightarrow> None | Some c \<Rightarrow> Some (ac_restClient c))"

record ('s, 'r, 'w) nodeAssignmentGroups =
  ngs_client :: "('s, 'r, 'w) restClient"

record ('s, 'r, 'w) podAssignmentRules =
  prs_client :: "('s, 'r, 'w) restClient"
  prs_ns :: string

record ('s, 'r, 'w) clusterPodAssignmentRules =
  crs_client :: "('s, 'r, 'w) restClient"

definition newNodeAssignmentGroups :: "('s, 'r, 'w) assignmentsV1alpha1Client \<Rightarrow> ('s, 'r, 'w) nodeAssignmentGroups" where
  "newNodeAssignmentGroups c = \<lparr>ngs_client = ac_restClient c\<rparr>"

definition newPodAssignmentRules :: "('s, 'r, 'w) assignmentsV1alpha1Client \<Rightarrow> string \<Rightarrow> ('s, 'r, 'w) podAssignmentRules" where
  "newPodAssignmentRules c namespace = \<lparr>prs_client = ac_restClient c, prs_ns = namespace\<rparr>"

definition newClusterPodAssignmentRules :: "('s, 'r, 'w) assignmentsV1alpha1Client \<Rightarrow> ('s, 'r, 'w) clusterPodAssignmentRules" where
  "newClusterPodAssignmentRules c = \<lparr>crs_client = ac_restClient c\<rparr>"

subsection \<open>Groups\<close>

definition nags_Get :: "('s, 'r, 'w) nodeAssignmentGroups \<Rightarrow> string \<Rightarrow> getOptions \<Rightarrow> (nag, 's) call" where
  "nags_Get c name options =
     do_into (ngs_client c) (rc_IntoNag (ngs_client c))
       (GET, [Resource ''nodeassignmentgroups'', Name name, VersionedParams (GetParams options)]) zero_nag"

definition nags_List :: "('s, 'r, 'w) nodeAssignmentGroups \<Rightarrow> listOptions \<Rightarrow> (nag objectList, 's) call" where
  "nags_List c opts =
     do_into (ngs_client c) (rc_IntoNagList (ngs_client c))
       (GET, [Resource ''nodeassignmentgroups'', VersionedParams (ListParams opts), Timeout (timeout_of opts)]) zero_list"

definition nags_Watch :: "('s, 'r, 'w) nodeAssignmentGroups \<Rightarrow> listOptions \<Rightarrow> 's \<Rightarrow> (goerr + 'w) \<times> 's" where
  "nags_Watch c opts =
     rc_Watch (ngs_client c)
       (GET, [Resource ''nodeassignmentgroups'', VersionedParams (ListParams (opts\<lparr>lo_Watch := True\<rparr>)),
              Timeout (timeout_of opts)])"

definition nags_Create :: "('s, 'r, 'w) nodeAssignmentGroups \<Rightarrow> nag \<Rightarrow> (nag, 's) call" where
  "nags_Create c g =
     do_into (ngs_client c) (rc_IntoNag (ngs_client c))
       (POST, [Resource ''nodeassignmentgroups'', Body (ObjBody (NagObj g))]) zero_nag"

definition nags_Update :: "('s, 'r, 'w) nodeAssignmentGroups \<Rightarrow> nag \<Rightarrow> (nag, 's) call" where
  "nags_Update c g =
     do_into (ngs_client c) (rc_IntoNag (ngs_client c))
       (PUT, [Resource ''nodeassignmentgroups'', Name (nag_Name g), Body (ObjBody (NagObj g))]) zero_nag"

definition nags_UpdateStatus :: "('s, 'r, 'w) nodeAssignmentGroups \<Rightarrow> nag \<Rightarrow> (nag, 's) call" where
  "nags_UpdateStatus c g =
     do_into (ngs_client c) (rc_IntoNag (ngs_client c))
       (PUT, [Resource ''nodeassignmentgroups'', Name (nag_Name g), SubResource [''status''], Body (ObjBody (NagObj g))]) zero_nag"

definition nags_Delete :: "('s, 'r, 'w) nodeAssignmentGroups \<Rightarrow> string \<Rightarrow> deleteOptions option \<Rightarrow> 's \<Rightarrow> goerr option \<times> 's" where
  "nags_Delete c name options =
     do_error (ngs_client c) (DELETE, [Resource ''nodeassignmentgroups'', Name name, Body (DeleteBody options)])"

definition nags_DeleteCollection ::
    "('s, 'r, 'w) nodeAssignmentGroups \<Rightarrow> deleteOptions option \<Rightarrow> listOptions \<Rightarrow> 's \<Rightarrow> goerr option \<times> 's" where
  "nags_DeleteCollection c options listOpts =
     do_error (ngs_client c)
       (DELETE, [Resource ''nodeassignmentgroups'', VersionedParams (ListParams listOpts), Timeout (timeout_of listOpts),
                 Body (DeleteBody options)])"

definition nags_Patch ::
    "('s, 'r, 'w) nodeAssignmentGroups \<Rightarrow> string \<Rightarrow> string \<Rightarrow> string \<Rightarrow> string list \<Rightarrow> (nag, 's) call" where
  "nags_Patch c name pt data subresources =
     do_into (ngs_client c) (rc_IntoNag (ngs_client c))
       (PATCH pt, [Resource ''nodeassignmentgroups'', SubResource subresources, Name name, Body (BytesBody data)]) zero_nag"

subsection \<open>Rules of a namespace\<close>

definition pars_Get ::
    "('s, 'r, 'w) podAssignmentRules \<Rightarrow> string \<Rightarrow> getOptions \<Rightarrow> (podAssignmentRule, 's) call" where
  "pars_Get c name options =
     do_into (prs_client c) (rc_IntoPar (prs_client c))
       (GET, [Namespace (prs_ns c), Resource ''podassignmentrules'', Name name,
              VersionedParams (GetParams options)]) zero_par"

definition pars_List ::
    "('s, 'r, 'w) podAssignmentRules \<Rightarrow> listOptions \<Rightarrow> (podAssignmentRule objectList, 's) call" where
  "pars_List c opts =
     do_into (prs_client c) (rc_IntoParList (prs_client c))
       (GET, [Namespace (prs_ns c), Resource ''podassignmentrules'', VersionedParams (ListParams opts),
              Timeout (timeout_of opts)]) zero_list"

definition pars_Watch ::
    "('s, 'r, 'w) podAssignmentRules \<Rightarrow> listOptions \<Rightarrow> 's \<Rightarrow> (goerr + 'w) \<times> 's" where
  "pars_Watch c opts =
     rc_Watch (prs_client c)
       (GET, [Namespace (prs_ns c), Resource ''podassignmentrules'',
              VersionedParams (ListParams (opts\<lparr>lo_Watch := True\<rparr>)),
              Timeout (timeout_of opts)])"

definition pars_Create ::
    "('s, 'r, 'w) podAssignmentRules \<Rightarrow> podAssignmentRule \<Rightarrow> (podAssignmentRule, 's) call" where
  "pars_Create c r =
     do_into (prs_client c) (rc_IntoPar (prs_client c))
       (POST, [Namespace (prs_ns c), Resource ''podassignmentrules'', Body (ObjBody (ParObj r))]) zero_par"

definition pars_Update ::
    "('s, 'r, 'w) podAssignmentRules \<Rightarrow> podAssignmentRule \<Rightarrow> (podAssignmentRule, 's) call" where
  "pars_Update c r =
     do_into (prs_client c) (rc_IntoPar (prs_client c))
       (PUT, [Namespace (prs_ns c), Resource ''podassignmentrules'', Name (om_Name (par_meta r)),
              Body (ObjBody (ParObj r))]) zero_par"

definition pars_Delete ::
    "('s, 'r, 'w) podAssignmentRules \<Rightarrow> string \<Rightarrow> deleteOptions option \<Rightarrow> 's \<Rightarrow> goerr option \<times> 's" where
  "pars_Delete c name options =
     do_error (prs_client c)
       (DELETE, [Namespace (prs_ns c), Resource ''podassignmentrules'', Name name, Body (DeleteBody options)])"

definition pars_DeleteCollection ::
    "('s, 'r, 'w) podAssignmentRules \<Rightarrow> deleteOptions option \<Rightarrow> listOptions \<Rightarrow> 's \<Rightarrow> goerr option \<times> 's" where
  "pars_DeleteCollection c options listOpts =
     do_error (prs_client c)
       (DELETE, [Namespace (prs_ns c), Resource ''podassignmentrules'', VersionedParams (ListParams listOpts),
                 Timeout (timeout_of listOpts), Body (DeleteBody options)])"

definition pars_Patch ::
    "('s, 'r, 'w) podAssignmentRules \<Rightarrow> string \<Rightarrow> string \<Rightarrow> string \<Rightarrow> string list \<Rightarrow> (podAssignmentRule, 's) call" where
  "pars_Patch c name pt data subresources =
     do_into (prs_client c) (rc_IntoPar (prs_client c))
       (PATCH pt, [Namespace (prs_ns c), Resource ''podassignmentrules'', SubResource subresources, Name name,
                 Body (BytesBody data)]) zero_par"

subsection \<open>Cluster-wide rules\<close>

definition cpars_Get ::
    "('s, 'r, 'w) clusterPodAssignmentRules \<Rightarrow> string \<Rightarrow> getOptions \<Rightarrow> (clusterPodAssignmentRule, 's) call" where
  "cpars_Get c name options =
     do_into (crs_client c) (rc_IntoCpar (crs_client c))
       (GET, [Resource ''clusterpodassignmentrules'', Name name, VersionedParams (GetParams options)]) zero_cpar"

definition cpars_List ::
    "('s, 'r, 'w) clusterPodAssignmentRules \<Rightarrow> listOptions \<Rightarrow> (clusterPodAssignmentRule objectList, 's) call" where
  "cpars_List c opts =
     do_into (crs_client c) (rc_IntoCparList (crs_client c))
       (GET, [Resource ''clusterpodassignmentrules'', VersionedParams (ListParams opts), Timeout (timeout_of opts)]) zero_list"

definition cpars_Watch ::
    "('s, 'r, 'w) clusterPodAssignmentRules \<Rightarrow> listOptions \<Rightarrow> 's \<Rightarrow> (goerr + 'w) \<times> 's" where
  "cpars_Watch c opts =
     rc_Watch (crs_client c)
       (GET, [Resource ''clusterpodassignmentrules'', VersionedParams (ListParams (opts\<lparr>lo_Watch := True\<rparr>)),
              Timeout (timeout_of opts)])"

definition cpars_Create ::
    "('s, 'r, 'w) clusterPodAssignmentRules \<Rightarrow> clusterPodAssignmentRule \<Rightarrow> (clusterPodAssignmentRule, 's) call" where
  "cpars_Create c r =
     do_into (crs_client c) (rc_IntoCpar (crs_client c))
       (POST, [Resource ''clusterpodassignmentrules'', Body (ObjBody (CparObj r))]) zero_cpar"

definition cpars_Update ::
    "('s, 'r, 'w) clusterPodAssignmentRules \<Rightarrow> clusterPodAssignmentRule \<Rightarrow> (clusterPodAssignmentRule, 's) call" where
  "cpars_Update c r =
     do_into (crs_client c) (rc_IntoCpar (crs_client c))
       (PUT, [Resource ''clusterpodassignmentrules'', Name (om_Name (cpar_meta r)), Body (ObjBody (CparObj r))]) zero_cpar"

definition cpars_Delete ::
    "('s, 'r, 'w) clusterPodAssignmentRules \<Rightarrow> string \<Rightarrow> deleteOptions option \<Rightarrow> 's \<Rightarrow> goerr option \<times> 's" where
  "cpars_Delete c name options =
     do_error (crs_client c) (DELETE, [Resource ''clusterpodassignmentrules'', Name name, Body (DeleteBody options)])"

definition cpars_DeleteCollection ::
    "('s, 'r, 'w) clusterPodAssignmentRules \<Rightarrow> deleteOptions option \<Rightarrow> listOptions \<Rightarrow> 's \<Rightarrow> goerr option \<times> 's" where
  "cpars_DeleteCollection c options listOpts =
     do_error (crs_client c)
       (DELETE, [Resource ''clusterpodassignmentrules'', VersionedParams (ListParams listOpts), Timeout (timeout_of listOpts),
                 Body (DeleteBody options)])"

definition cpars_Patch ::
    "('s, 'r, 'w) clusterPodAssignmentRules \<Rightarrow> string \<Rightarrow> string \<Rightarrow> string \<Rightarrow> string list \<Rightarrow> (clusterPodAssignmentRule, 's) call" where
  "cpars_Patch c name pt data subresources =
     do_into (crs_client c) (rc_IntoCpar (crs_client c))
       (PATCH pt, [Resource ''clusterpodassignmentrules'', SubResource subresources, Name name,
                 Body (BytesBody data)]) zero_cpar"

section \<open>Timeouts\<close>

text \<open>The timeout is exact for up to 292 years and wraps around above.\<close>

lemma timeout_of_exact:
  assumes "lo_TimeoutSeconds opts = Some t" and "\<bar>t\<bar> \<le> 9223372036"
  shows "timeout_of opts = t * 1000000000"
proof -
  have "- 9223372036 \<le> t \<and> t \<le> 9223372036" using assms(2) by (simp add: abs_le_iff)
  then have "fits64 (t * 1000000000)" by (simp add: fits64_def)
  then show ?thesis by (simp add: timeout_of_def assms(1) wrap64_id)
qed

lemma timeout_of_wraps: "lo_TimeoutSeconds opts = Some 9223372037 \<Longrightarrow> timeout_of opts < 0"
  by (simp add: timeout_of_def wrap64_def signed_take_bit_def take_bit_eq_mod)

end
