(* ===== verification/RestStore.thy ===== *)
theory RestStore
  imports TypedClients
begin

text \<open>
  What the requests of the typed clients do. The locale \<open>rest_store\<close> is the documented behaviour of a REST client
  and its server, in terms of paths and methods only: objects live under paths, a failed request changes nothing,
  a read changes nothing, and a write changes the path it names. What the Go methods mean, in terms of groups and
  rules, is the specification \<open>api_effect\<close>, which is proved of each of them.
\<close>

section \<open>Paths\<close>

record urlParts =
  up_Namespace :: string
  up_Resource :: string
  up_Name :: string
  up_Sub :: "string list"

fun add_call :: "reqCall \<Rightarrow> urlParts \<Rightarrow> urlParts" where
  "add_call (Namespace n) u = u\<lparr>up_Namespace := n\<rparr>"
| "add_call (Resource r) u = u\<lparr>up_Resource := r\<rparr>"
| "add_call (Name n) u = u\<lparr>up_Name := n\<rparr>"
| "add_call (SubResource ss) u = u\<lparr>up_Sub := ss\<rparr>"
| "add_call _ u = u"

definition url_of :: "reqCall list \<Rightarrow> urlParts" where
  "url_of cs = fold add_call cs \<lparr>up_Namespace = '''', up_Resource = '''', up_Name = '''', up_Sub = []\<rparr>"

text \<open>Namespace, resource and name; the name of a collection is empty.\<close>

type_synonym restPath = "string \<times> string \<times> string"

definition path_of :: "reqCall list \<Rightarrow> restPath" where
  "path_of cs = (up_Namespace (url_of cs), up_Resource (url_of cs), up_Name (url_of cs))"

definition under :: "restPath \<Rightarrow> restPath \<Rightarrow> bool" where
  "under p q \<longleftrightarrow> fst q = fst p \<and> fst (snd q) = fst (snd p) \<and> (snd (snd p) = [] \<or> snd (snd q) = snd (snd p))"

section \<open>Objects\<close>

fun obj_meta :: "cliObject \<Rightarrow> objectMeta" where
  "obj_meta (NagObj g) = nag_meta g"
| "obj_meta (ParObj r) = par_meta r"
| "obj_meta (CparObj r) = cpar_meta r"

fun kind_of :: "cliObject \<Rightarrow> string" where
  "kind_of (NagObj _) = ''nodeassignmentgroups''"
| "kind_of (ParObj _) = ''podassignmentrules''"
| "kind_of (CparObj _) = ''clusterpodassignmentrules''"

fun same_spec :: "cliObject \<Rightarrow> cliObject \<Rightarrow> bool" where
  "same_spec (NagObj g) (NagObj g') = (nag_Spec g = nag_Spec g')"
| "same_spec (ParObj r) (ParObj r') = (par_Spec r = par_Spec r')"
| "same_spec (CparObj r) (CparObj r') = (cpar_Spec r = cpar_Spec r')"
| "same_spec _ _ = False"

text \<open>The server fills in the version, the UID and the namespace of an object it accepts, and keeps the rest.\<close>

definition accepted :: "cliObject \<Rightarrow> cliObject \<Rightarrow> bool" where
  "accepted x y \<longleftrightarrow> same_spec x y \<and> om_Name (obj_meta y) = om_Name (obj_meta x) \<and>
     om_Labels (obj_meta y) = om_Labels (obj_meta x) \<and> om_Finalizers (obj_meta y) = om_Finalizers (obj_meta x)"

text \<open>An object that has finalizers is not removed but marked; one that is marked goes with its last finalizer.\<close>

definition marked_deleted :: "cliObject \<Rightarrow> cliObject \<Rightarrow> bool" where
  "marked_deleted x y \<longleftrightarrow> accepted x y \<and> om_Finalizers (obj_meta x) \<noteq> [] \<and> om_DeletionTimestamp (obj_meta y) \<noteq> None"

definition is_gone :: "cliObject \<Rightarrow> bool" where
  "is_gone y \<longleftrightarrow> om_Finalizers (obj_meta y) = [] \<and> om_DeletionTimestamp (obj_meta y) \<noteq> None"

datatype answer = One cliObject | Many "cliObject list" | Status

definition no_selectors :: "listOptions \<Rightarrow> bool" where
  "no_selectors opts \<longleftrightarrow> lo_LabelSelector opts = [] \<and> lo_FieldSelector opts = []"

section \<open>The specification of the typed clients\<close>

text \<open>The calls that read or write one object, and the deletion of a collection.\<close>

datatype apiCall =
    NagGet string getOptions | NagCreate nag | NagUpdate nag | NagUpdateStatus nag
  | NagDelete string "deleteOptions option" | NagDeleteAll "deleteOptions option" listOptions
  | NagPatch string string string "string list"
  | ParGet string string getOptions | ParCreate string podAssignmentRule | ParUpdate string podAssignmentRule
  | ParDelete string string "deleteOptions option" | ParDeleteAll string "deleteOptions option" listOptions
  | ParPatch string string string string "string list"
  | CparGet string getOptions | CparCreate clusterPodAssignmentRule | CparUpdate clusterPodAssignmentRule
  | CparDelete string "deleteOptions option" | CparDeleteAll "deleteOptions option" listOptions
  | CparPatch string string string "string list"

datatype apiKind = Read | Create cliObject | Replace cliObject | Delete | Touch

fun target_of :: "apiCall \<Rightarrow> restPath" where
  "target_of (NagGet nm _) = ('''', ''nodeassignmentgroups'', nm)"
| "target_of (NagCreate g) = ('''', ''nodeassignmentgroups'', nag_Name g)"
| "target_of (NagUpdate g) = ('''', ''nodeassignmentgroups'', nag_Name g)"
| "target_of (NagUpdateStatus g) = ('''', ''nodeassignmentgroups'', nag_Name g)"
| "target_of (NagDelete nm _) = ('''', ''nodeassignmentgroups'', nm)"
| "target_of (NagDeleteAll _ _) = ('''', ''nodeassignmentgroups'', [])"
| "target_of (NagPatch nm _ _ _) = ('''', ''nodeassignmentgroups'', nm)"
| "target_of (ParGet ns nm _) = (ns, ''podassignmentrules'', nm)"
| "target_of (ParCreate ns r) = (ns, ''podassignmentrules'', om_Name (par_meta r))"
| "target_of (ParUpdate ns r) = (ns, ''podassignmentrules'', om_Name (par_meta r))"
| "target_of (ParDelete ns nm _) = (ns, ''podassignmentrules'', nm)"
| "target_of (ParDeleteAll ns _ _) = (ns, ''podassignmentrules'', [])"
| "target_of (ParPatch ns nm _ _ _) = (ns, ''podassignmentrules'', nm)"
| "target_of (CparGet nm _) = ('''', ''clusterpodassignmentrules'', nm)"
| "target_of (CparCreate r) = ('''', ''clusterpodassignmentrules'', om_Name (cpar_meta r))"
| "target_of (CparUpdate r) = ('''', ''clusterpodassignmentrules'', om_Name (cpar_meta r))"
| "target_of (CparDelete nm _) = ('''', ''clusterpodassignmentrules'', nm)"
| "target_of (CparDeleteAll _ _) = ('''', ''clusterpodassignmentrules'', [])"
| "target_of (CparPatch nm _ _ _) = ('''', ''clusterpodassignmentrules'', nm)"

fun kind_of_call :: "apiCall \<Rightarrow> apiKind" where
  "kind_of_call (NagGet _ _) = Read" | "kind_of_call (ParGet _ _ _) = Read" | "kind_of_call (CparGet _ _) = Read"
| "kind_of_call (NagCreate g) = Create (NagObj g)"
| "kind_of_call (ParCreate _ r) = Create (ParObj r)"
| "kind_of_call (CparCreate r) = Create (CparObj r)"
| "kind_of_call (NagUpdate g) = Replace (NagObj g)"
| "kind_of_call (ParUpdate _ r) = Replace (ParObj r)"
| "kind_of_call (CparUpdate r) = Replace (CparObj r)"
| "kind_of_call (NagDelete _ _) = Delete" | "kind_of_call (ParDelete _ _ _) = Delete"
| "kind_of_call (CparDelete _ _) = Delete"
| "kind_of_call _ = Touch"

text \<open>What a call that returned an error, or else the object \<open>a\<close>, did to the objects.\<close>

definition api_effect ::
    "apiCall \<Rightarrow> (restPath \<Rightarrow> cliObject option) \<Rightarrow> cliObject option \<times> goerr option \<Rightarrow>
     (restPath \<Rightarrow> cliObject option) \<Rightarrow> bool" where
  "api_effect call m ans m' \<longleftrightarrow>
     (let t = target_of call in
      if snd ans \<noteq> None then m' = m
      else (case kind_of_call call of
          Read \<Rightarrow> m' = m \<and> fst ans \<noteq> None \<and> m t = fst ans
        | Create x \<Rightarrow> m t = None \<and> (\<exists>y. fst ans = Some y \<and> accepted x y \<and> m' = m(t \<mapsto> y))
        | Replace x \<Rightarrow> m t \<noteq> None \<and> (\<exists>y. fst ans = Some y \<and> accepted x y \<and>
            (m' = m(t \<mapsto> y) \<or> is_gone y \<and> m' = m(t := None)))
        | Delete \<Rightarrow> m t \<noteq> None \<and> (m' = m(t := None) \<or>
            (\<exists>x y. m t = Some x \<and> marked_deleted x y \<and> m' = m(t \<mapsto> y)))
        | Touch \<Rightarrow> (\<forall>q. m' q \<noteq> m q \<longrightarrow> under t q)))"

text \<open>The Go method behind a call, its answer as an object.\<close>

definition as_answer :: "('a \<Rightarrow> cliObject) \<Rightarrow> ('a \<times> goerr option) \<times> 's \<Rightarrow> (cliObject option \<times> goerr option) \<times> 's" where
  "as_answer f r = (case r of ((x, e), s) \<Rightarrow> ((Some (f x), e), s))"

definition no_answer :: "goerr option \<times> 's \<Rightarrow> (cliObject option \<times> goerr option) \<times> 's" where
  "no_answer r = (case r of (e, s) \<Rightarrow> ((None, e), s))"

fun run_call ::
    "('s, 'r, 'w) assignmentsV1alpha1Client \<Rightarrow> apiCall \<Rightarrow> 's \<Rightarrow> (cliObject option \<times> goerr option) \<times> 's" where
  "run_call c (NagGet nm go) s = as_answer NagObj (nags_Get (newNodeAssignmentGroups c) nm go s)"
| "run_call c (NagCreate g) s = as_answer NagObj (nags_Create (newNodeAssignmentGroups c) g s)"
| "run_call c (NagUpdate g) s = as_answer NagObj (nags_Update (newNodeAssignmentGroups c) g s)"
| "run_call c (NagUpdateStatus g) s = as_answer NagObj (nags_UpdateStatus (newNodeAssignmentGroups c) g s)"
| "run_call c (NagDelete nm do') s = no_answer (nags_Delete (newNodeAssignmentGroups c) nm do' s)"
| "run_call c (NagDeleteAll do' lo) s = no_answer (nags_DeleteCollection (newNodeAssignmentGroups c) do' lo s)"
| "run_call c (NagPatch nm pt d subs) s = as_answer NagObj (nags_Patch (newNodeAssignmentGroups c) nm pt d subs s)"
| "run_call c (ParGet ns nm go) s = as_answer ParObj (pars_Get (newPodAssignmentRules c ns) nm go s)"
| "run_call c (ParCreate ns r) s = as_answer ParObj (pars_Create (newPodAssignmentRules c ns) r s)"
| "run_call c (ParUpdate ns r) s = as_answer ParObj (pars_Update (newPodAssignmentRules c ns) r s)"
| "run_call c (ParDelete ns nm do') s = no_answer (pars_Delete (newPodAssignmentRules c ns) nm do' s)"
| "run_call c (ParDeleteAll ns do' lo) s = no_answer (pars_DeleteCollection (newPodAssignmentRules c ns) do' lo s)"
| "run_call c (ParPatch ns nm pt d subs) s = as_answer ParObj (pars_Patch (newPodAssignmentRules c ns) nm pt d subs s)"
| "run_call c (CparGet nm go) s = as_answer CparObj (cpars_Get (newClusterPodAssignmentRules c) nm go s)"
| "run_call c (CparCreate r) s = as_answer CparObj (cpars_Create (newClusterPodAssignmentRules c) r s)"
| "run_call c (CparUpdate r) s = as_answer CparObj (cpars_Update (newClusterPodAssignmentRules c) r s)"
| "run_call c (CparDelete nm do') s = no_answer (cpars_Delete (newClusterPodAssignmentRules c) nm do' s)"
| "run_call c (CparDeleteAll do' lo) s = no_answer (cpars_DeleteCollection (newClusterPodAssignmentRules c) do' lo s)"
| "run_call c (CparPatch nm pt d subs) s = as_answer CparObj (cpars_Patch (newClusterPodAssignmentRules c) nm pt d subs s)"

fun run_calls ::
    "('s, 'r, 'w) assignmentsV1alpha1Client \<Rightarrow> apiCall list \<Rightarrow> 's \<Rightarrow> (cliObject option \<times> goerr option) list \<times> 's" where
  "run_calls c [] s = ([], s)"
| "run_calls c (call # calls) s =
     (case run_call c call s of (a, s1) \<Rightarrow> (case run_calls c calls s1 of (as, s2) \<Rightarrow> (a # as, s2)))"

text \<open>The three collections, the objects of which a client lists or watches.\<close>

datatype apiColl = NagColl | ParColl string | CparColl

fun in_collection :: "apiColl \<Rightarrow> string \<Rightarrow> restPath" where
  "in_collection NagColl nm = ('''', ''nodeassignmentgroups'', nm)"
| "in_collection (ParColl ns) nm = (ns, ''podassignmentrules'', nm)"
| "in_collection CparColl nm = ('''', ''clusterpodassignmentrules'', nm)"

definition as_list ::
    "('a \<Rightarrow> cliObject) \<Rightarrow> ('a objectList \<times> goerr option) \<times> 's \<Rightarrow> (cliObject list \<times> goerr option) \<times> 's" where
  "as_list f r = (case r of ((l, e), s) \<Rightarrow> ((map f (ol_Items l), e), s))"

fun run_list ::
    "('s, 'r, 'w) assignmentsV1alpha1Client \<Rightarrow> apiColl \<Rightarrow> listOptions \<Rightarrow> 's \<Rightarrow> (cliObject list \<times> goerr option) \<times> 's" where
  "run_list c NagColl opts s = as_list NagObj (nags_List (newNodeAssignmentGroups c) opts s)"
| "run_list c (ParColl ns) opts s = as_list ParObj (pars_List (newPodAssignmentRules c ns) opts s)"
| "run_list c CparColl opts s = as_list CparObj (cpars_List (newClusterPodAssignmentRules c) opts s)"

fun run_watch ::
    "('s, 'r, 'w) assignmentsV1alpha1Client \<Rightarrow> apiColl \<Rightarrow> listOptions \<Rightarrow> 's \<Rightarrow> (goerr + 'w) \<times> 's" where
  "run_watch c NagColl opts s = nags_Watch (newNodeAssignmentGroups c) opts s"
| "run_watch c (ParColl ns) opts s = pars_Watch (newPodAssignmentRules c ns) opts s"
| "run_watch c CparColl opts s = cpars_Watch (newClusterPodAssignmentRules c) opts s"

lemma under_refl [simp]: "under p p"
  by (simp add: under_def)

lemma api_effect_other:
  "api_effect c m ans m' \<Longrightarrow> kind_of_call c = Read \<or> \<not> under (target_of c) p \<Longrightarrow> m' p = m p"
  by (cases p; cases "kind_of_call c") (auto simp: api_effect_def Let_def split: if_splits)

section \<open>The contract of the server\<close>

lemmas new_clients = newNodeAssignmentGroups_def newPodAssignmentRules_def newClusterPodAssignmentRules_def
lemmas nag_methods = nags_Get_def nags_Create_def nags_Update_def nags_UpdateStatus_def nags_Delete_def
  nags_DeleteCollection_def nags_Patch_def
lemmas par_methods = pars_Get_def pars_Create_def pars_Update_def pars_Delete_def pars_DeleteCollection_def pars_Patch_def
lemmas cpar_methods = cpars_Get_def cpars_Create_def cpars_Update_def cpars_Delete_def cpars_DeleteCollection_def
  cpars_Patch_def

text \<open>A watch \<open>w\<close> stands for what it delivers when the objects go from \<open>m\<close> to \<open>m'\<close>: each object that
  changed, with its new value.\<close>

type_synonym 'w deliveries =
  "'w \<Rightarrow> (restPath \<Rightarrow> cliObject option) \<Rightarrow> (restPath \<Rightarrow> cliObject option) \<Rightarrow> (restPath \<times> cliObject option) set"

definition changes_under ::
    "restPath \<Rightarrow> (restPath \<Rightarrow> cliObject option) \<Rightarrow> (restPath \<Rightarrow> cliObject option) \<Rightarrow> (restPath \<times> cliObject option) set" where
  "changes_under p m m' = {(q, m' q) |q. under p q \<and> m' q \<noteq> m q}"

locale rest_store =
  fixes R :: "('s, 'r, 'w) restClient"
    and store :: "'s \<Rightarrow> restPath \<Rightarrow> cliObject option"
    and payload :: "'r \<Rightarrow> goerr + answer"
  assumes kinds: "store s (ns, res, nm) = Some x \<Longrightarrow> kind_of x = res \<and> om_Name (obj_meta x) = nm"
    and failed: "rc_Do R rq s = (r, s') \<Longrightarrow> payload r = Inl e \<Longrightarrow> store s' = store s"
    and no_name: "rc_Do R (v, cs) s = (r, s') \<Longrightarrow> Name [] \<in> set cs \<Longrightarrow> \<exists>e. payload r = Inl e"
    and frame: "rc_Do R (v, cs) s = (r, s') \<Longrightarrow> store s' q \<noteq> store s q \<Longrightarrow> under (path_of cs) q"
    and reads: "rc_Do R (GET, cs) s = (r, s') \<Longrightarrow> s' = s"
    and object: "rc_Do R (v, cs) s = (r, s') \<Longrightarrow> v \<noteq> DELETE \<Longrightarrow> Name nm \<in> set cs \<or> v = POST \<Longrightarrow> payload r = Inr a \<Longrightarrow>
      \<exists>y. a = One y \<and> kind_of y = up_Resource (url_of cs)"
    and get: "rc_Do R (GET, cs) s = (r, s') \<Longrightarrow> up_Sub (url_of cs) = [] \<Longrightarrow> payload r = Inr (One y) \<Longrightarrow>
      store s (path_of cs) = Some y"
    and list: "rc_Do R (GET, cs) s = (r, s') \<Longrightarrow> path_of cs = (ns, res, []) \<Longrightarrow>
      VersionedParams (ListParams opts) \<in> set cs \<Longrightarrow> no_selectors opts \<Longrightarrow> \<not> lo_Watch opts \<Longrightarrow> payload r = Inr a \<Longrightarrow>
      \<exists>ys. a = Many ys \<and> set ys = {y. \<exists>nm. store s (ns, res, nm) = Some y}"
    and post: "rc_Do R (POST, cs) s = (r, s') \<Longrightarrow> path_of cs = (ns, res, []) \<Longrightarrow> Body (ObjBody x) \<in> set cs \<Longrightarrow>
      payload r = Inr (One y) \<Longrightarrow> accepted x y \<and> store s (ns, res, om_Name (obj_meta x)) = None \<and>
      store s' = (store s)((ns, res, om_Name (obj_meta x)) \<mapsto> y)"
    and put: "rc_Do R (PUT, cs) s = (r, s') \<Longrightarrow> up_Sub (url_of cs) = [] \<Longrightarrow> Body (ObjBody x) \<in> set cs \<Longrightarrow>
      payload r = Inr (One y) \<Longrightarrow> accepted x y \<and> store s (path_of cs) \<noteq> None \<and>
      (store s' = (store s)(path_of cs \<mapsto> y) \<or> is_gone y \<and> store s' = (store s)(path_of cs := None))"
    and delete: "rc_Do R (DELETE, cs) s = (r, s') \<Longrightarrow> Name nm \<in> set cs \<Longrightarrow> payload r = Inr a \<Longrightarrow>
      store s (path_of cs) \<noteq> None \<and> (store s' = (store s)(path_of cs := None) \<or>
        (\<exists>x y. store s (path_of cs) = Some x \<and> marked_deleted x y \<and> store s' = (store s)(path_of cs \<mapsto> y)))"
    and error_of: "rc_Error R r = (case payload r of Inl e \<Rightarrow> Some e | Inr _ \<Rightarrow> None)"
    and into_err: "payload r = Inl e \<Longrightarrow> rc_IntoNag R r g = (g, Some e) \<and> rc_IntoPar R r p = (p, Some e) \<and>
      rc_IntoCpar R r c = (c, Some e) \<and> rc_IntoNagList R r gl = (gl, Some e) \<and>
      rc_IntoParList R r pl = (pl, Some e) \<and> rc_IntoCparList R r cl = (cl, Some e)"
    and into_nag: "payload r = Inr (One (NagObj gx)) \<Longrightarrow> rc_IntoNag R r g = (gx, None)"
    and into_par: "payload r = Inr (One (ParObj px)) \<Longrightarrow> rc_IntoPar R r p = (px, None)"
    and into_cpar: "payload r = Inr (One (CparObj cx)) \<Longrightarrow> rc_IntoCpar R r c = (cx, None)"
    and into_nags: "payload r = Inr (Many (map NagObj gs)) \<Longrightarrow> \<exists>v. rc_IntoNagList R r gl =
      (\<lparr>ol_ResourceVersion = v, ol_Items = gs\<rparr>, None)"
    and into_pars: "payload r = Inr (Many (map ParObj ps)) \<Longrightarrow> \<exists>v. rc_IntoParList R r pl =
      (\<lparr>ol_ResourceVersion = v, ol_Items = ps\<rparr>, None)"
    and into_cpars: "payload r = Inr (Many (map CparObj qs)) \<Longrightarrow> \<exists>v. rc_IntoCparList R r cl =
      (\<lparr>ol_ResourceVersion = v, ol_Items = qs\<rparr>, None)"
begin

text \<open>The object \<open>a\<close> and the error \<open>e\<close> a client made of a result.\<close>

definition answered :: "'r \<Rightarrow> cliObject option \<Rightarrow> goerr option \<Rightarrow> bool" where
  "answered r a e \<longleftrightarrow> (case e of Some x \<Rightarrow> payload r = Inl x | None \<Rightarrow> \<exists>y. a = Some y \<and> payload r = Inr (One y))"

text \<open>Decoding into a type \<open>mk\<close> of objects gives back an object of the resource \<open>res\<close>.\<close>

definition decodes :: "('a \<Rightarrow> cliObject) \<Rightarrow> ('r \<Rightarrow> 'a \<Rightarrow> 'a \<times> goerr option) \<Rightarrow> string \<Rightarrow> bool" where
  "decodes mk into res \<longleftrightarrow> (\<forall>r z. (\<forall>e. payload r = Inl e \<longrightarrow> into r z = (z, Some e)) \<and>
     (\<forall>y. payload r = Inr (One y) \<longrightarrow> kind_of y = res \<longrightarrow> (\<exists>x. y = mk x \<and> into r z = (x, None))))"

lemma decodes_nag: "decodes NagObj (rc_IntoNag R) ''nodeassignmentgroups''"
  unfolding decodes_def using into_err into_nag by (auto elim!: kind_of.elims)

lemma decodes_par: "decodes ParObj (rc_IntoPar R) ''podassignmentrules''"
  unfolding decodes_def using into_err into_par by (auto elim!: kind_of.elims)

lemma decodes_cpar: "decodes CparObj (rc_IntoCpar R) ''clusterpodassignmentrules''"
  unfolding decodes_def using into_err into_cpar by (auto elim!: kind_of.elims)

lemma do_into_answered:
  assumes "decodes mk into res" and "as_answer mk (do_into R into (v, cs) z s) = ((a, e), s')"
    and "up_Resource (url_of cs) = res" and "v \<noteq> DELETE" and "Name nm \<in> set cs \<or> v = POST"
  shows "\<exists>r. rc_Do R (v, cs) s = (r, s') \<and> answered r a e"
proof -
  obtain r s1 where r: "rc_Do R (v, cs) s = (r, s1)" by force
  show ?thesis
  proof (cases "payload r")
    case (Inl x)
    then have "into r z = (z, Some x)" using assms(1) by (simp add: decodes_def)
    then show ?thesis using assms(2) r Inl by (auto simp: as_answer_def do_into_def answered_def)
  next
    case (Inr b)
    then obtain y where y: "payload r = Inr (One y)" "kind_of y = res" using object [OF r assms(4,5) Inr] assms(3) by auto
    then obtain x where "y = mk x" "into r z = (x, None)" using assms(1) unfolding decodes_def by blast
    then show ?thesis using assms(2) r y by (auto simp: as_answer_def do_into_def answered_def)
  qed
qed

text \<open>The effect of one request, for each method.\<close>

lemma get_call:
  assumes "as_answer mk (do_into R into (GET, cs) z s) = ((a, e), s')" and "decodes mk into res"
    and "up_Resource (url_of cs) = res" and "\<exists>nm. Name nm \<in> set cs" and "up_Sub (url_of cs) = []"
    and "path_of cs = target_of call" and "kind_of_call call = Read"
  shows "api_effect call (store s) (a, e) (store s')"
proof -
  obtain r where r: "rc_Do R (GET, cs) s = (r, s')" "answered r a e"
    using do_into_answered [OF assms(2,1,3)] assms(4) by blast
  then show ?thesis
    using reads [OF r(1)] get [OF r(1) assms(5)] assms(6,7)
    by (auto simp: api_effect_def answered_def split: option.splits)
qed

lemma post_call:
  assumes "as_answer mk (do_into R into (POST, cs) z s) = ((a, e), s')" and "decodes mk into res"
    and "path_of cs = (ns, res, [])" and "Body (ObjBody x) \<in> set cs"
    and "target_of call = (ns, res, om_Name (obj_meta x))" and "kind_of_call call = Create x"
  shows "api_effect call (store s) (a, e) (store s')"
proof -
  have "up_Resource (url_of cs) = res" using assms(3) by (simp add: path_of_def)
  then obtain r where r: "rc_Do R (POST, cs) s = (r, s')" "answered r a e"
    using do_into_answered [OF assms(2,1)] by blast
  then show ?thesis
    using post [OF r(1) assms(3,4)] failed [OF r(1)] assms(5,6)
    by (auto simp: api_effect_def answered_def split: option.splits)
qed

lemma put_call:
  assumes "as_answer mk (do_into R into (PUT, cs) z s) = ((a, e), s')" and "decodes mk into res"
    and "up_Resource (url_of cs) = res" and "\<exists>nm. Name nm \<in> set cs" and "up_Sub (url_of cs) = []"
    and "Body (ObjBody x) \<in> set cs" and "path_of cs = target_of call" and "kind_of_call call = Replace x"
  shows "api_effect call (store s) (a, e) (store s')"
proof -
  obtain r where r: "rc_Do R (PUT, cs) s = (r, s')" "answered r a e"
    using do_into_answered [OF assms(2,1,3)] assms(4) by blast
  then show ?thesis
    using put [OF r(1) assms(5,6)] failed [OF r(1)] assms(7,8)
    by (auto simp: api_effect_def answered_def split: option.splits)
qed

lemma touch_call:
  assumes "as_answer mk (do_into R into (v, cs) z s) = ((a, e), s')" and "decodes mk into res"
    and "up_Resource (url_of cs) = res" and "v \<noteq> DELETE" and "\<exists>nm. Name nm \<in> set cs"
    and "path_of cs = target_of call" and "kind_of_call call = Touch"
  shows "api_effect call (store s) (a, e) (store s')"
proof -
  obtain r where r: "rc_Do R (v, cs) s = (r, s')" "answered r a e"
    using do_into_answered [OF assms(2,1,3,4)] assms(5) by blast
  then show ?thesis
    using frame [OF r(1)] failed [OF r(1)] assms(6,7)
    by (auto simp: api_effect_def answered_def split: option.splits)
qed

lemma delete_call:
  assumes "no_answer (do_error R (DELETE, cs) s) = ((a, e), s')" and "path_of cs = target_of call"
    and "(\<exists>nm. Name nm \<in> set cs) \<and> kind_of_call call = Delete \<or> kind_of_call call = Touch"
  shows "api_effect call (store s) (a, e) (store s')"
proof -
  obtain r where r: "rc_Do R (DELETE, cs) s = (r, s')" "e = rc_Error R r"
    using assms(1) by (auto simp: no_answer_def do_error_def split: prod.splits)
  show ?thesis
  proof (cases "payload r")
    case (Inl x)
    then show ?thesis using r failed [OF r(1)] by (simp add: api_effect_def error_of)
  next
    case (Inr x)
    then have e: "e = None" by (simp add: r(2) error_of)
    show ?thesis
      using assms(2,3) delete [OF r(1) _ Inr] frame [OF r(1)] by (auto simp: api_effect_def e)
  qed
qed

lemma run_call_effect:
  assumes "run_call \<lparr>ac_restClient = R\<rparr> call s = ((a, e), s')"
  shows "api_effect call (store s) (a, e) (store s')"
proof (cases call)
  case NagGet
  with assms show ?thesis by (simp add: nag_methods new_clients) (erule get_call [OF _ decodes_nag]; simp add: url_of_def path_of_def)
next
  case NagCreate
  with assms show ?thesis by (simp add: nag_methods new_clients) (erule post_call [OF _ decodes_nag]; simp add: url_of_def path_of_def)
next
  case NagUpdate
  with assms show ?thesis by (simp add: nag_methods new_clients) (erule put_call [OF _ decodes_nag]; simp add: url_of_def path_of_def)
next
  case NagUpdateStatus
  with assms show ?thesis by (simp add: nag_methods new_clients) (erule touch_call [OF _ decodes_nag]; simp add: url_of_def path_of_def)
next
  case NagDelete
  with assms show ?thesis by (simp add: nag_methods new_clients) (erule delete_call; simp add: url_of_def path_of_def)
next
  case NagDeleteAll
  with assms show ?thesis by (simp add: nag_methods new_clients) (erule delete_call; simp add: url_of_def path_of_def)
next
  case NagPatch
  with assms show ?thesis by (simp add: nag_methods new_clients) (erule touch_call [OF _ decodes_nag]; simp add: url_of_def path_of_def)
next
  case ParGet
  with assms show ?thesis by (simp add: par_methods new_clients) (erule get_call [OF _ decodes_par]; simp add: url_of_def path_of_def)
next
  case ParCreate
  with assms show ?thesis by (simp add: par_methods new_clients) (erule post_call [OF _ decodes_par]; simp add: url_of_def path_of_def)
next
  case ParUpdate
  with assms show ?thesis by (simp add: par_methods new_clients) (erule put_call [OF _ decodes_par]; simp add: url_of_def path_of_def)
next
  case ParDelete
  with assms show ?thesis by (simp add: par_methods new_clients) (erule delete_call; simp add: url_of_def path_of_def)
next
  case ParDeleteAll
  with assms show ?thesis by (simp add: par_methods new_clients) (erule delete_call; simp add: url_of_def path_of_def)
next
  case ParPatch
  with assms show ?thesis by (simp add: par_methods new_clients) (erule touch_call [OF _ decodes_par]; simp add: url_of_def path_of_def)
next
  case CparGet
  with assms show ?thesis by (simp add: cpar_methods new_clients) (erule get_call [OF _ decodes_cpar]; simp add: url_of_def path_of_def)
next
  case CparCreate
  with assms show ?thesis by (simp add: cpar_methods new_clients) (erule post_call [OF _ decodes_cpar]; simp add: url_of_def path_of_def)
next
  case CparUpdate
  with assms show ?thesis by (simp add: cpar_methods new_clients) (erule put_call [OF _ decodes_cpar]; simp add: url_of_def path_of_def)
next
  case CparDelete
  with assms show ?thesis by (simp add: cpar_methods new_clients) (erule delete_call; simp add: url_of_def path_of_def)
next
  case CparDeleteAll
  with assms show ?thesis by (simp add: cpar_methods new_clients) (erule delete_call; simp add: url_of_def path_of_def)
next
  case CparPatch
  with assms show ?thesis by (simp add: cpar_methods new_clients) (erule touch_call [OF _ decodes_cpar]; simp add: url_of_def path_of_def)
qed

lemma run_calls_other:
  "run_calls \<lparr>ac_restClient = R\<rparr> calls s = (answers, s') \<Longrightarrow>
   \<forall>c \<in> set calls. kind_of_call c = Read \<or> \<not> under (target_of c) p \<Longrightarrow> store s' p = store s p"
proof (induction calls arbitrary: s answers)
  case (Cons c calls)
  obtain a e s1 where c: "run_call \<lparr>ac_restClient = R\<rparr> c s = ((a, e), s1)" by (metis prod.exhaust)
  have "store s1 p = store s p"
    using api_effect_other [OF run_call_effect [OF c]] Cons.prems(2) by simp
  then show ?case using Cons c by (auto split: prod.splits)
qed simp

text \<open>A list request without selectors decodes to the objects of its collection.\<close>

definition decodes_list :: "('a \<Rightarrow> cliObject) \<Rightarrow> ('r \<Rightarrow> 'a objectList \<Rightarrow> 'a objectList \<times> goerr option) \<Rightarrow> bool" where
  "decodes_list mk into \<longleftrightarrow> (\<forall>r z. (\<forall>e. payload r = Inl e \<longrightarrow> into r z = (z, Some e)) \<and>
     (\<forall>xs. payload r = Inr (Many (map mk xs)) \<longrightarrow> ol_Items (fst (into r z)) = xs \<and> snd (into r z) = None))"

lemma decodes_lists: "decodes_list NagObj (rc_IntoNagList R)" "decodes_list ParObj (rc_IntoParList R)"
  "decodes_list CparObj (rc_IntoCparList R)"
proof -
  show "decodes_list NagObj (rc_IntoNagList R)" unfolding decodes_list_def
  proof (intro allI conjI impI)
    fix r z xs assume "payload r = Inr (Many (map NagObj xs))"
    then show "ol_Items (fst (rc_IntoNagList R r z)) = xs" "snd (rc_IntoNagList R r z) = None"
      using into_nags [of r xs z] by auto
  qed (simp add: into_err)
  show "decodes_list ParObj (rc_IntoParList R)" unfolding decodes_list_def
  proof (intro allI conjI impI)
    fix r z xs assume "payload r = Inr (Many (map ParObj xs))"
    then show "ol_Items (fst (rc_IntoParList R r z)) = xs" "snd (rc_IntoParList R r z) = None"
      using into_pars [of r xs z] by auto
  qed (simp add: into_err)
  show "decodes_list CparObj (rc_IntoCparList R)" unfolding decodes_list_def
  proof (intro allI conjI impI)
    fix r z xs assume "payload r = Inr (Many (map CparObj xs))"
    then show "ol_Items (fst (rc_IntoCparList R r z)) = xs" "snd (rc_IntoCparList R r z) = None"
      using into_cpars [of r xs z] by auto
  qed (simp add: into_err)
qed

lemma list_collection:
  assumes "as_list mk (do_into R into (GET, cs) z s) = ((ys, e), s')" and "decodes_list mk into"
    and "path_of cs = (ns, res, [])" and "VersionedParams (ListParams opts) \<in> set cs"
    and "\<And>y. kind_of y = res \<Longrightarrow> \<exists>x. y = mk x"
  shows "s' = s \<and> (e = None \<longrightarrow> no_selectors opts \<longrightarrow> \<not> lo_Watch opts \<longrightarrow> set ys = {y. \<exists>nm. store s (ns, res, nm) = Some y})"
proof -
  obtain r where r: "rc_Do R (GET, cs) s = (r, s')" "ys = map mk (ol_Items (fst (into r z)))" "e = snd (into r z)"
    using assms(1) by (auto simp: as_list_def do_into_def split: prod.splits)
  have "set ys = {y. \<exists>nm. store s (ns, res, nm) = Some y}" if o: "e = None" "no_selectors opts" "\<not> lo_Watch opts"
  proof -
    obtain a where a: "payload r = Inr a"
      using r(3) o(1) assms(2) by (cases "payload r") (auto simp: decodes_list_def)
    obtain zs where zs: "a = Many zs" "set zs = {y. \<exists>nm. store s (ns, res, nm) = Some y}"
      using list [OF r(1) assms(3,4) o(2,3) a] by blast
    have "\<exists>xs. zs = map mk xs" unfolding ex_map_conv using zs(2) kinds assms(5) by blast
    then have "zs = ys" using a zs(1) r(2) assms(2) by (auto simp: decodes_list_def)
    then show ?thesis using zs(2) by simp
  qed
  then show ?thesis using reads [OF r(1)] by blast
qed

lemma run_list_effect:
  assumes "run_list \<lparr>ac_restClient = R\<rparr> coll opts s = ((ys, e), s')"
  shows "s' = s \<and> (e = None \<longrightarrow> no_selectors opts \<longrightarrow> \<not> lo_Watch opts \<longrightarrow>
    set ys = {y. \<exists>nm. store s (in_collection coll nm) = Some y})"
proof (cases coll)
  case NagColl
  with assms show ?thesis
    by (simp add: nags_List_def new_clients)
      (erule list_collection [OF _ decodes_lists(1)]; auto simp: url_of_def path_of_def elim: kind_of.elims)
next
  case ParColl
  with assms show ?thesis
    by (simp add: pars_List_def new_clients)
      (erule list_collection [OF _ decodes_lists(2)]; auto simp: url_of_def path_of_def elim: kind_of.elims)
next
  case CparColl
  with assms show ?thesis
    by (simp add: cpars_List_def new_clients)
      (erule list_collection [OF _ decodes_lists(3)]; auto simp: url_of_def path_of_def elim: kind_of.elims)
qed

end


section \<open>Watches and lifetimes\<close>

text \<open>A \<^verbatim>\<open>GET\<close> of a collection with the watch option opens a watch and changes nothing. The watch delivers what changes
  in its collection.\<close>

locale rest_watch = rest_store R store payload
  for R :: "('s, 'r, 'w) restClient" and store and payload +
  fixes delivers :: "'w deliveries"
  assumes watch: "rc_Watch R (GET, cs) s = (wr, s') \<Longrightarrow> path_of cs = (ns, res, []) \<Longrightarrow>
      VersionedParams (ListParams opts) \<in> set cs \<Longrightarrow> lo_Watch opts \<Longrightarrow>
      s' = s \<and> (\<forall>w. wr = Inr w \<longrightarrow> no_selectors opts \<longrightarrow> delivers w = changes_under (ns, res, []))"
begin

lemma run_watch_effect:
  assumes "run_watch \<lparr>ac_restClient = R\<rparr> coll opts s = (wr, s')"
  shows "s' = s \<and> (\<forall>w. wr = Inr w \<longrightarrow> no_selectors opts \<longrightarrow> delivers w = changes_under (in_collection coll []))"
  using assms
proof (cases coll)
  case NagColl
  with assms show ?thesis
    using watch [where opts = "opts\<lparr>lo_Watch := True\<rparr>"]
    by (auto simp: nags_Watch_def new_clients path_of_def url_of_def no_selectors_def)
next
  case ParColl
  with assms show ?thesis
    using watch [where opts = "opts\<lparr>lo_Watch := True\<rparr>"]
    by (auto simp: pars_Watch_def new_clients path_of_def url_of_def no_selectors_def)
next
  case CparColl
  with assms show ?thesis
    using watch [where opts = "opts\<lparr>lo_Watch := True\<rparr>"]
    by (auto simp: cpars_Watch_def new_clients path_of_def url_of_def no_selectors_def)
qed

lemmas every_method = run_call_effect run_list_effect run_watch_effect

end

text \<open>Only the server sets the deletion timestamp: an object is created without one, and a replacement keeps it.\<close>

abbreviation deletion_of :: "cliObject \<Rightarrow> int option" where
  "deletion_of x \<equiv> om_DeletionTimestamp (obj_meta x)"

locale rest_lifetime = rest_store R store payload
  for R :: "('s, 'r, 'w) restClient" and store and payload +
  assumes post_alive: "rc_Do R (POST, cs) s = (r, s') \<Longrightarrow> payload r = Inr (One y) \<Longrightarrow> deletion_of y = None"
    and put_lifetime: "rc_Do R (PUT, cs) s = (r, s') \<Longrightarrow> up_Sub (url_of cs) = [] \<Longrightarrow> payload r = Inr (One y) \<Longrightarrow>
      store s (path_of cs) = Some x \<Longrightarrow> deletion_of y = deletion_of x"
begin

lemma cpars_Create_alive:
  assumes "cpars_Create (newClusterPodAssignmentRules \<lparr>ac_restClient = R\<rparr>) x s = ((y, None), s')"
  shows "deletion_of (CparObj y) = None"
proof -
  have "as_answer CparObj (do_into R (rc_IntoCpar R)
      (POST, [Resource ''clusterpodassignmentrules'', Body (ObjBody (CparObj x))]) zero_cpar s) = ((Some (CparObj y), None), s')"
    using assms by (simp add: as_answer_def cpars_Create_def new_clients)
  from do_into_answered [OF decodes_cpar this] show ?thesis by (auto simp: answered_def url_of_def dest: post_alive)
qed

lemma cpars_Update_lifetime:
  assumes "cpars_Update (newClusterPodAssignmentRules \<lparr>ac_restClient = R\<rparr>) x s = ((y, None), s')"
    and "store s ('''', ''clusterpodassignmentrules'', om_Name (cpar_meta x)) = Some z"
  shows "deletion_of (CparObj y) = deletion_of z"
proof -
  let ?cs = "[Resource ''clusterpodassignmentrules'', Name (om_Name (cpar_meta x)), Body (ObjBody (CparObj x))]"
  have "as_answer CparObj (do_into R (rc_IntoCpar R) (PUT, ?cs) zero_cpar s) = ((Some (CparObj y), None), s')"
    using assms by (simp add: as_answer_def cpars_Update_def new_clients)
  from do_into_answered [OF decodes_cpar this] obtain r where
    "rc_Do R (PUT, ?cs) s = (r, s')" "payload r = Inr (One (CparObj y))" by (auto simp: answered_def url_of_def)
  then show ?thesis using put_lifetime [of ?cs s r s' "CparObj y" z] assms(2) by (simp add: url_of_def path_of_def)
qed

end

section \<open>The managers over REST\<close>

text \<open>The managers call \<^verbatim>\<open>AssignmentsV1alpha1().NodeAssignmentGroups().Get(name, metav1.GetOptions{})\<close> and \<^verbatim>\<open>Update\<close>,
  whose first result they drop.\<close>

definition no_getOptions :: getOptions where
  "no_getOptions = \<lparr>go_ResourceVersion = ''''\<rparr>"

definition typed_kube ::
    "('s, 'd, 'p) kube \<Rightarrow> ('s, 'r, 'w) assignmentsV1alpha1Client \<Rightarrow> ('s, 'd, 'p) kube" where
  "typed_kube K c = K\<lparr>
     k_nagsGet := (\<lambda>nm. nags_Get (newNodeAssignmentGroups c) nm no_getOptions),
     k_nagsUpdate := (\<lambda>g s. case nags_Update (newNodeAssignmentGroups c) g s of ((_, e), s') \<Rightarrow> (e, s'))\<rparr>"

definition group_at :: "(restPath \<Rightarrow> cliObject option) \<Rightarrow> string \<Rightarrow> nag option" where
  "group_at m nm = (case m ('''', ''nodeassignmentgroups'', nm) of Some (NagObj g) \<Rightarrow> Some g | _ \<Rightarrow> None)"

locale rest_cluster = rest_store R store payload
  for R :: "('s, 'r, 'w) restClient" and store and payload +
  fixes K :: "('s, 'd, 'p) kube"
    and nagview :: "'s \<Rightarrow> nag list"
  assumes view_store: "find_nag nm (nagview s) = group_at (store s) nm"
    and view_failed: "rc_Do R rq s = (r, s') \<Longrightarrow> payload r = Inl e \<Longrightarrow> nagview s' = nagview s"
    and retry: "retry_run f s (fst (k_retry K f s)) (snd (k_retry K f s))"
begin

lemma Get_group:
  assumes "nags_Get (newNodeAssignmentGroups \<lparr>ac_restClient = R\<rparr>) nm go s = ((g, e), s')"
  shows "s' = s \<and> (e = None \<longrightarrow> find_nag nm (nagview s) = Some g) \<and> (e \<noteq> None \<longrightarrow> g = zero_nag)"
proof -
  have "run_call \<lparr>ac_restClient = R\<rparr> (NagGet nm go) s = ((Some (NagObj g), e), s')"
    using assms by (simp add: as_answer_def)
  from run_call_effect [OF this] have e: "e = None \<Longrightarrow> store s (target_of (NagGet nm go)) = Some (NagObj g)"
    by (simp add: api_effect_def)
  obtain r where r: "rc_Do R (GET, [Resource ''nodeassignmentgroups'', Name nm, VersionedParams (GetParams go)]) s = (r, s')"
      "rc_IntoNag R r zero_nag = (g, e)"
    using assms by (auto simp: nags_Get_def new_clients do_into_def split: prod.splits)
  have "e \<noteq> None \<Longrightarrow> g = zero_nag"
    using r(2) object [OF r(1), of nm] into_err [where r = r and g = zero_nag] into_nag [where r = r and g = zero_nag]
    by (cases "payload r") (auto simp: url_of_def elim!: kind_of.elims)
  with reads [OF r(1)] e show ?thesis by (simp add: view_store group_at_def)
qed

lemma Update_group:
  assumes "nags_Update (newNodeAssignmentGroups \<lparr>ac_restClient = R\<rparr>) g s = ((x, e), s')"
  shows "(e = None \<longrightarrow> (\<forall>y. find_nag (nag_Name g) (nagview s') = Some y \<longrightarrow> om_Finalizers (nag_meta y) = om_Finalizers (nag_meta g)) \<and>
      (\<forall>nm. nm \<noteq> nag_Name g \<longrightarrow> find_nag nm (nagview s') = find_nag nm (nagview s))) \<and>
    (e \<noteq> None \<longrightarrow> nagview s' = nagview s) \<and> (nag_Name g = [] \<longrightarrow> e \<noteq> None)"
proof -
  let ?cs = "[Resource ''nodeassignmentgroups'', Name (nag_Name g), Body (ObjBody (NagObj g))]"
  have "run_call \<lparr>ac_restClient = R\<rparr> (NagUpdate g) s = ((Some (NagObj x), e), s')"
    using assms by (simp add: as_answer_def)
  note eff = run_call_effect [OF this]
  obtain r where r: "rc_Do R (PUT, ?cs) s = (r, s')" "rc_IntoNag R r zero_nag = (x, e)"
    using assms by (auto simp: nags_Update_def new_clients do_into_def split: prod.splits)
  have err: "\<exists>er. payload r = Inl er" if "e \<noteq> None"
    using r(2) object [OF r(1), of "nag_Name g"] into_nag [where r = r and g = zero_nag] that
    by (cases "payload r") (auto simp: url_of_def elim!: kind_of.elims)
  have empty: "e \<noteq> None" if "nag_Name g = []"
    using no_name [OF r(1)] into_err [where r = r and g = zero_nag] r(2) that by auto
  have "e = None \<Longrightarrow> accepted (NagObj g) (NagObj x) \<and> (store s' = (store s)(target_of (NagUpdate g) \<mapsto> NagObj x) \<or>
      store s' = (store s)(target_of (NagUpdate g) := None))"
    using eff by (auto simp: api_effect_def Let_def)
  then have ok: "e = None \<Longrightarrow> (\<forall>y. group_at (store s') (nag_Name g) = Some y \<longrightarrow> om_Finalizers (nag_meta y) = om_Finalizers (nag_meta g)) \<and>
      (\<forall>nm. nm \<noteq> nag_Name g \<longrightarrow> group_at (store s') nm = group_at (store s) nm)"
    by (auto simp: group_at_def accepted_def)
  show ?thesis using ok err view_failed [OF r(1)] empty by (auto simp: view_store)
qed

end

sublocale rest_cluster \<subseteq> over_rest: nag_api "typed_kube K \<lparr>ac_restClient = R\<rparr>" nagview
proof (unfold_locales, goal_cases)
  case (1 nm s g s')
  then show ?case using Get_group by (auto simp: typed_kube_def)
next
  case (2 nm s g e s')
  then show ?case using Get_group by (auto simp: typed_kube_def)
next
  case (3 g s s')
  then show ?case using Update_group by (auto simp: typed_kube_def split: prod.splits)
next
  case (4 g s e s')
  then show ?case using Update_group by (auto simp: typed_kube_def split: prod.splits)
next
  case (5 g s)
  then show ?case using Update_group by (auto simp: typed_kube_def split: prod.splits)
next
  case (6 nm s g e s')
  then show ?case using Get_group [of nm no_getOptions s g "Some e" s'] by (simp add: typed_kube_def zero_nag_def cli_meta_def)
next
  case (7 f s)
  then show ?case using retry by (simp add: typed_kube_def)
qed

end
