(* ===== verification/RestMem.thy ===== *)
theory RestMem
  imports RestStore
begin

text \<open>
  An executable REST server that keeps its objects in one association list, the interpretations of the contracts
  of \<open>RestStore\<close> on it, and the properties of the typed clients. An entry whose object does not belong to its path is
  not served. The server does not accept patches and has no status subresource (the custom resource definitions under
  \<^verbatim>\<open>deploy\<close> declare none).
\<close>

section \<open>The server\<close>

type_synonym restMem = "(restPath \<times> cliObject) list"
type_synonym memResult = "goerr + answer"

definition mem_store :: "restMem \<Rightarrow> restPath \<Rightarrow> cliObject option" where
  "mem_store s p =
     (case map_of s p of
        None \<Rightarrow> None
      | Some x \<Rightarrow> if kind_of x = fst (snd p) \<and> om_Name (obj_meta x) = snd (snd p) then Some x else None)"

definition the_body :: "reqCall list \<Rightarrow> cliObject option" where
  "the_body cs = (case List.map_filter (\<lambda>c. case c of Body (ObjBody x) \<Rightarrow> Some x | _ \<Rightarrow> None) cs of [x] \<Rightarrow> Some x | _ \<Rightarrow> None)"

fun set_deletion :: "int option \<Rightarrow> cliObject \<Rightarrow> cliObject" where
  "set_deletion t (NagObj g) = NagObj (g\<lparr>nag_meta := (nag_meta g)\<lparr>om_DeletionTimestamp := t\<rparr>\<rparr>)"
| "set_deletion t (ParObj r) = ParObj (r\<lparr>par_meta := (par_meta r)\<lparr>om_DeletionTimestamp := t\<rparr>\<rparr>)"
| "set_deletion t (CparObj r) = CparObj (r\<lparr>cpar_meta := (cpar_meta r)\<lparr>om_DeletionTimestamp := t\<rparr>\<rparr>)"

definition mem_Get :: "reqCall list \<Rightarrow> restMem \<Rightarrow> memResult" where
  "mem_Get cs s =
     (case path_of cs of (ns, res, nm) \<Rightarrow>
        if nm = [] then Inr (Many (List.map_filter (\<lambda>p. if fst p = ns \<and> fst (snd p) = res then mem_store s p else None) (map fst s)))
        else (case mem_store s (ns, res, nm) of None \<Rightarrow> Inl (NotFound nm) | Some x \<Rightarrow> Inr (One x)))"

definition mem_Post :: "reqCall list \<Rightarrow> restMem \<Rightarrow> memResult \<times> restMem" where
  "mem_Post cs s =
     (case path_of cs of (ns, res, nm) \<Rightarrow>
        (case the_body cs of
           None \<Rightarrow> (Inl (OtherErr ''bad request''), s)
         | Some x \<Rightarrow>
             (let p = (ns, res, om_Name (obj_meta x))
              in if nm \<noteq> [] \<or> kind_of x \<noteq> res \<or> om_Name (obj_meta x) = [] then (Inl (OtherErr ''invalid''), s)
                 else if mem_store s p \<noteq> None then (Inl (OtherErr ''already exists''), s)
                 else (let y = set_deletion None x in (Inr (One y), (p, y) # s)))))"

definition mem_Put :: "reqCall list \<Rightarrow> restMem \<Rightarrow> memResult \<times> restMem" where
  "mem_Put cs s =
     (case path_of cs of (ns, res, nm) \<Rightarrow>
        (case the_body cs of
           None \<Rightarrow> (Inl (OtherErr ''bad request''), s)
         | Some x \<Rightarrow>
             (case mem_store s (ns, res, nm) of
                None \<Rightarrow> (Inl (NotFound nm), s)
              | Some z \<Rightarrow>
                  (let y = set_deletion (deletion_of z) x
                   in if up_Sub (url_of cs) \<noteq> [] then (Inl (NotFound nm), s)
                      else if kind_of x \<noteq> res \<or> om_Name (obj_meta x) \<noteq> nm then (Inl (OtherErr ''invalid''), s)
                      else (Inr (One y), if is_gone y then AList.delete (ns, res, nm) s else ((ns, res, nm), y) # s)))))"

definition mem_Delete :: "reqCall list \<Rightarrow> restMem \<Rightarrow> memResult \<times> restMem" where
  "mem_Delete cs s =
     (case path_of cs of (ns, res, nm) \<Rightarrow>
        if nm = [] then (Inr Status, filter (\<lambda>e. \<not> under (ns, res, nm) (fst e)) s)
        else (case mem_store s (ns, res, nm) of
                None \<Rightarrow> (Inl (NotFound nm), s)
              | Some x \<Rightarrow>
                  if om_Finalizers (obj_meta x) = [] then (Inr Status, AList.delete (ns, res, nm) s)
                  else (Inr Status, ((ns, res, nm), set_deletion (Some 1) x) # s)))"

definition mem_Do :: "request \<Rightarrow> restMem \<Rightarrow> memResult \<times> restMem" where
  "mem_Do rq s =
     (case rq of (v, cs) \<Rightarrow>
        if Name [] \<in> set cs then (Inl (OtherErr ''resource name may not be empty''), s)
        else (case v of
                GET \<Rightarrow> (mem_Get cs s, s) | POST \<Rightarrow> mem_Post cs s | PUT \<Rightarrow> mem_Put cs s | DELETE \<Rightarrow> mem_Delete cs s
              | PATCH _ \<Rightarrow> (Inl (OtherErr ''unsupported media type''), s)))"

definition mem_into :: "(answer \<Rightarrow> 'a option) \<Rightarrow> memResult \<Rightarrow> 'a \<Rightarrow> 'a \<times> goerr option" where
  "mem_into f r z =
     (case r of Inl e \<Rightarrow> (z, Some e)
      | Inr a \<Rightarrow> (case f a of None \<Rightarrow> (z, Some (OtherErr ''no kind matches'')) | Some x \<Rightarrow> (x, None)))"

definition all_of :: "(cliObject \<Rightarrow> 'a option) \<Rightarrow> answer \<Rightarrow> 'a objectList option" where
  "all_of f a =
     (case a of
        Many ys \<Rightarrow> if list_all (\<lambda>y. f y \<noteq> None) ys then Some \<lparr>ol_ResourceVersion = ''1'', ol_Items = List.map_filter f ys\<rparr> else None
      | _ \<Rightarrow> None)"

fun nag_of :: "cliObject \<Rightarrow> nag option" where
  "nag_of (NagObj g) = Some g" | "nag_of _ = None"
fun par_of :: "cliObject \<Rightarrow> podAssignmentRule option" where
  "par_of (ParObj g) = Some g" | "par_of _ = None"
fun cpar_of :: "cliObject \<Rightarrow> clusterPodAssignmentRule option" where
  "cpar_of (CparObj g) = Some g" | "cpar_of _ = None"

definition one_of :: "(cliObject \<Rightarrow> 'a option) \<Rightarrow> answer \<Rightarrow> 'a option" where
  "one_of f a = (case a of One y \<Rightarrow> f y | _ \<Rightarrow> None)"

text \<open>A watch is the path of what it watches.\<close>

definition watch_opts :: "reqCall \<Rightarrow> bool" where
  "watch_opts c = (case c of VersionedParams (ListParams opts) \<Rightarrow> lo_Watch opts \<and> no_selectors opts | _ \<Rightarrow> False)"

definition mem_Watch :: "request \<Rightarrow> restMem \<Rightarrow> (goerr + restPath) \<times> restMem" where
  "mem_Watch rq s =
     (if fst rq = GET \<and> list_ex watch_opts (snd rq) then Inr (path_of (snd rq)) else Inl (OtherErr ''not a watch''), s)"

definition mem_rest :: "(restMem, memResult, restPath) restClient" where
  "mem_rest = \<lparr>rc_Do = mem_Do, rc_Watch = mem_Watch,
     rc_Error = (\<lambda>r. case r of Inl e \<Rightarrow> Some e | Inr _ \<Rightarrow> None),
     rc_IntoNag = mem_into (one_of nag_of), rc_IntoPar = mem_into (one_of par_of), rc_IntoCpar = mem_into (one_of cpar_of),
     rc_IntoNagList = mem_into (all_of nag_of), rc_IntoParList = mem_into (all_of par_of),
     rc_IntoCparList = mem_into (all_of cpar_of)\<rparr>"

section \<open>Its laws\<close>

lemma mem_store_cons:
  "mem_store ((p, x) # s) = (mem_store s)(p := if kind_of x = fst (snd p) \<and> om_Name (obj_meta x) = snd (snd p) then Some x else None)"
  by (auto simp: mem_store_def)

lemma mem_store_delete: "mem_store (AList.delete p s) = (mem_store s)(p := None)"
  by (auto simp: mem_store_def delete_conv')

lemma mem_store_filter: "mem_store (filter (\<lambda>e. \<not> P (fst e)) s) q = (if P q then None else mem_store s q)"
proof -
  have "map_of (filter (\<lambda>e. \<not> P (fst e)) s) q = (if P q then None else map_of s q)" by (induction s) auto
  then show ?thesis by (simp add: mem_store_def)
qed

lemma under_tuple: "under (a, b, c) (a', b', c') \<longleftrightarrow> a' = a \<and> b' = b \<and> (c = [] \<or> c' = c)"
  by (simp add: under_def)

lemma set_map_filter: "set (List.map_filter f xs) = {y. \<exists>x \<in> set xs. f x = Some y}"
  by (force simp: List.map_filter_def)

lemma mem_store_kind: "mem_store s (ns, res, nm) = Some x \<Longrightarrow> kind_of x = res \<and> om_Name (obj_meta x) = nm"
  by (auto simp: mem_store_def split: option.splits if_splits)

lemma mem_store_key: "mem_store s p = Some x \<Longrightarrow> p \<in> fst ` set s"
  by (auto simp: mem_store_def image_iff split: option.splits if_splits dest!: map_of_SomeD intro: bexI [rotated])

lemma set_deletion_simps [simp]:
  "kind_of (set_deletion t x) = kind_of x" "om_Name (obj_meta (set_deletion t x)) = om_Name (obj_meta x)"
  "deletion_of (set_deletion t x) = t" "accepted x (set_deletion t x)"
  by (cases x; simp add: accepted_def)+

lemma marked_mark: "om_Finalizers (obj_meta x) \<noteq> [] \<Longrightarrow> marked_deleted x (set_deletion (Some t) x)"
  by (simp add: marked_deleted_def)

lemma accepted_refl [simp]: "accepted x x"
  by (cases x) (simp_all add: accepted_def)

lemma up_Name_nonempty: "Name nm \<in> set cs \<Longrightarrow> Name [] \<notin> set cs \<Longrightarrow> up_Name (url_of cs) \<noteq> []"
proof -
  have "up_Name (fold add_call cs u) \<noteq> []"
    if "(\<exists>nm. Name nm \<in> set cs) \<or> up_Name u \<noteq> []" "Name [] \<notin> set cs" for u
    using that
  proof (induction cs arbitrary: u)
    case (Cons c cs)
    then show ?case by (cases c) auto
  qed simp
  then show "Name nm \<in> set cs \<Longrightarrow> Name [] \<notin> set cs \<Longrightarrow> up_Name (url_of cs) \<noteq> []" unfolding url_of_def by blast
qed

lemma the_body_mem: "the_body cs = Some x \<Longrightarrow> Body (ObjBody y) \<in> set cs \<Longrightarrow> y = x"
proof -
  assume b: "the_body cs = Some x" and y: "Body (ObjBody y) \<in> set cs"
  have "y \<in> set (List.map_filter (\<lambda>c. case c of Body (ObjBody x) \<Rightarrow> Some x | _ \<Rightarrow> None) cs)"
    using y by (force simp: List.map_filter_def)
  then show "y = x" using b by (auto simp: the_body_def split: list.splits)
qed

lemma mem_Do_simps:
  "mem_Do (v, cs) s = (r, s') \<Longrightarrow> Name [] \<in> set cs \<Longrightarrow> (\<exists>e. r = Inl e) \<and> s' = s"
  "Name [] \<notin> set cs \<Longrightarrow> mem_Do (GET, cs) s = (mem_Get cs s, s)"
  "Name [] \<notin> set cs \<Longrightarrow> mem_Do (POST, cs) s = mem_Post cs s"
  "Name [] \<notin> set cs \<Longrightarrow> mem_Do (PUT, cs) s = mem_Put cs s"
  "Name [] \<notin> set cs \<Longrightarrow> mem_Do (DELETE, cs) s = mem_Delete cs s"
  "Name [] \<notin> set cs \<Longrightarrow> mem_Do (PATCH pt, cs) s = (Inl (OtherErr ''unsupported media type''), s)"
  by (auto simp: mem_Do_def)

lemmas mem_ops = mem_Get_def mem_Post_def mem_Put_def mem_Delete_def

lemma mem_failed: "mem_Do (v, cs) s = (Inl e, s') \<Longrightarrow> s' = s"
  by (cases "Name [] \<in> set cs"; cases v)
    (auto simp: mem_Do_simps(2-) mem_ops Let_def dest: mem_Do_simps(1) split: prod.splits option.splits if_splits)

lemma mem_frame: "mem_Do (v, cs) s = (r, s') \<Longrightarrow> mem_store s' q \<noteq> mem_store s q \<Longrightarrow> under (path_of cs) q"
  by (cases "Name [] \<in> set cs"; cases v; cases q)
    (auto simp: mem_Do_simps(2-) mem_ops Let_def mem_store_cons mem_store_delete mem_store_filter under_tuple
      dest: mem_Do_simps(1) split: prod.splits option.splits if_splits)

lemma mem_object:
  assumes "mem_Do (v, cs) s = (Inr a, s')" and "v \<noteq> DELETE" and "Name nm \<in> set cs \<or> v = POST"
  shows "\<exists>y. a = One y \<and> kind_of y = up_Resource (url_of cs)"
proof -
  have n: "Name [] \<notin> set cs" using assms(1) mem_Do_simps(1) by blast
  have "v = POST \<or> up_Name (url_of cs) \<noteq> []" using assms(3) up_Name_nonempty [OF _ n] by blast
  then show ?thesis
    using assms(1,2) n
    by (cases v) (auto simp: mem_Do_simps(2-) mem_ops path_of_def Let_def dest: mem_store_kind split: option.splits if_splits)
qed

definition mem_collection :: "string \<Rightarrow> string \<Rightarrow> restMem \<Rightarrow> cliObject list" where
  "mem_collection ns res s =
     List.map_filter (\<lambda>p. if fst p = ns \<and> fst (snd p) = res then mem_store s p else None) (map fst s)"

lemma set_mem_collection: "set (mem_collection ns res s) = {y. \<exists>nm. mem_store s (ns, res, nm) = Some y}"
proof -
  have "y \<in> {y. \<exists>nm. mem_store s (ns, res, nm) = Some y} \<longleftrightarrow>
      (\<exists>p \<in> set (map fst s). (if fst p = ns \<and> fst (snd p) = res then mem_store s p else None) = Some y)" for y
  proof
    assume "y \<in> {y. \<exists>nm. mem_store s (ns, res, nm) = Some y}"
    then obtain nm where nm: "mem_store s (ns, res, nm) = Some y" by blast
    then have "(ns, res, nm) \<in> set (map fst s)" using mem_store_key by auto
    then show "\<exists>p \<in> set (map fst s). (if fst p = ns \<and> fst (snd p) = res then mem_store s p else None) = Some y"
      using nm by (intro bexI [of _ "(ns, res, nm)"]) simp_all
  qed (auto split: if_splits)
  then show ?thesis by (auto simp: mem_collection_def set_map_filter set_eq_iff)
qed

lemma mem_list:
  assumes "mem_Do (GET, cs) s = (Inr a, s')" and "path_of cs = (ns, res, [])"
  shows "\<exists>ys. a = Many ys \<and> set ys = {y. \<exists>nm. mem_store s (ns, res, nm) = Some y}"
proof -
  have n: "Name [] \<notin> set cs" using assms(1) mem_Do_simps(1) by blast
  then show ?thesis
    using assms set_mem_collection [of ns res s] by (auto simp: mem_Do_simps(2-) mem_Get_def mem_collection_def)
qed

interpretation mem_rest: rest_store mem_rest mem_store "\<lambda>r. r"
proof (unfold_locales, goal_cases)
  case (1 s ns res nm x)
  then show ?case by (rule mem_store_kind)
next
  case (2 rq s r s' e)
  then show ?case by (cases rq) (auto simp: mem_rest_def dest!: mem_failed)
next
  case (3 v cs s r s')
  then show ?case using mem_Do_simps(1) by (auto simp: mem_rest_def)
next
  case (4 v cs s r s' q)
  then show ?case using mem_frame by (auto simp: mem_rest_def)
next
  case (5 cs s r s')
  then show ?case using mem_Do_simps(1,2) by (cases "Name [] \<in> set cs") (auto simp: mem_rest_def)
next
  case (6 v cs s r s' nm a)
  then show ?case using mem_object by (auto simp: mem_rest_def)
next
  case (7 cs s r s' y)
  then have n: "Name [] \<notin> set cs" by (auto simp: mem_rest_def dest: mem_Do_simps(1))
  with 7 show ?case
    by (auto simp: mem_rest_def mem_Do_simps(2-) mem_Get_def path_of_def split: if_splits option.splits)
next
  case (8 cs s r s' ns res opts a)
  then show ?case using mem_list by (auto simp: mem_rest_def)
next
  case (9 cs s r s' ns res x y)
  then have n: "Name [] \<notin> set cs" by (auto simp: mem_rest_def dest: mem_Do_simps(1))
  with 9 show ?case
    using the_body_mem [of cs _ x]
    by (auto simp: mem_rest_def mem_Do_simps(2-) mem_Post_def Let_def mem_store_cons split: if_splits option.splits)
next
  case (10 cs s r s' x y)
  then have n: "Name [] \<notin> set cs" by (auto simp: mem_rest_def dest: mem_Do_simps(1))
  with 10 show ?case
    using the_body_mem [of cs _ x]
    by (auto simp: mem_rest_def mem_Do_simps(2-) mem_Put_def Let_def mem_store_cons mem_store_delete path_of_def
        split: if_splits option.splits)
next
  case (11 cs s r s' nm a)
  then have n: "Name [] \<notin> set cs" by (auto simp: mem_rest_def dest: mem_Do_simps(1))
  then have "up_Name (url_of cs) \<noteq> []" using 11(2) up_Name_nonempty by blast
  with 11 n show ?case
    using mem_store_kind marked_mark
    by (auto simp: mem_rest_def mem_Do_simps(2-) mem_Delete_def Let_def mem_store_cons mem_store_delete path_of_def
        split: if_splits option.splits) blast
next
  case (12 r)
  then show ?case by (simp add: mem_rest_def)
qed (auto simp: mem_rest_def mem_into_def one_of_def all_of_def list_all_iff List.map_filter_def comp_def)


interpretation mem_lifetime: rest_lifetime mem_rest mem_store "\<lambda>r. r"
proof (unfold_locales, goal_cases)
  case (1 cs s r s' y)
  then have n: "Name [] \<notin> set cs" by (auto simp: mem_rest_def dest: mem_Do_simps(1))
  with 1 show ?case
    by (auto simp: mem_rest_def mem_Do_simps(2-) mem_Post_def Let_def split: if_splits option.splits prod.splits)
next
  case (2 cs s r s' y x)
  then have n: "Name [] \<notin> set cs" by (auto simp: mem_rest_def dest: mem_Do_simps(1))
  with 2 show ?case
    by (auto simp: mem_rest_def mem_Do_simps(2-) mem_Put_def Let_def split: if_splits option.splits prod.splits)
qed

definition mem_groups :: "restMem \<Rightarrow> nag list" where
  "mem_groups s = List.map_filter (\<lambda>p. if fst p = '''' then Option.bind (mem_store s p) nag_of else None)
     (map fst s)"

lemma find_map_filter:
  assumes "\<And>p g. f p = Some g \<Longrightarrow> p = key (nag_Name g)" and "inj key"
  shows "find_nag nm (List.map_filter f ps) = (if key nm \<in> set ps then f (key nm) else None)"
proof (induction ps)
  case Nil
  then show ?case by (simp add: find_nag_def List.map_filter_def)
next
  case (Cons p ps)
  have "f (key nm) = Some g \<Longrightarrow> nag_Name g = nm" for g using assms by (metis injD)
  then show ?case using Cons assms(1) by (cases "f p") (auto simp: find_nag_def List.map_filter_def)
qed

interpretation mem_cluster_rest: rest_cluster mem_rest mem_store "\<lambda>r. r" "K\<lparr>k_retry := (\<lambda>f. f)\<rparr>" mem_groups for K
proof (unfold_locales, goal_cases)
  case (1 nm s)
  let ?f = "\<lambda>p. if fst p = '''' then Option.bind (mem_store s p) nag_of else None"
  let ?key = "\<lambda>nm. ('''', ''nodeassignmentgroups'', nm)"
  have "?f p = Some g \<Longrightarrow> p = ?key (nag_Name g)" for p g
    by (cases p) (auto split: if_splits elim!: nag_of.elims bind_eq_Some_conv [THEN iffD1, elim_format] dest: mem_store_kind)
  then have "find_nag nm (mem_groups s) = (if ?key nm \<in> set (map fst s) then ?f (?key nm) else None)"
    unfolding mem_groups_def by (rule find_map_filter) (simp_all add: inj_def)
  also have "\<dots> = group_at (mem_store s) nm"
    using mem_store_key [of s "?key nm"] mem_store_kind [of s "''''" "''nodeassignmentgroups''" nm]
    by (cases "mem_store s (?key nm)") (auto simp: group_at_def elim!: nag_of.elims split: cliObject.splits)
  finally show ?case .
next
  case (2 rq s r s' e)
  then show ?case by (cases rq) (auto simp: mem_rest_def dest!: mem_failed)
next
  case (3 f s)
  then show ?case by (simp add: retry_run.last_attempt)
qed

section \<open>The properties\<close>


text \<open>C12: what was created is what is read back, for groups, rules and cluster-wide rules: after a successful
  creation, and any sequence of other calls of which none writes to the same object or its collection, a successful
  read of the same name returns exactly the object the creation returned, with the specification that was sent.\<close>

theorem created_object_is_read_back:
  assumes "rest_store R store payload"
    and "kind_of_call c1 = Create x" and "run_call \<lparr>ac_restClient = R\<rparr> c1 s = ((a, None), s1)"
    and "run_calls \<lparr>ac_restClient = R\<rparr> calls s1 = (answers, s2)"
    and "\<forall>c \<in> set calls. kind_of_call c = Read \<or> \<not> under (target_of c) (target_of c1)"
    and "kind_of_call c2 = Read" and "target_of c2 = target_of c1"
    and "run_call \<lparr>ac_restClient = R\<rparr> c2 s2 = ((b, None), s3)"
  shows "\<exists>y. a = Some y \<and> b = Some y \<and> accepted x y"
proof -
  note created = rest_store.run_call_effect [OF assms(1,3)]
  note read = rest_store.run_call_effect [OF assms(1,8)]
  have "store s2 (target_of c1) = store s1 (target_of c1)"
    using rest_store.run_calls_other [OF assms(1,4,5)] .
  then show ?thesis using created read assms(2,6,7) by (auto simp: api_effect_def Let_def)
qed

context rest_cluster
begin

text \<open>The group \<^verbatim>\<open>Get\<close> leaves behind when it fails has no name, and an update of it is refused.\<close>

lemma attempt_after_failed_read:
  assumes "nags_Get (newNodeAssignmentGroups \<lparr>ac_restClient = R\<rparr>) nm no_getOptions s = ((g, Some err), s1)"
    and "addFinalizer_attempt (typed_kube K \<lparr>ac_restClient = R\<rparr>) nm s = (r, s') \<or>
      removeFinalizer_attempt (typed_kube K \<lparr>ac_restClient = R\<rparr>) nm s = (r, s')"
  shows "r \<noteq> None \<and> nagview s' = nagview s"
proof -
  let ?k = "typed_kube K \<lparr>ac_restClient = R\<rparr>"
  have g: "k_nagsGet ?k nm s = ((g, Some err), s1)" using assms(1) by (simp add: typed_kube_def)
  then have s1: "s1 = s" and z: "nag_Name g = []" using over_rest.nag_get_err over_rest.nag_get_zero by blast+
  obtain fs where u: "k_nagsUpdate ?k (set_Finalizers g fs) s = (r, s')"
    using assms(2) by (auto simp: addFinalizer_attempt_def removeFinalizer_attempt_def g s1)
  have "r \<noteq> None" using over_rest.nag_update_empty [of "set_Finalizers g fs" s] z u by (simp add: set_Finalizers_def)
  then show ?thesis using over_rest.nag_update_err u by blast
qed

lemmas over_rest_finalizers = over_rest.AddFinalizer_effect over_rest.RemoveFinalizer_effect

end

text \<open>C13: the finalizer protocol holds over the wire. With the group client of the code in place of the abstract
  one, a finalizer that \<^verbatim>\<open>AddFinalizer\<close> reports as added, or \<^verbatim>\<open>RemoveFinalizer\<close> as removed, is the only change of
  the finalizers of that group and of nothing else. And although both functions send their update even when the read
  before it failed, that is harmless: the group they send is then the zero value, whose empty name the REST client
  refuses, so the attempt ends with an error and no group changes.\<close>

theorem finalizers_over_rest:
  assumes "rest_cluster R store payload K nagview"
  shows "(\<forall>e s'. AddFinalizer (typed_kube K \<lparr>ac_restClient = R\<rparr>) nag s = ((True, e), s') \<longrightarrow> e = None \<and>
      finalizers_updated (nag_Name nag) (\<lambda>fs. fs @ [nagFinalizer]) (nagview s) (nagview s')) \<and>
    (\<forall>s'. RemoveFinalizer (typed_kube K \<lparr>ac_restClient = R\<rparr>) nag s = (None, s') \<longrightarrow>
      finalizers_updated (nag_Name nag) (filter (\<lambda>f. f \<noteq> nagFinalizer)) (nagview s) (nagview s')) \<and>
    (\<forall>g err s1 r s'. nags_Get (newNodeAssignmentGroups \<lparr>ac_restClient = R\<rparr>) (nag_Name nag) no_getOptions s = ((g, Some err), s1) \<longrightarrow>
      addFinalizer_attempt (typed_kube K \<lparr>ac_restClient = R\<rparr>) (nag_Name nag) s = (r, s') \<or>
      removeFinalizer_attempt (typed_kube K \<lparr>ac_restClient = R\<rparr>) (nag_Name nag) s = (r, s') \<longrightarrow>
      r \<noteq> None \<and> nagview s' = nagview s)"
  using rest_cluster.over_rest_finalizers [OF assms] rest_cluster.attempt_after_failed_read [OF assms] by blast

section \<open>Witnesses\<close>

definition demo_rule :: "string \<Rightarrow> podAssignmentRule" where
  "demo_rule nm = \<lparr>par_meta = cli_meta nm ''team'', par_Spec = zero_ruleSpec\<lparr>par_TargetLabels := [(''app'', ''db'')]\<rparr>\<rparr>"

lemmas demo_rest_simps = as_answer_def no_answer_def par_methods new_clients do_into_def do_error_def mem_rest_def mem_Do_def
  mem_ops path_of_def url_of_def the_body_def List.map_filter_def mem_store_def mem_into_def one_of_def demo_rule_def Let_def
  cli_meta_def




theorem created_object_is_read_back_witness:
  "\<exists>y. fst (fst (run_call \<lparr>ac_restClient = mem_rest\<rparr> (ParGet ''team'' ''web'' no_getOptions)
        (snd (run_calls \<lparr>ac_restClient = mem_rest\<rparr> [ParCreate ''other'' (demo_rule ''web''), ParDelete ''other'' ''web'' None]
           (snd (run_call \<lparr>ac_restClient = mem_rest\<rparr> (ParCreate ''team'' (demo_rule ''web'')) [])))))) = Some y \<and>
     accepted (ParObj (demo_rule ''web'')) y"
proof -
  let ?c = "\<lparr>ac_restClient = mem_rest\<rparr>"
  let ?c1 = "ParCreate ''team'' (demo_rule ''web'')" and ?c2 = "ParGet ''team'' ''web'' no_getOptions"
  let ?calls = "[ParCreate ''other'' (demo_rule ''web''), ParDelete ''other'' ''web'' None]"
  let ?s1 = "[((''team'', ''podassignmentrules'', ''web''), ParObj (demo_rule ''web''))]"
  have r: "run_call ?c ?c1 [] = ((Some (ParObj (demo_rule ''web'')), None), ?s1)"
    by (simp add: demo_rest_simps)
  obtain answers where a: "run_calls ?c ?calls ?s1 = (answers, ?s1)"
    by (simp add: demo_rest_simps)
  have g: "run_call ?c ?c2 ?s1 = ((Some (ParObj (demo_rule ''web'')), None), ?s1)"
    by (simp add: demo_rest_simps)
  have "\<exists>y. Some (ParObj (demo_rule ''web'')) = Some y \<and> Some (ParObj (demo_rule ''web'')) = Some y \<and>
      accepted (ParObj (demo_rule ''web'')) y"
    by (rule created_object_is_read_back [OF mem_rest.rest_store_axioms _ r a _ _ _ g])
      (simp_all add: under_def demo_rule_def cli_meta_def)
  then show ?thesis using r a g by simp
qed

text \<open>A cluster without nodes; its groups are on the REST server.\<close>

definition nodeless :: "(restMem, node, node \<times> node) kube" where
  "nodeless = \<lparr>k_nodesList = (\<lambda>s. (Inr [], s)), k_nodesGet = (\<lambda>nm s. (Inl (NotFound nm), s)),
     k_nodesPatch = (\<lambda>nm p s. (Some (NotFound nm), s)), k_nagsGet = (\<lambda>nm s. ((zero_nag, Some (NotFound nm)), s)),
     k_nagsUpdate = (\<lambda>g s. (Some (NotFound (nag_Name g)), s)), k_marshal = Inr, k_createPatch = (\<lambda>a b. Inr (a, b)),
     k_patchBytes = (\<lambda>p. ''{}''), k_match = match_ref, k_retry = (\<lambda>f. f), k_range = (\<lambda>ks. ks)\<rparr>"

theorem finalizers_over_rest_witness:
  "\<exists>s'. RemoveFinalizer (typed_kube (nodeless\<lparr>k_retry := (\<lambda>f. f)\<rparr>) \<lparr>ac_restClient = mem_rest\<rparr>) demo_live
       [(('''', ''nodeassignmentgroups'', ''io''), NagObj demo_live)] = (None, s') \<and>
     finalizers_updated ''io'' (filter (\<lambda>f. f \<noteq> nagFinalizer))
       (mem_groups [(('''', ''nodeassignmentgroups'', ''io''), NagObj demo_live)]) (mem_groups s')"
proof -
  let ?k = "typed_kube (nodeless\<lparr>k_retry := (\<lambda>f. f)\<rparr>) \<lparr>ac_restClient = mem_rest\<rparr>"
  let ?s = "[(('''', ''nodeassignmentgroups'', ''io''), NagObj demo_live)]"
  obtain e s' where r: "RemoveFinalizer ?k demo_live ?s = (e, s')" by force
  then have "e = None"
    by (simp add: RemoveFinalizer_def removeFinalizer_attempt_def typed_kube_def nag_methods new_clients do_into_def
        mem_rest_def mem_Do_def mem_ops path_of_def url_of_def the_body_def List.map_filter_def mem_store_def mem_into_def
        one_of_def set_Finalizers_def Let_def split: if_splits)
  then show ?thesis
    using finalizers_over_rest [OF mem_cluster_rest.rest_cluster_axioms, of nodeless demo_live ?s] r by auto
qed

end
