(* ===== verification/ClientSet.thy ===== *)
theory ClientSet
  imports TypedClients GoFloat
begin

text \<open>
  How a client comes about: \<^verbatim>\<open>clientset.go\<close>, the configuration part of \<^verbatim>\<open>assignments_client.go\<close>, and the
  registration of the types (\<^verbatim>\<open>register.go\<close> of the API package and of \<^verbatim>\<open>clientset/versioned/scheme\<close>). A REST
  configuration is passed by pointer and copied before it is changed: the functions take it as a value. What client-go
  builds from it is the record \<open>clientLibs\<close>; the runtime scheme with its three operations is the record \<open>schemeLibs\<close>,
  whose documented behaviour is the locale \<open>runtime_scheme\<close>.
\<close>

section \<open>Names\<close>

definition SchemeGroupVersion :: "string \<times> string" where
  "SchemeGroupVersion = (GroupName, ''v1alpha1'')"

definition PodAssignmentRuleResourceNamePlural :: string where
  "PodAssignmentRuleResourceNamePlural = ''podassignmentrules''"
definition ClusterPodAssignmentRuleResourceNamePlural :: string where
  "ClusterPodAssignmentRuleResourceNamePlural = ''clusterpodassignmentrules''"
definition NodeAssignmentGroupResourceNamePlural :: string where
  "NodeAssignmentGroupResourceNamePlural = ''nodeassignmentgroups''"

definition ClusterPodAssignmentRuleCRDName :: string where
  "ClusterPodAssignmentRuleCRDName = ClusterPodAssignmentRuleResourceNamePlural @ ''.'' @ GroupName"
definition NodeAssignmentGroupCRDName :: string where
  "NodeAssignmentGroupCRDName = NodeAssignmentGroupResourceNamePlural @ ''.'' @ GroupName"

definition Kind_of_group :: "string \<Rightarrow> string \<times> string" where
  "Kind_of_group kind = (fst SchemeGroupVersion, kind)"

definition Resource_of_group :: "string \<Rightarrow> string \<times> string" where
  "Resource_of_group resource = (fst SchemeGroupVersion, resource)"

section \<open>The scheme\<close>

datatype goType =
    TPodAssignmentRule | TPodAssignmentRuleList | TClusterPodAssignmentRule | TClusterPodAssignmentRuleList
  | TNodeAssignmentGroup | TNodeAssignmentGroupList

record 'S schemeLibs =
  sl_AddKnownTypes :: "string \<times> string \<Rightarrow> goType list \<Rightarrow> 'S \<Rightarrow> 'S"
  sl_AddToGroupVersion :: "string \<times> string \<Rightarrow> 'S \<Rightarrow> 'S"
  sl_AddToScheme :: "('S \<Rightarrow> goerr option \<times> 'S) list \<Rightarrow> 'S \<Rightarrow> goerr option \<times> 'S"   \<comment> \<open>\<^verbatim>\<open>SchemeBuilder.AddToScheme\<close>\<close>

definition addKnownTypes :: "'S schemeLibs \<Rightarrow> 'S \<Rightarrow> goerr option \<times> 'S" where
  "addKnownTypes L scheme =
     (None, sl_AddToGroupVersion L SchemeGroupVersion
        (sl_AddKnownTypes L SchemeGroupVersion
           [TPodAssignmentRule, TPodAssignmentRuleList, TClusterPodAssignmentRule, TClusterPodAssignmentRuleList,
            TNodeAssignmentGroup, TNodeAssignmentGroupList] scheme))"

definition AddToScheme :: "'S schemeLibs \<Rightarrow> 'S \<Rightarrow> goerr option \<times> 'S" where
  "AddToScheme L = sl_AddToScheme L [addKnownTypes L]"

text \<open>The scheme of the clientset, built by its \<^verbatim>\<open>init\<close>.\<close>

definition clientset_AddToScheme :: "'S schemeLibs \<Rightarrow> 'S \<Rightarrow> goerr option \<times> 'S" where
  "clientset_AddToScheme L = sl_AddToScheme L [AddToScheme L]"

definition scheme_init :: "'S schemeLibs \<Rightarrow> 'S \<Rightarrow> gopanic + 'S" where
  "scheme_init L scheme =
     (case clientset_AddToScheme L (sl_AddToGroupVersion L ('''', ''v1'') scheme) of
        (Some err, s) \<Rightarrow> Inl (PanicError err) | (None, s) \<Rightarrow> Inr s)"

locale runtime_scheme =
  fixes L :: "'S schemeLibs" and known :: "'S \<Rightarrow> ((string \<times> string) \<times> goType) set"
  assumes adds: "known (sl_AddKnownTypes L gv tys s) = known s \<union> {gv} \<times> set tys"
    and versions: "known (sl_AddToGroupVersion L gv s) = known s"
    and builder_nil: "sl_AddToScheme L [] s = (None, s)"
    and builder_cons: "sl_AddToScheme L (g # gs) s = (case g s of (None, s') \<Rightarrow> sl_AddToScheme L gs s' | (Some e, s') \<Rightarrow> (Some e, s'))"
begin

lemma scheme_init_known:
  "\<exists>s'. scheme_init L s = Inr s' \<and> known s' = known s \<union> {SchemeGroupVersion} \<times> UNIV"
proof -
  have "ty \<in> set [TPodAssignmentRule, TPodAssignmentRuleList, TClusterPodAssignmentRule,
      TClusterPodAssignmentRuleList, TNodeAssignmentGroup, TNodeAssignmentGroupList]" for ty by (cases ty) simp_all
  then have "set [TPodAssignmentRule, TPodAssignmentRuleList, TClusterPodAssignmentRule,
      TClusterPodAssignmentRuleList, TNodeAssignmentGroup, TNodeAssignmentGroupList] = UNIV" by blast
  then show ?thesis
    by (simp add: scheme_init_def clientset_AddToScheme_def AddToScheme_def addKnownTypes_def builder_cons builder_nil
        adds versions del: set_simps)
qed

end

text \<open>A scheme that is the list of what was registered.\<close>

fun run_builder :: "('S \<Rightarrow> goerr option \<times> 'S) list \<Rightarrow> 'S \<Rightarrow> goerr option \<times> 'S" where
  "run_builder [] s = (None, s)"
| "run_builder (g # gs) s = (case g s of (None, s') \<Rightarrow> run_builder gs s' | (Some e, s') \<Rightarrow> (Some e, s'))"

definition list_scheme :: "((string \<times> string) \<times> goType) list schemeLibs" where
  "list_scheme = \<lparr>sl_AddKnownTypes = (\<lambda>gv tys s. s @ map (Pair gv) tys), sl_AddToGroupVersion = (\<lambda>gv s. s),
     sl_AddToScheme = run_builder\<rparr>"

lemma list_scheme_simps [simp]:
  "sl_AddKnownTypes list_scheme gv tys s = s @ map (Pair gv) tys" "sl_AddToGroupVersion list_scheme gv s = s"
  "sl_AddToScheme list_scheme = run_builder"
  by (simp_all add: list_scheme_def)

interpretation list_scheme: runtime_scheme list_scheme set
  by unfold_locales (auto split: prod.splits option.splits)

section \<open>Configurations and clients\<close>

text \<open>\<open>'l\<close> is a rate limiter, \<open>'z\<close> a serializer; \<^verbatim>\<open>QPS\<close> is a \<^verbatim>\<open>float32\<close>, given as the number it stands for.\<close>

record ('l, 'z) restConfig =
  cf_Host :: string
  cf_APIPath :: string
  cf_GroupVersion :: "(string \<times> string) option"
  cf_NegotiatedSerializer :: "'z option"
  cf_UserAgent :: string
  cf_QPS :: rat
  cf_Burst :: int
  cf_RateLimiter :: "'l option"

record ('s, 'r, 'w, 'l, 'z, 'd) clientLibs =
  cl_RESTClientFor :: "('l, 'z) restConfig \<Rightarrow> goerr + ('s, 'r, 'w) restClient"
  cl_NewDiscoveryClientForConfig :: "('l, 'z) restConfig \<Rightarrow> goerr + 'd"
  cl_NewDiscoveryClientForConfigOrDie :: "('l, 'z) restConfig \<Rightarrow> gopanic + 'd"
  cl_NewDiscoveryClient :: "('s, 'r, 'w) restClient \<Rightarrow> 'd"
  cl_NewTokenBucketRateLimiter :: "rat \<Rightarrow> int \<Rightarrow> 'l"
  cl_DefaultKubernetesUserAgent :: string
  cl_WithoutConversion :: 'z

definition setConfigDefaults :: "('s, 'r, 'w, 'l, 'z, 'd) clientLibs \<Rightarrow> ('l, 'z) restConfig \<Rightarrow> goerr option \<times> ('l, 'z) restConfig" where
  "setConfigDefaults E config =
     (let config = config\<lparr>cf_GroupVersion := Some SchemeGroupVersion, cf_APIPath := ''/apis'',
            cf_NegotiatedSerializer := Some (cl_WithoutConversion E)\<rparr>
      in (None, if cf_UserAgent config = '''' then config\<lparr>cf_UserAgent := cl_DefaultKubernetesUserAgent E\<rparr> else config))"

definition v1alpha1_NewForConfig ::
    "('s, 'r, 'w, 'l, 'z, 'd) clientLibs \<Rightarrow> ('l, 'z) restConfig \<Rightarrow> goerr + ('s, 'r, 'w) assignmentsV1alpha1Client" where
  "v1alpha1_NewForConfig E c =
     (case setConfigDefaults E c of
        (Some err, config) \<Rightarrow> Inl err
      | (None, config) \<Rightarrow>
          (case cl_RESTClientFor E config of Inl err \<Rightarrow> Inl err | Inr client \<Rightarrow> Inr \<lparr>ac_restClient = client\<rparr>))"

definition v1alpha1_NewForConfigOrDie ::
    "('s, 'r, 'w, 'l, 'z, 'd) clientLibs \<Rightarrow> ('l, 'z) restConfig \<Rightarrow> gopanic + ('s, 'r, 'w) assignmentsV1alpha1Client" where
  "v1alpha1_NewForConfigOrDie E c =
     (case v1alpha1_NewForConfig E c of Inl err \<Rightarrow> Inl (PanicError err) | Inr client \<Rightarrow> Inr client)"

definition v1alpha1_New :: "('s, 'r, 'w) restClient \<Rightarrow> ('s, 'r, 'w) assignmentsV1alpha1Client" where
  "v1alpha1_New c = \<lparr>ac_restClient = c\<rparr>"

record ('s, 'r, 'w, 'd) clientset =
  cs_DiscoveryClient :: 'd
  cs_assignmentsV1alpha1 :: "('s, 'r, 'w) assignmentsV1alpha1Client"

definition Discovery :: "('s, 'r, 'w, 'd) clientset option \<Rightarrow> 'd option" where
  "Discovery c = (case c of None \<Rightarrow> None | Some c \<Rightarrow> Some (cs_DiscoveryClient c))"

definition NewForConfig ::
    "('s, 'r, 'w, 'l, 'z, 'd) clientLibs \<Rightarrow> ('l, 'z) restConfig \<Rightarrow> goerr + ('s, 'r, 'w, 'd) clientset" where
  "NewForConfig E c =
     (let limited = c\<lparr>cf_RateLimiter := Some (cl_NewTokenBucketRateLimiter E (cf_QPS c) (cf_Burst c))\<rparr>;
          fresh = cf_RateLimiter c = None \<and> cf_QPS c > 0
      in if fresh \<and> cf_Burst c \<le> 0 then Inl (OtherErr ''Burst is required to be greater than 0'')
         else (let config = if fresh then limited else c
               in case v1alpha1_NewForConfig E config of
                    Inl err \<Rightarrow> Inl err
                  | Inr assignments \<Rightarrow>
                      (case cl_NewDiscoveryClientForConfig E config of
                         Inl err \<Rightarrow> Inl err
                       | Inr disc \<Rightarrow> Inr \<lparr>cs_DiscoveryClient = disc, cs_assignmentsV1alpha1 = assignments\<rparr>)))"

definition NewForConfigOrDie ::
    "('s, 'r, 'w, 'l, 'z, 'd) clientLibs \<Rightarrow> ('l, 'z) restConfig \<Rightarrow> gopanic + ('s, 'r, 'w, 'd) clientset" where
  "NewForConfigOrDie E c =
     (case v1alpha1_NewForConfigOrDie E c of
        Inl p \<Rightarrow> Inl p
      | Inr assignments \<Rightarrow>
          (case cl_NewDiscoveryClientForConfigOrDie E c of
             Inl p \<Rightarrow> Inl p
           | Inr disc \<Rightarrow> Inr \<lparr>cs_DiscoveryClient = disc, cs_assignmentsV1alpha1 = assignments\<rparr>))"

definition New_clientset ::
    "('s, 'r, 'w, 'l, 'z, 'd) clientLibs \<Rightarrow> ('s, 'r, 'w) restClient \<Rightarrow> ('s, 'r, 'w, 'd) clientset" where
  "New_clientset E c = \<lparr>cs_DiscoveryClient = cl_NewDiscoveryClient E c, cs_assignmentsV1alpha1 = v1alpha1_New c\<rparr>"

section \<open>What the constructors promise\<close>

text \<open>A clientset exists exactly if the burst is acceptable and the libraries accept the configurations they get; its
  two clients share one rate limiter, and the client of the group talks to the group and version of the types.\<close>

definition effective :: "('s, 'r, 'w, 'l, 'z, 'd) clientLibs \<Rightarrow> ('l, 'z) restConfig \<Rightarrow> ('l, 'z) restConfig" where
  "effective E c =
     (if cf_RateLimiter c = None \<and> cf_QPS c > 0
      then c\<lparr>cf_RateLimiter := Some (cl_NewTokenBucketRateLimiter E (cf_QPS c) (cf_Burst c))\<rparr> else c)"

lemma setConfigDefaults_config:
  "fst (setConfigDefaults E c) = None"
  "cf_RateLimiter (snd (setConfigDefaults E c)) = cf_RateLimiter c"
  "cf_GroupVersion (snd (setConfigDefaults E c)) = Some SchemeGroupVersion"
  "cf_APIPath (snd (setConfigDefaults E c)) = ''/apis''"
  "cf_UserAgent (snd (setConfigDefaults E c)) = (if cf_UserAgent c = '''' then cl_DefaultKubernetesUserAgent E else cf_UserAgent c)"
  by (simp_all add: setConfigDefaults_def Let_def)

lemma NewForConfig_ok_iff:
  "NewForConfig E c = Inr cs \<longleftrightarrow>
     (cf_RateLimiter c = None \<and> cf_QPS c > 0 \<longrightarrow> cf_Burst c > 0) \<and>
     cl_RESTClientFor E (snd (setConfigDefaults E (effective E c))) = Inr (ac_restClient (cs_assignmentsV1alpha1 cs)) \<and>
     cl_NewDiscoveryClientForConfig E (effective E c) = Inr (cs_DiscoveryClient cs)"
  by (cases "snd (setConfigDefaults E (effective E c))")
    (auto simp: NewForConfig_def v1alpha1_NewForConfig_def effective_def Let_def setConfigDefaults_def
      split: sum.splits)

text \<open>\<^verbatim>\<open>NewForConfigOrDie\<close> neither checks the burst nor makes a limiter: it accepts configurations that \<^verbatim>\<open>NewForConfig\<close>
  refuses, and its two clients then each get a limiter of their own from the libraries.\<close>

lemma OrDie_skips_burst_check:
  assumes "cf_RateLimiter c = None" and "cf_QPS c > 0" and "cf_Burst c \<le> 0"
    and "cl_RESTClientFor E (snd (setConfigDefaults E c)) = Inr r" and "cl_NewDiscoveryClientForConfigOrDie E c = Inr d"
  shows "(\<exists>e. NewForConfig E c = Inl e) \<and>
    NewForConfigOrDie E c = Inr \<lparr>cs_DiscoveryClient = d, cs_assignmentsV1alpha1 = \<lparr>ac_restClient = r\<rparr>\<rparr>"
  using assms by (auto simp: NewForConfig_def NewForConfigOrDie_def v1alpha1_NewForConfigOrDie_def v1alpha1_NewForConfig_def
      setConfigDefaults_def Let_def)

end
