(* ===== verification/FakeClients.thy ===== *)
theory FakeClients
  imports RestMem ClientSet
begin

text \<open>
  The fake clientset: \<^verbatim>\<open>clientset/versioned/fake\<close> and \<^verbatim>\<open>typed/assignments/v1alpha1/fake\<close>. A method of a fake client
  hands an action and a default object to \<^verbatim>\<open>testing.Fake\<close> and asserts the type of what comes back. The package
  \<^verbatim>\<open>k8s.io/client-go/testing\<close> is a record of functions; the behaviour documented of its object tracker is the locale
  \<open>object_tracker\<close>. On it the fake clients meet the specification of the real ones (\<open>api_effect\<close>): a test against
  the fakes exercises the same calls. They differ in what a failed read returns: nil instead of an empty object.
\<close>

section \<open>Actions\<close>

type_synonym gvResource = "string \<times> string \<times> string"   \<comment> \<open>group, version and resource (or kind)\<close>

text \<open>\<^verbatim>\<open>NewRootGetAction(r, name)\<close> is \<open>GetAction None r name\<close>, \<^verbatim>\<open>NewGetAction(r, ns, name)\<close> is
  \<open>GetAction (Some ns) r name\<close>, and so on.\<close>

datatype fakeAction =
    GetAction "string option" gvResource string
  | ListAction "string option" gvResource gvResource listOptions
  | WatchAction "string option" gvResource listOptions
  | CreateAction "string option" gvResource cliObject
  | UpdateAction "string option" gvResource cliObject
  | UpdateSubresourceAction "string option" gvResource string cliObject
  | DeleteAction "string option" gvResource string
  | DeleteCollectionAction "string option" gvResource listOptions
  | PatchSubresourceAction "string option" gvResource string string string "string list"

datatype fakeObject =
    FOne cliObject
  | FNags "nag objectList"
  | FPars "podAssignmentRule objectList"
  | FCpars "clusterPodAssignmentRule objectList"

text \<open>\<^verbatim>\<open>testing.Fake\<close>, with the function \<^verbatim>\<open>ExtractFromListOptions\<close> of its package (the label selector, or nil).\<close>

record ('s, 'w) fake =
  fk_Invokes :: "fakeAction \<Rightarrow> fakeObject \<Rightarrow> 's \<Rightarrow> (fakeObject option \<times> goerr option) \<times> 's"
  fk_InvokesWatch :: "fakeAction \<Rightarrow> 's \<Rightarrow> ('w option \<times> goerr option) \<times> 's"
  fk_ExtractLabel :: "listOptions \<Rightarrow> (string gomap \<Rightarrow> bool) option"

type_synonym ('a, 's) fakeCall = "'s \<Rightarrow> (gopanic + 'a option \<times> goerr option) \<times> 's"

text \<open>\<^verbatim>\<open>if obj == nil { return nil, err }; return obj.(*T), err\<close>.\<close>

definition obj_or_nil :: "(fakeObject \<Rightarrow> 'a option) \<Rightarrow> (fakeObject option \<times> goerr option) \<times> 's \<Rightarrow>
    (gopanic + 'a option \<times> goerr option) \<times> 's" where
  "obj_or_nil as r =
     (case r of
        ((None, err), s) \<Rightarrow> (Inr (None, err), s)
      | ((Some obj, err), s) \<Rightarrow> (case as obj of None \<Rightarrow> (Inl BadAssertion, s) | Some x \<Rightarrow> (Inr (Some x, err), s)))"

text \<open>\<^verbatim>\<open>_, err := Invokes(...); return err\<close>.\<close>

definition only_err :: "(fakeObject option \<times> goerr option) \<times> 's \<Rightarrow> goerr option \<times> 's" where
  "only_err r = (case r of ((_, err), s) \<Rightarrow> (err, s))"

text \<open>The loop over the items of a list: those whose labels match are kept, in order.\<close>

fun matching_items :: "(string gomap \<Rightarrow> bool) \<Rightarrow> ('a \<Rightarrow> objectMeta) \<Rightarrow> 'a list \<Rightarrow> 'a list \<Rightarrow> 'a list" where
  "matching_items label meta [] items = items"
| "matching_items label meta (item # rest) items =
     matching_items label meta rest (if label (om_Labels (meta item)) then items @ [item] else items)"

definition match_list :: "(string gomap \<Rightarrow> bool) option \<Rightarrow> ('a \<Rightarrow> objectMeta) \<Rightarrow> 'a objectList \<Rightarrow> 'a objectList" where
  "match_list label meta l =
     \<lparr>ol_ResourceVersion = ol_ResourceVersion l,
      ol_Items = matching_items (case label of None \<Rightarrow> (\<lambda>_. True) | Some m \<Rightarrow> m) meta (ol_Items l) []\<rparr>"

fun as_nag :: "fakeObject \<Rightarrow> nag option" where
  "as_nag (FOne y) = nag_of y" | "as_nag _ = None"
fun as_par :: "fakeObject \<Rightarrow> podAssignmentRule option" where
  "as_par (FOne y) = par_of y" | "as_par _ = None"
fun as_cpar :: "fakeObject \<Rightarrow> clusterPodAssignmentRule option" where
  "as_cpar (FOne y) = cpar_of y" | "as_cpar _ = None"
fun as_nags :: "fakeObject \<Rightarrow> nag objectList option" where
  "as_nags (FNags l) = Some l" | "as_nags _ = None"
fun as_pars :: "fakeObject \<Rightarrow> podAssignmentRule objectList option" where
  "as_pars (FPars l) = Some l" | "as_pars _ = None"
fun as_cpars :: "fakeObject \<Rightarrow> clusterPodAssignmentRule objectList option" where
  "as_cpars (FCpars l) = Some l" | "as_cpars _ = None"

section \<open>The clients\<close>

record ('s, 'w) fakeAssignmentsV1alpha1 =
  fa_Fake :: "('s, 'w) fake"

record ('s, 'w) fakeNodeAssignmentGroups =
  fn_Fake :: "('s, 'w) fakeAssignmentsV1alpha1"

record ('s, 'w) fakePodAssignmentRules =
  fp_Fake :: "('s, 'w) fakeAssignmentsV1alpha1"
  fp_ns :: string

record ('s, 'w) fakeClusterPodAssignmentRules =
  fc_Fake :: "('s, 'w) fakeAssignmentsV1alpha1"

definition fake_NodeAssignmentGroups :: "('s, 'w) fakeAssignmentsV1alpha1 \<Rightarrow> ('s, 'w) fakeNodeAssignmentGroups" where
  "fake_NodeAssignmentGroups c = \<lparr>fn_Fake = c\<rparr>"

definition fake_PodAssignmentRules :: "('s, 'w) fakeAssignmentsV1alpha1 \<Rightarrow> string \<Rightarrow> ('s, 'w) fakePodAssignmentRules" where
  "fake_PodAssignmentRules c namespace = \<lparr>fp_Fake = c, fp_ns = namespace\<rparr>"

definition fake_ClusterPodAssignmentRules :: "('s, 'w) fakeAssignmentsV1alpha1 \<Rightarrow> ('s, 'w) fakeClusterPodAssignmentRules" where
  "fake_ClusterPodAssignmentRules c = \<lparr>fc_Fake = c\<rparr>"

text \<open>\<^verbatim>\<open>RESTClient\<close> returns a nil pointer.\<close>

definition fake_RESTClient :: "('s, 'w) fakeAssignmentsV1alpha1 \<Rightarrow> ('s, 'r, 'w) restClient option" where
  "fake_RESTClient c = None"

abbreviation fn_Invokes where "fn_Invokes c \<equiv> fk_Invokes (fa_Fake (fn_Fake c))"
abbreviation fp_Invokes where "fp_Invokes c \<equiv> fk_Invokes (fa_Fake (fp_Fake c))"
abbreviation fc_Invokes where "fc_Invokes c \<equiv> fk_Invokes (fa_Fake (fc_Fake c))"


subsection \<open>Groups\<close>

definition nodeassignmentgroupsResource :: gvResource where
  "nodeassignmentgroupsResource = (''assignments.kube-valet.io'', ''v1alpha1'', ''nodeassignmentgroups'')"
definition nodeassignmentgroupsKind :: gvResource where
  "nodeassignmentgroupsKind = (''assignments.kube-valet.io'', ''v1alpha1'', ''NodeAssignmentGroup'')"

definition fake_nags_Get :: "('s, 'w) fakeNodeAssignmentGroups \<Rightarrow> string \<Rightarrow> getOptions \<Rightarrow> (nag, 's) fakeCall" where
  "fake_nags_Get c name options s =
     obj_or_nil as_nag (fn_Invokes c (GetAction None nodeassignmentgroupsResource name) (FOne (NagObj zero_nag)) s)"

definition fake_nags_List :: "('s, 'w) fakeNodeAssignmentGroups \<Rightarrow> listOptions \<Rightarrow> (nag objectList, 's) fakeCall" where
  "fake_nags_List c opts s =
     (case fn_Invokes c (ListAction None nodeassignmentgroupsResource nodeassignmentgroupsKind opts) (FNags zero_list) s of
        ((None, err), s1) \<Rightarrow> (Inr (None, err), s1)
      | ((Some obj, err), s1) \<Rightarrow>
          (case as_nags obj of
             None \<Rightarrow> (Inl BadAssertion, s1)
           | Some l \<Rightarrow> (Inr (Some (match_list (fk_ExtractLabel (fa_Fake (fn_Fake c)) opts) nag_meta l), err), s1)))"

definition fake_nags_Watch :: "('s, 'w) fakeNodeAssignmentGroups \<Rightarrow> listOptions \<Rightarrow> 's \<Rightarrow> ('w option \<times> goerr option) \<times> 's" where
  "fake_nags_Watch c opts s = fk_InvokesWatch (fa_Fake (fn_Fake c)) (WatchAction None nodeassignmentgroupsResource opts) s"

definition fake_nags_Create :: "('s, 'w) fakeNodeAssignmentGroups \<Rightarrow> nag \<Rightarrow> (nag, 's) fakeCall" where
  "fake_nags_Create c obj s =
     obj_or_nil as_nag (fn_Invokes c (CreateAction None nodeassignmentgroupsResource (NagObj obj)) (FOne (NagObj zero_nag)) s)"

definition fake_nags_Update :: "('s, 'w) fakeNodeAssignmentGroups \<Rightarrow> nag \<Rightarrow> (nag, 's) fakeCall" where
  "fake_nags_Update c obj s =
     obj_or_nil as_nag (fn_Invokes c (UpdateAction None nodeassignmentgroupsResource (NagObj obj)) (FOne (NagObj zero_nag)) s)"

definition fake_nags_UpdateStatus :: "('s, 'w) fakeNodeAssignmentGroups \<Rightarrow> nag \<Rightarrow> (nag, 's) fakeCall" where
  "fake_nags_UpdateStatus c obj s =
     obj_or_nil as_nag (fn_Invokes c (UpdateSubresourceAction None nodeassignmentgroupsResource ''status'' (NagObj obj)) (FOne (NagObj zero_nag)) s)"

definition fake_nags_Delete :: "('s, 'w) fakeNodeAssignmentGroups \<Rightarrow> string \<Rightarrow> deleteOptions option \<Rightarrow> 's \<Rightarrow> goerr option \<times> 's" where
  "fake_nags_Delete c name options s = only_err (fn_Invokes c (DeleteAction None nodeassignmentgroupsResource name) (FOne (NagObj zero_nag)) s)"

definition fake_nags_DeleteCollection :: "('s, 'w) fakeNodeAssignmentGroups \<Rightarrow> deleteOptions option \<Rightarrow> listOptions \<Rightarrow> 's \<Rightarrow> goerr option \<times> 's" where
  "fake_nags_DeleteCollection c options listOpts s =
     only_err (fn_Invokes c (DeleteCollectionAction None nodeassignmentgroupsResource listOpts) (FNags zero_list) s)"

definition fake_nags_Patch :: "('s, 'w) fakeNodeAssignmentGroups \<Rightarrow> string \<Rightarrow> string \<Rightarrow> string \<Rightarrow> string list \<Rightarrow> (nag, 's) fakeCall" where
  "fake_nags_Patch c name pt data subresources s =
     obj_or_nil as_nag (fn_Invokes c (PatchSubresourceAction None nodeassignmentgroupsResource name pt data subresources) (FOne (NagObj zero_nag)) s)"

subsection \<open>Rules of a namespace\<close>

definition podassignmentrulesResource :: gvResource where
  "podassignmentrulesResource = (''assignments.kube-valet.io'', ''v1alpha1'', ''podassignmentrules'')"
definition podassignmentrulesKind :: gvResource where
  "podassignmentrulesKind = (''assignments.kube-valet.io'', ''v1alpha1'', ''PodAssignmentRule'')"

definition fake_pars_Get :: "('s, 'w) fakePodAssignmentRules \<Rightarrow> string \<Rightarrow> getOptions \<Rightarrow> (podAssignmentRule, 's) fakeCall" where
  "fake_pars_Get c name options s =
     obj_or_nil as_par (fp_Invokes c (GetAction (Some (fp_ns c)) podassignmentrulesResource name) (FOne (ParObj zero_par)) s)"

definition fake_pars_List :: "('s, 'w) fakePodAssignmentRules \<Rightarrow> listOptions \<Rightarrow> (podAssignmentRule objectList, 's) fakeCall" where
  "fake_pars_List c opts s =
     (case fp_Invokes c (ListAction (Some (fp_ns c)) podassignmentrulesResource podassignmentrulesKind opts) (FPars zero_list) s of
        ((None, err), s1) \<Rightarrow> (Inr (None, err), s1)
      | ((Some obj, err), s1) \<Rightarrow>
          (case as_pars obj of
             None \<Rightarrow> (Inl BadAssertion, s1)
           | Some l \<Rightarrow> (Inr (Some (match_list (fk_ExtractLabel (fa_Fake (fp_Fake c)) opts) par_meta l), err), s1)))"

definition fake_pars_Watch :: "('s, 'w) fakePodAssignmentRules \<Rightarrow> listOptions \<Rightarrow> 's \<Rightarrow> ('w option \<times> goerr option) \<times> 's" where
  "fake_pars_Watch c opts s = fk_InvokesWatch (fa_Fake (fp_Fake c)) (WatchAction (Some (fp_ns c)) podassignmentrulesResource opts) s"

definition fake_pars_Create :: "('s, 'w) fakePodAssignmentRules \<Rightarrow> podAssignmentRule \<Rightarrow> (podAssignmentRule, 's) fakeCall" where
  "fake_pars_Create c obj s =
     obj_or_nil as_par (fp_Invokes c (CreateAction (Some (fp_ns c)) podassignmentrulesResource (ParObj obj)) (FOne (ParObj zero_par)) s)"

definition fake_pars_Update :: "('s, 'w) fakePodAssignmentRules \<Rightarrow> podAssignmentRule \<Rightarrow> (podAssignmentRule, 's) fakeCall" where
  "fake_pars_Update c obj s =
     obj_or_nil as_par (fp_Invokes c (UpdateAction (Some (fp_ns c)) podassignmentrulesResource (ParObj obj)) (FOne (ParObj zero_par)) s)"

definition fake_pars_Delete :: "('s, 'w) fakePodAssignmentRules \<Rightarrow> string \<Rightarrow> deleteOptions option \<Rightarrow> 's \<Rightarrow> goerr option \<times> 's" where
  "fake_pars_Delete c name options s = only_err (fp_Invokes c (DeleteAction (Some (fp_ns c)) podassignmentrulesResource name) (FOne (ParObj zero_par)) s)"

definition fake_pars_DeleteCollection :: "('s, 'w) fakePodAssignmentRules \<Rightarrow> deleteOptions option \<Rightarrow> listOptions \<Rightarrow> 's \<Rightarrow> goerr option \<times> 's" where
  "fake_pars_DeleteCollection c options listOpts s =
     only_err (fp_Invokes c (DeleteCollectionAction (Some (fp_ns c)) podassignmentrulesResource listOpts) (FPars zero_list) s)"

definition fake_pars_Patch :: "('s, 'w) fakePodAssignmentRules \<Rightarrow> string \<Rightarrow> string \<Rightarrow> string \<Rightarrow> string list \<Rightarrow> (podAssignmentRule, 's) fakeCall" where
  "fake_pars_Patch c name pt data subresources s =
     obj_or_nil as_par (fp_Invokes c (PatchSubresourceAction (Some (fp_ns c)) podassignmentrulesResource name pt data subresources) (FOne (ParObj zero_par)) s)"

subsection \<open>Cluster-wide rules\<close>

definition clusterpodassignmentrulesResource :: gvResource where
  "clusterpodassignmentrulesResource = (''assignments.kube-valet.io'', ''v1alpha1'', ''clusterpodassignmentrules'')"
definition clusterpodassignmentrulesKind :: gvResource where
  "clusterpodassignmentrulesKind = (''assignments.kube-valet.io'', ''v1alpha1'', ''ClusterPodAssignmentRule'')"

definition fake_cpars_Get :: "('s, 'w) fakeClusterPodAssignmentRules \<Rightarrow> string \<Rightarrow> getOptions \<Rightarrow> (clusterPodAssignmentRule, 's) fakeCall" where
  "fake_cpars_Get c name options s =
     obj_or_nil as_cpar (fc_Invokes c (GetAction None clusterpodassignmentrulesResource name) (FOne (CparObj zero_cpar)) s)"

definition fake_cpars_List :: "('s, 'w) fakeClusterPodAssignmentRules \<Rightarrow> listOptions \<Rightarrow> (clusterPodAssignmentRule objectList, 's) fakeCall" where
  "fake_cpars_List c opts s =
     (case fc_Invokes c (ListAction None clusterpodassignmentrulesResource clusterpodassignmentrulesKind opts) (FCpars zero_list) s of
        ((None, err), s1) \<Rightarrow> (Inr (None, err), s1)
      | ((Some obj, err), s1) \<Rightarrow>
          (case as_cpars obj of
             None \<Rightarrow> (Inl BadAssertion, s1)
           | Some l \<Rightarrow> (Inr (Some (match_list (fk_ExtractLabel (fa_Fake (fc_Fake c)) opts) cpar_meta l), err), s1)))"

definition fake_cpars_Watch :: "('s, 'w) fakeClusterPodAssignmentRules \<Rightarrow> listOptions \<Rightarrow> 's \<Rightarrow> ('w option \<times> goerr option) \<times> 's" where
  "fake_cpars_Watch c opts s = fk_InvokesWatch (fa_Fake (fc_Fake c)) (WatchAction None clusterpodassignmentrulesResource opts) s"

definition fake_cpars_Create :: "('s, 'w) fakeClusterPodAssignmentRules \<Rightarrow> clusterPodAssignmentRule \<Rightarrow> (clusterPodAssignmentRule, 's) fakeCall" where
  "fake_cpars_Create c obj s =
     obj_or_nil as_cpar (fc_Invokes c (CreateAction None clusterpodassignmentrulesResource (CparObj obj)) (FOne (CparObj zero_cpar)) s)"

definition fake_cpars_Update :: "('s, 'w) fakeClusterPodAssignmentRules \<Rightarrow> clusterPodAssignmentRule \<Rightarrow> (clusterPodAssignmentRule, 's) fakeCall" where
  "fake_cpars_Update c obj s =
     obj_or_nil as_cpar (fc_Invokes c (UpdateAction None clusterpodassignmentrulesResource (CparObj obj)) (FOne (CparObj zero_cpar)) s)"

definition fake_cpars_Delete :: "('s, 'w) fakeClusterPodAssignmentRules \<Rightarrow> string \<Rightarrow> deleteOptions option \<Rightarrow> 's \<Rightarrow> goerr option \<times> 's" where
  "fake_cpars_Delete c name options s = only_err (fc_Invokes c (DeleteAction None clusterpodassignmentrulesResource name) (FOne (CparObj zero_cpar)) s)"

definition fake_cpars_DeleteCollection :: "('s, 'w) fakeClusterPodAssignmentRules \<Rightarrow> deleteOptions option \<Rightarrow> listOptions \<Rightarrow> 's \<Rightarrow> goerr option \<times> 's" where
  "fake_cpars_DeleteCollection c options listOpts s =
     only_err (fc_Invokes c (DeleteCollectionAction None clusterpodassignmentrulesResource listOpts) (FCpars zero_list) s)"

definition fake_cpars_Patch :: "('s, 'w) fakeClusterPodAssignmentRules \<Rightarrow> string \<Rightarrow> string \<Rightarrow> string \<Rightarrow> string list \<Rightarrow> (clusterPodAssignmentRule, 's) fakeCall" where
  "fake_cpars_Patch c name pt data subresources s =
     obj_or_nil as_cpar (fc_Invokes c (PatchSubresourceAction None clusterpodassignmentrulesResource name pt data subresources) (FOne (CparObj zero_cpar)) s)"

section \<open>The clientset\<close>

text \<open>What \<^verbatim>\<open>NewSimpleClientset\<close> takes from the testing package and the fake discovery. The tracker lives in the state
  \<open>'s\<close>, a value of \<^verbatim>\<open>testing.Fake\<close> is of type \<open>'f\<close>; a reactor says whether it handled the action.\<close>

type_synonym 's reaction = "fakeAction \<Rightarrow> 's \<Rightarrow> (bool \<times> fakeObject option \<times> goerr option) \<times> 's"
type_synonym ('s, 'w) watchReaction = "fakeAction \<Rightarrow> 's \<Rightarrow> (bool \<times> 'w option \<times> goerr option) \<times> 's"

record ('s, 'w, 'f, 'd) testingLibs =
  te_NewObjectTracker :: "'s \<Rightarrow> 's"
  te_Add :: "cliObject \<Rightarrow> 's \<Rightarrow> goerr option \<times> 's"
  te_ObjectReaction :: "'s reaction"
  te_Watch :: "gvResource \<Rightarrow> string \<Rightarrow> 's \<Rightarrow> (goerr + 'w) \<times> 's"
  te_GetResource :: "fakeAction \<Rightarrow> gvResource"
  te_GetNamespace :: "fakeAction \<Rightarrow> string"
  te_zero :: 'f
  te_AddReactor :: "string \<Rightarrow> string \<Rightarrow> 's reaction \<Rightarrow> 'f \<Rightarrow> 'f"
  te_AddWatchReactor :: "string \<Rightarrow> ('s, 'w) watchReaction \<Rightarrow> 'f \<Rightarrow> 'f"
  te_methods :: "'f \<Rightarrow> ('s, 'w) fake"
  te_FakeDiscovery :: "'f \<Rightarrow> 'd"

fun add_objects :: "('s, 'w, 'f, 'd) testingLibs \<Rightarrow> cliObject list \<Rightarrow> 's \<Rightarrow> gopanic + 's" where
  "add_objects E [] s = Inr s"
| "add_objects E (obj # objects) s =
     (case te_Add E obj s of (Some err, s1) \<Rightarrow> Inl (PanicError err) | (None, s1) \<Rightarrow> add_objects E objects s1)"

definition tracker_watch :: "('s, 'w, 'f, 'd) testingLibs \<Rightarrow> ('s, 'w) watchReaction" where
  "tracker_watch E action s =
     (case te_Watch E (te_GetResource E action) (te_GetNamespace E action) s of
        (Inl err, s1) \<Rightarrow> ((False, None, Some err), s1) | (Inr w, s1) \<Rightarrow> ((True, Some w, None), s1))"

text \<open>The fake discovery holds a pointer to the embedded \<^verbatim>\<open>Fake\<close>: it is made of it when it is asked for.\<close>

record 'f fakeClientset =
  fs_Fake :: 'f

definition NewSimpleClientset ::
    "('s, 'w, 'f, 'd) testingLibs \<Rightarrow> cliObject list \<Rightarrow> 's \<Rightarrow> gopanic + 'f fakeClientset \<times> 's" where
  "NewSimpleClientset E objects s =
     (case add_objects E objects (te_NewObjectTracker E s) of
        Inl p \<Rightarrow> Inl p
      | Inr s1 \<Rightarrow>
          (let f = te_AddReactor E ''*'' ''*'' (te_ObjectReaction E) (te_zero E);
               f = te_AddWatchReactor E ''*'' (tracker_watch E) f
           in Inr (\<lparr>fs_Fake = f\<rparr>, s1)))"

definition fake_Discovery :: "('s, 'w, 'f, 'd) testingLibs \<Rightarrow> 'f fakeClientset \<Rightarrow> 'd" where
  "fake_Discovery E c = te_FakeDiscovery E (fs_Fake c)"

definition fake_AssignmentsV1alpha1 ::
    "('s, 'w, 'f, 'd) testingLibs \<Rightarrow> 'f fakeClientset \<Rightarrow> ('s, 'w) fakeAssignmentsV1alpha1" where
  "fake_AssignmentsV1alpha1 E c = \<lparr>fa_Fake = te_methods E (fs_Fake c)\<rparr>"

text \<open>The scheme of the fakes is built like that of the clientset.\<close>

definition fake_AddToScheme :: "'S schemeLibs \<Rightarrow> 'S \<Rightarrow> goerr option \<times> 'S" where
  "fake_AddToScheme L = sl_AddToScheme L [AddToScheme L]"

definition fake_scheme_init :: "'S schemeLibs \<Rightarrow> 'S \<Rightarrow> gopanic + 'S" where
  "fake_scheme_init L scheme =
     (case fake_AddToScheme L (sl_AddToGroupVersion L ('''', ''v1'') scheme) of
        (Some err, s) \<Rightarrow> Inl (PanicError err) | (None, s) \<Rightarrow> Inr s)"

lemma fake_scheme_init_eq: "fake_scheme_init L = scheme_init L"
  by (simp add: fun_eq_iff fake_scheme_init_def scheme_init_def fake_AddToScheme_def clientset_AddToScheme_def)

section \<open>The contract of the object tracker\<close>

fun action_path :: "fakeAction \<Rightarrow> restPath" where
  "action_path (GetAction ns (_, _, res) nm) = (case ns of None \<Rightarrow> [] | Some n \<Rightarrow> n, res, nm)"
| "action_path (ListAction ns (_, _, res) _ _) = (case ns of None \<Rightarrow> [] | Some n \<Rightarrow> n, res, [])"
| "action_path (WatchAction ns (_, _, res) _) = (case ns of None \<Rightarrow> [] | Some n \<Rightarrow> n, res, [])"
| "action_path (CreateAction ns (_, _, res) x) = (case ns of None \<Rightarrow> [] | Some n \<Rightarrow> n, res, om_Name (obj_meta x))"
| "action_path (UpdateAction ns (_, _, res) x) = (case ns of None \<Rightarrow> [] | Some n \<Rightarrow> n, res, om_Name (obj_meta x))"
| "action_path (UpdateSubresourceAction ns (_, _, res) _ x) =
     (case ns of None \<Rightarrow> [] | Some n \<Rightarrow> n, res, om_Name (obj_meta x))"
| "action_path (DeleteAction ns (_, _, res) nm) = (case ns of None \<Rightarrow> [] | Some n \<Rightarrow> n, res, nm)"
| "action_path (DeleteCollectionAction ns (_, _, res) _) = (case ns of None \<Rightarrow> [] | Some n \<Rightarrow> n, res, [])"
| "action_path (PatchSubresourceAction ns (_, _, res) nm _ _ _) = (case ns of None \<Rightarrow> [] | Some n \<Rightarrow> n, res, nm)"

fun list_of :: "string \<Rightarrow> fakeObject \<Rightarrow> bool" where
  "list_of res (FOne _) = False"
| "list_of res (FNags _) \<longleftrightarrow> res = ''nodeassignmentgroups''"
| "list_of res (FPars _) \<longleftrightarrow> res = ''podassignmentrules''"
| "list_of res (FCpars _) \<longleftrightarrow> res = ''clusterpodassignmentrules''"

definition one_of_kind :: "string \<Rightarrow> fakeObject \<Rightarrow> bool" where
  "one_of_kind res x \<longleftrightarrow> (\<exists>y. x = FOne y \<and> kind_of y = res)"

fun items_of :: "fakeObject \<Rightarrow> cliObject list" where
  "items_of (FOne y) = [y]"
| "items_of (FNags l) = map NagObj (ol_Items l)"
| "items_of (FPars l) = map ParObj (ol_Items l)"
| "items_of (FCpars l) = map CparObj (ol_Items l)"

abbreviation action_res :: "fakeAction \<Rightarrow> string" where "action_res a \<equiv> fst (snd (action_path a))"

text \<open>When the default is an object, or a list, of the resource, so is the answer. An error changes nothing, a
  read changes no object, and a write changes the object its action names.\<close>

locale object_tracker =
  fixes F :: "('s, 'w) fake"
    and store :: "'s \<Rightarrow> restPath \<Rightarrow> cliObject option"
  assumes one: "fk_Invokes F a d s = ((Some x, er), s') \<Longrightarrow> one_of_kind (action_res a) d \<Longrightarrow> one_of_kind (action_res a) x"
    and list_kind: "fk_Invokes F (ListAction n r k opts) d s = ((Some x, er), s') \<Longrightarrow> list_of (snd (snd r)) d \<Longrightarrow>
      list_of (snd (snd r)) x"
    and list: "fk_Invokes F (ListAction n r k opts) d s = ((y, None), s') \<Longrightarrow> list_of (snd (snd r)) d \<Longrightarrow> n \<noteq> Some [] \<Longrightarrow>
      store s' = store s \<and> (\<exists>x. y = Some x \<and>
        set (items_of x) = {y. \<exists>nm. store s (case n of None \<Rightarrow> [] | Some ns \<Rightarrow> ns, snd (snd r), nm) = Some y})"
    and failed: "fk_Invokes F a d s = ((y, Some e), s') \<Longrightarrow> store s' = store s"
    and frame: "fk_Invokes F a d s = ((y, er), s') \<Longrightarrow> store s' q \<noteq> store s q \<Longrightarrow> under (action_path a) q"
    and get: "fk_Invokes F (GetAction n r nm) d s = ((y, None), s') \<Longrightarrow> store s' = store s \<and>
      (\<exists>x. y = Some (FOne x) \<and> store s (action_path (GetAction n r nm)) = Some x)"
    and missing: "store s (action_path (GetAction n r nm)) = None \<Longrightarrow>
      \<exists>e s'. fk_Invokes F (GetAction n r nm) d s = ((None, Some e), s')"
    and create: "fk_Invokes F (CreateAction n r ob) d s = ((y, None), s') \<Longrightarrow> p = action_path (CreateAction n r ob) \<Longrightarrow>
      \<exists>x. y = Some (FOne x) \<and> accepted ob x \<and> store s p = None \<and> store s' = (store s)(p \<mapsto> x)"
    and update: "fk_Invokes F (UpdateAction n r ob) d s = ((y, None), s') \<Longrightarrow> p = action_path (UpdateAction n r ob) \<Longrightarrow>
      \<exists>x. y = Some (FOne x) \<and> accepted ob x \<and> store s p \<noteq> None \<and> store s' = (store s)(p \<mapsto> x)"
    and delete: "fk_Invokes F (DeleteAction n r nm) d s = ((y, None), s') \<Longrightarrow> p = action_path (DeleteAction n r nm) \<Longrightarrow>
      store s p \<noteq> None \<and> store s' = (store s)(p := None)"

section \<open>The fake behind a call\<close>

definition fake_answer :: "('a \<Rightarrow> cliObject) \<Rightarrow> (gopanic + 'a option \<times> goerr option) \<times> 's \<Rightarrow>
    (gopanic + cliObject option \<times> goerr option) \<times> 's" where
  "fake_answer f r = (case r of (Inl p, s) \<Rightarrow> (Inl p, s) | (Inr (x, e), s) \<Rightarrow> (Inr (map_option f x, e), s))"

definition fake_no_answer :: "goerr option \<times> 's \<Rightarrow> (gopanic + cliObject option \<times> goerr option) \<times> 's" where
  "fake_no_answer r = (case r of (e, s) \<Rightarrow> (Inr (None, e), s))"

fun run_fake ::
    "('s, 'w) fakeAssignmentsV1alpha1 \<Rightarrow> apiCall \<Rightarrow> 's \<Rightarrow> (gopanic + cliObject option \<times> goerr option) \<times> 's" where
  "run_fake c (NagGet nm go) s = fake_answer NagObj (fake_nags_Get (fake_NodeAssignmentGroups c) nm go s)"
| "run_fake c (NagCreate g) s = fake_answer NagObj (fake_nags_Create (fake_NodeAssignmentGroups c) g s)"
| "run_fake c (NagUpdate g) s = fake_answer NagObj (fake_nags_Update (fake_NodeAssignmentGroups c) g s)"
| "run_fake c (NagUpdateStatus g) s = fake_answer NagObj (fake_nags_UpdateStatus (fake_NodeAssignmentGroups c) g s)"
| "run_fake c (NagDelete nm do') s = fake_no_answer (fake_nags_Delete (fake_NodeAssignmentGroups c) nm do' s)"
| "run_fake c (NagDeleteAll do' lo) s = fake_no_answer (fake_nags_DeleteCollection (fake_NodeAssignmentGroups c) do' lo s)"
| "run_fake c (NagPatch nm pt d subs) s = fake_answer NagObj (fake_nags_Patch (fake_NodeAssignmentGroups c) nm pt d subs s)"
| "run_fake c (ParGet ns nm go) s = fake_answer ParObj (fake_pars_Get (fake_PodAssignmentRules c ns) nm go s)"
| "run_fake c (ParCreate ns r) s = fake_answer ParObj (fake_pars_Create (fake_PodAssignmentRules c ns) r s)"
| "run_fake c (ParUpdate ns r) s = fake_answer ParObj (fake_pars_Update (fake_PodAssignmentRules c ns) r s)"
| "run_fake c (ParDelete ns nm do') s = fake_no_answer (fake_pars_Delete (fake_PodAssignmentRules c ns) nm do' s)"
| "run_fake c (ParDeleteAll ns do' lo) s = fake_no_answer (fake_pars_DeleteCollection (fake_PodAssignmentRules c ns) do' lo s)"
| "run_fake c (ParPatch ns nm pt d subs) s = fake_answer ParObj (fake_pars_Patch (fake_PodAssignmentRules c ns) nm pt d subs s)"
| "run_fake c (CparGet nm go) s = fake_answer CparObj (fake_cpars_Get (fake_ClusterPodAssignmentRules c) nm go s)"
| "run_fake c (CparCreate r) s = fake_answer CparObj (fake_cpars_Create (fake_ClusterPodAssignmentRules c) r s)"
| "run_fake c (CparUpdate r) s = fake_answer CparObj (fake_cpars_Update (fake_ClusterPodAssignmentRules c) r s)"
| "run_fake c (CparDelete nm do') s = fake_no_answer (fake_cpars_Delete (fake_ClusterPodAssignmentRules c) nm do' s)"
| "run_fake c (CparDeleteAll do' lo) s = fake_no_answer (fake_cpars_DeleteCollection (fake_ClusterPodAssignmentRules c) do' lo s)"
| "run_fake c (CparPatch nm pt d subs) s = fake_answer CparObj (fake_cpars_Patch (fake_ClusterPodAssignmentRules c) nm pt d subs s)"

lemmas fake_clients = fake_NodeAssignmentGroups_def fake_PodAssignmentRules_def fake_ClusterPodAssignmentRules_def
lemmas fake_resources = nodeassignmentgroupsResource_def podassignmentrulesResource_def clusterpodassignmentrulesResource_def
lemmas fake_nag_methods = fake_nags_Get_def fake_nags_Create_def fake_nags_Update_def fake_nags_UpdateStatus_def
  fake_nags_Delete_def fake_nags_DeleteCollection_def fake_nags_Patch_def
lemmas fake_par_methods = fake_pars_Get_def fake_pars_Create_def fake_pars_Update_def fake_pars_Delete_def
  fake_pars_DeleteCollection_def fake_pars_Patch_def
lemmas fake_cpar_methods = fake_cpars_Get_def fake_cpars_Create_def fake_cpars_Update_def fake_cpars_Delete_def
  fake_cpars_DeleteCollection_def fake_cpars_Patch_def
lemmas fake_methods = fake_nag_methods fake_par_methods fake_cpar_methods

text \<open>The assertion on an object of the right resource gives the object.\<close>

definition asserts :: "('a \<Rightarrow> cliObject) \<Rightarrow> (fakeObject \<Rightarrow> 'a option) \<Rightarrow> string \<Rightarrow> bool" where
  "asserts mk as res \<longleftrightarrow> (\<forall>y. kind_of y = res \<longrightarrow> (\<exists>x. y = mk x \<and> as (FOne y) = Some x))"

lemma asserts_all:
  "asserts NagObj as_nag ''nodeassignmentgroups''" "asserts ParObj as_par ''podassignmentrules''"
  "asserts CparObj as_cpar ''clusterpodassignmentrules''"
  by (auto simp: asserts_def elim!: kind_of.elims)

definition object_of :: "fakeObject option \<Rightarrow> cliObject option" where
  "object_of y = (case y of Some (FOne x) \<Rightarrow> Some x | _ \<Rightarrow> None)"

lemma fake_answer_one:
  assumes "asserts mk as res" and "\<And>x. y = Some x \<Longrightarrow> one_of_kind res x"
  shows "fake_answer mk (obj_or_nil as ((y, er), s)) = (Inr (object_of y, er), s)"
proof (cases y)
  case None
  then show ?thesis by (simp add: obj_or_nil_def fake_answer_def object_of_def)
next
  case (Some x)
  obtain z where z: "x = FOne z" "kind_of z = res" using assms(2) [OF Some] by (auto simp: one_of_kind_def)
  obtain w where "z = mk w" "as (FOne z) = Some w" using assms(1) z(2) unfolding asserts_def by blast
  then show ?thesis using Some z by (simp add: obj_or_nil_def fake_answer_def object_of_def)
qed

context object_tracker
begin

lemma invoked:
  assumes "asserts mk as res" and "action_res a = res" and "kind_of x = res"
  shows "\<exists>y er s'. fk_Invokes F a (FOne x) s = ((y, er), s') \<and>
    fake_answer mk (obj_or_nil as (fk_Invokes F a (FOne x) s)) = (Inr (object_of y, er), s')"
proof -
  obtain y er s' where r: "fk_Invokes F a (FOne x) s = ((y, er), s')" by (metis prod.exhaust)
  have "one_of_kind res z" if "y = Some z" for z
    using one [of a "FOne x" s z er s'] r that assms(2,3) by (simp add: one_of_kind_def)
  from fake_answer_one [OF assms(1) this] show ?thesis using r by simp
qed

lemma effects:
  assumes "fk_Invokes F a d s = ((y, er), s')" and "action_path a = target_of call"
  shows "a = GetAction n r nm \<Longrightarrow> kind_of_call call = Read \<Longrightarrow> api_effect call (store s) (object_of y, er) (store s')"
    and "a = CreateAction n r ob \<Longrightarrow> kind_of_call call = Create ob \<Longrightarrow> api_effect call (store s) (object_of y, er) (store s')"
    and "a = UpdateAction n r ob \<Longrightarrow> kind_of_call call = Replace ob \<Longrightarrow> api_effect call (store s) (object_of y, er) (store s')"
    and "a = DeleteAction n r nm \<Longrightarrow> kind_of_call call = Delete \<Longrightarrow> api_effect call (store s) (None, er) (store s')"
    and "kind_of_call call = Touch \<Longrightarrow> api_effect call (store s) (z, er) (store s')"
proof -
  note p = assms(2)
  have err: "er \<noteq> None \<Longrightarrow> store s' = store s" using failed assms(1) by (cases er) auto
  show "a = GetAction n r nm \<Longrightarrow> kind_of_call call = Read \<Longrightarrow> api_effect call (store s) (object_of y, er) (store s')"
    using assms(1) err get [of n r nm d s y s'] p by (auto simp: api_effect_def Let_def object_of_def)
  show "a = CreateAction n r ob \<Longrightarrow> kind_of_call call = Create ob \<Longrightarrow> api_effect call (store s) (object_of y, er) (store s')"
    using assms(1) err create [of n r ob d s y s' "target_of call"] p by (auto simp: api_effect_def Let_def object_of_def)
  show "a = UpdateAction n r ob \<Longrightarrow> kind_of_call call = Replace ob \<Longrightarrow> api_effect call (store s) (object_of y, er) (store s')"
    using assms(1) err update [of n r ob d s y s' "target_of call"] p by (auto simp: api_effect_def Let_def object_of_def)
  show "a = DeleteAction n r nm \<Longrightarrow> kind_of_call call = Delete \<Longrightarrow> api_effect call (store s) (None, er) (store s')"
    using assms(1) err delete [of n r nm d s y s' "target_of call"] p by (auto simp: api_effect_def Let_def)
  show "kind_of_call call = Touch \<Longrightarrow> api_effect call (store s) (z, er) (store s')"
    using frame [OF assms(1)] err p by (auto simp: api_effect_def Let_def)
qed

lemma one_call:
  assumes "asserts mk as res" and "action_res a = res" and "kind_of x = res" and "action_path a = target_of call"
    and "kind_of_call call \<noteq> Delete"
    and "kind_of_call call = Read \<Longrightarrow> \<exists>n r nm. a = GetAction n r nm"
    and "\<And>ob. kind_of_call call = Create ob \<Longrightarrow> \<exists>n r. a = CreateAction n r ob"
    and "\<And>ob. kind_of_call call = Replace ob \<Longrightarrow> \<exists>n r. a = UpdateAction n r ob"
  shows "\<exists>ans er s'. fake_answer mk (obj_or_nil as (fk_Invokes F a (FOne x) s)) = (Inr (ans, er), s') \<and>
    api_effect call (store s) (ans, er) (store s') \<and>
    (kind_of_call call = Read \<longrightarrow> store s (target_of call) = None \<longrightarrow> ans = None \<and> er \<noteq> None)"
proof -
  obtain y er s' where r: "fk_Invokes F a (FOne x) s = ((y, er), s')"
    "fake_answer mk (obj_or_nil as (fk_Invokes F a (FOne x) s)) = (Inr (object_of y, er), s')"
    using invoked [OF assms(1-3)] by blast
  have "api_effect call (store s) (object_of y, er) (store s')"
    using effects [OF r(1) assms(4)] assms(5-8) by (cases "kind_of_call call") metis+
  moreover have "object_of y = None \<and> er \<noteq> None" if rd: "kind_of_call call = Read" "store s (target_of call) = None"
  proof -
    obtain n q nm where a: "a = GetAction n q nm" using assms(6) rd(1) by blast
    then obtain e s1 where "fk_Invokes F a (FOne x) s = ((None, Some e), s1)"
      using missing [of s n q nm "FOne x"] rd(2) assms(4) by auto
    then show ?thesis using r(1) by (simp add: object_of_def)
  qed
  ultimately show ?thesis using r(2) by (intro exI [of _ "object_of y"] exI [of _ er] exI [of _ s']) simp
qed

lemma err_call:
  assumes "action_path a = target_of call"
    and "kind_of_call call = Touch \<or> kind_of_call call = Delete \<and> (\<exists>n r nm. a = DeleteAction n r nm)"
  shows "\<exists>ans er s'. fake_no_answer (only_err (fk_Invokes F a d s)) = (Inr (ans, er), s') \<and>
    api_effect call (store s) (ans, er) (store s') \<and>
    (kind_of_call call = Read \<longrightarrow> store s (target_of call) = None \<longrightarrow> ans = None \<and> er \<noteq> None)"
proof -
  obtain y er s' where r: "fk_Invokes F a d s = ((y, er), s')" by (metis prod.exhaust)
  have "api_effect call (store s) (None, er) (store s')" using effects(4,5) [OF r assms(1)] assms(2) by blast
  then show ?thesis using r assms(2) by (auto simp: fake_no_answer_def only_err_def)
qed

lemmas unfold_fakes = run_fake.simps fake_methods fake_clients fakeNodeAssignmentGroups.simps
  fakePodAssignmentRules.simps fakeClusterPodAssignmentRules.simps fakeAssignmentsV1alpha1.simps

lemma fake_effect:
  "\<exists>ans er s'. run_fake \<lparr>fa_Fake = F\<rparr> call s = (Inr (ans, er), s') \<and> api_effect call (store s) (ans, er) (store s') \<and>
    (kind_of_call call = Read \<longrightarrow> store s (target_of call) = None \<longrightarrow> ans = None \<and> er \<noteq> None)"
proof (cases call)
  case (NagDelete nm do')
  show ?thesis unfolding NagDelete by (simp only: unfold_fakes, rule err_call) (simp_all add: fake_resources)
next
  case (ParDelete ns nm do')
  show ?thesis unfolding ParDelete by (simp only: unfold_fakes, rule err_call) (simp_all add: fake_resources)
next
  case (CparDelete nm do')
  show ?thesis unfolding CparDelete by (simp only: unfold_fakes, rule err_call) (simp_all add: fake_resources)
next
  case (NagDeleteAll do' lo)
  show ?thesis unfolding NagDeleteAll by (simp only: unfold_fakes, rule err_call) (simp_all add: fake_resources)
next
  case (ParDeleteAll ns do' lo)
  show ?thesis unfolding ParDeleteAll by (simp only: unfold_fakes, rule err_call) (simp_all add: fake_resources)
next
  case (CparDeleteAll do' lo)
  show ?thesis unfolding CparDeleteAll by (simp only: unfold_fakes, rule err_call) (simp_all add: fake_resources)
next
  case (NagGet nm go)
  show ?thesis unfolding NagGet by (simp only: unfold_fakes, rule one_call [OF asserts_all(1)]) (simp_all add: fake_resources)
next
  case (NagCreate g)
  show ?thesis unfolding NagCreate by (simp only: unfold_fakes, rule one_call [OF asserts_all(1)]) (simp_all add: fake_resources)
next
  case (NagUpdate g)
  show ?thesis unfolding NagUpdate by (simp only: unfold_fakes, rule one_call [OF asserts_all(1)]) (simp_all add: fake_resources)
next
  case (NagUpdateStatus g)
  show ?thesis unfolding NagUpdateStatus by (simp only: unfold_fakes, rule one_call [OF asserts_all(1)]) (simp_all add: fake_resources)
next
  case (NagPatch nm pt d subs)
  show ?thesis unfolding NagPatch by (simp only: unfold_fakes, rule one_call [OF asserts_all(1)]) (simp_all add: fake_resources)
next
  case (ParGet ns nm go)
  show ?thesis unfolding ParGet by (simp only: unfold_fakes, rule one_call [OF asserts_all(2)]) (simp_all add: fake_resources)
next
  case (ParCreate ns r)
  show ?thesis unfolding ParCreate by (simp only: unfold_fakes, rule one_call [OF asserts_all(2)]) (simp_all add: fake_resources)
next
  case (ParUpdate ns r)
  show ?thesis unfolding ParUpdate by (simp only: unfold_fakes, rule one_call [OF asserts_all(2)]) (simp_all add: fake_resources)
next
  case (ParPatch ns nm pt d subs)
  show ?thesis unfolding ParPatch by (simp only: unfold_fakes, rule one_call [OF asserts_all(2)]) (simp_all add: fake_resources)
next
  case (CparGet nm go)
  show ?thesis unfolding CparGet by (simp only: unfold_fakes, rule one_call [OF asserts_all(3)]) (simp_all add: fake_resources)
next
  case (CparCreate r)
  show ?thesis unfolding CparCreate by (simp only: unfold_fakes, rule one_call [OF asserts_all(3)]) (simp_all add: fake_resources)
next
  case (CparUpdate r)
  show ?thesis unfolding CparUpdate by (simp only: unfold_fakes, rule one_call [OF asserts_all(3)]) (simp_all add: fake_resources)
next
  case (CparPatch nm pt d subs)
  show ?thesis unfolding CparPatch by (simp only: unfold_fakes, rule one_call [OF asserts_all(3)]) (simp_all add: fake_resources)
qed

text \<open>A list has the objects of the collection whose labels the selector matches.\<close>

lemma matching_items_filter: "matching_items label meta xs items = items @ filter (\<lambda>x. label (om_Labels (meta x))) xs"
  by (induction xs arbitrary: items) auto

lemma fake_nags_List_items:
  assumes "fake_nags_List (fake_NodeAssignmentGroups \<lparr>fa_Fake = F\<rparr>) opts s = (Inr (ls, None), s')"
  shows "store s' = store s \<and> (\<exists>l. ls = Some l \<and>
    set (ol_Items l) = {g. (\<exists>nm. store s ('''', ''nodeassignmentgroups'', nm) = Some (NagObj g)) \<and>
      (\<forall>m. fk_ExtractLabel F opts = Some m \<longrightarrow> m (om_Labels (nag_meta g)))})"
proof -
  let ?a = "ListAction None nodeassignmentgroupsResource nodeassignmentgroupsKind opts"
  obtain y er s1 where r: "fk_Invokes F ?a (FNags zero_list) s = ((y, er), s1)" by (metis prod.exhaust)
  have d: "list_of (snd (snd nodeassignmentgroupsResource)) (FNags zero_list)" by (simp add: fake_resources)
  obtain x l where y: "y = Some x" "as_nags x = Some l" "er = None" "s1 = s'"
    "ls = Some (match_list (fk_ExtractLabel F opts) nag_meta l)"
  proof (cases y)
    case None
    then show ?thesis using r assms list [OF _ d, of None nodeassignmentgroupsKind opts s y s1]
      by (simp add: fake_nags_List_def fake_clients)
  next
    case (Some x)
    then show ?thesis using that r assms by (auto simp: fake_nags_List_def fake_clients split: option.splits)
  qed
  then have x: "x = FNags l" by (cases x) auto
  have "store s1 = store s" "set (items_of x) = {y. \<exists>nm. store s ('''', ''nodeassignmentgroups'', nm) = Some y}"
    using list [of None nodeassignmentgroupsResource nodeassignmentgroupsKind opts "FNags zero_list" s y s1] r y d
    by (auto simp: fake_resources)
  moreover have "g \<in> set (ol_Items l) \<longleftrightarrow> NagObj g \<in> set (items_of x)" for g by (auto simp: x)
  ultimately have l: "g \<in> set (ol_Items l) \<longleftrightarrow> (\<exists>nm. store s ('''', ''nodeassignmentgroups'', nm) = Some (NagObj g))" for g
    by simp
  have "set (ol_Items (match_list lab nag_meta l)) = {g \<in> set (ol_Items l). \<forall>m. lab = Some m \<longrightarrow> m (om_Labels (nag_meta g))}" for lab
    by (cases lab) (simp_all add: match_list_def matching_items_filter)
  then show ?thesis using \<open>store s1 = store s\<close> y(4,5) by (simp add: l)
qed

end

section \<open>A tracker on an association list\<close>

text \<open>It knows no patches and no deletion of collections: \<^verbatim>\<open>Fake\<close> then answers with the default.\<close>

fun refill :: "fakeObject \<Rightarrow> cliObject list \<Rightarrow> fakeObject" where
  "refill (FOne y) ys = FOne y"
| "refill (FNags l) ys = FNags \<lparr>ol_ResourceVersion = '''', ol_Items = List.map_filter nag_of ys\<rparr>"
| "refill (FPars l) ys = FPars \<lparr>ol_ResourceVersion = '''', ol_Items = List.map_filter par_of ys\<rparr>"
| "refill (FCpars l) ys = FCpars \<lparr>ol_ResourceVersion = '''', ol_Items = List.map_filter cpar_of ys\<rparr>"

definition tracker_put :: "bool \<Rightarrow> restPath \<Rightarrow> cliObject \<Rightarrow> restMem \<Rightarrow> (fakeObject option \<times> goerr option) \<times> restMem" where
  "tracker_put replace p ob s =
     (if (mem_store s p \<noteq> None) \<noteq> replace \<or> kind_of ob \<noteq> fst (snd p) then ((None, Some (OtherErr ''conflict'')), s)
      else ((Some (FOne ob), None), (p, ob) # s))"

definition tracker_Invokes :: "fakeAction \<Rightarrow> fakeObject \<Rightarrow> restMem \<Rightarrow> (fakeObject option \<times> goerr option) \<times> restMem" where
  "tracker_Invokes a d s =
     (let p = action_path a in
      case a of
        GetAction _ _ nm \<Rightarrow>
          (case mem_store s p of None \<Rightarrow> ((None, Some (NotFound nm)), s) | Some y \<Rightarrow> ((Some (FOne y), None), s))
      | ListAction _ _ _ _ \<Rightarrow> ((Some (refill d (mem_collection (fst p) (fst (snd p)) s)), None), s)
      | CreateAction _ _ ob \<Rightarrow> tracker_put False p ob s
      | UpdateAction _ _ ob \<Rightarrow> tracker_put True p ob s
      | UpdateSubresourceAction _ _ _ ob \<Rightarrow> tracker_put True p ob s
      | DeleteAction _ _ nm \<Rightarrow>
          (if mem_store s p = None then ((None, Some (NotFound nm)), s) else ((None, None), AList.delete p s))
      | _ \<Rightarrow> ((Some d, None), s))"

definition mem_fake :: "(restMem, unit) fake" where
  "mem_fake = \<lparr>fk_Invokes = tracker_Invokes, fk_InvokesWatch = (\<lambda>a s. ((Some (), None), s)),
     fk_ExtractLabel = (\<lambda>opts. None)\<rparr>"

lemma refill_kind [simp]: "list_of res (refill d ys) \<longleftrightarrow> list_of res d" "one_of_kind res (refill d ys) \<longleftrightarrow> one_of_kind res d"
  by (cases d; simp add: one_of_kind_def)+

lemma map_map_filter:
  "(\<And>x. f (mk x) = Some x) \<Longrightarrow> \<forall>y \<in> set ys. \<exists>x. y = mk x \<Longrightarrow> map mk (List.map_filter f ys) = ys"
  by (induction ys) (auto simp: List.map_filter_def)

lemma kind_of_object:
  "kind_of y = ''nodeassignmentgroups'' \<longleftrightarrow> (\<exists>g. y = NagObj g)"
  "kind_of y = ''podassignmentrules'' \<longleftrightarrow> (\<exists>g. y = ParObj g)"
  "kind_of y = ''clusterpodassignmentrules'' \<longleftrightarrow> (\<exists>g. y = CparObj g)"
  by (cases y; simp)+

lemma items_refill:
  assumes "list_of res d" and "\<forall>y \<in> set ys. kind_of y = res"
  shows "items_of (refill d ys) = ys"
  using assms by (cases d) (simp_all add: kind_of_object map_map_filter)

lemma tracker_put_result:
  "tracker_put b p ob s = ((y, er), s') \<Longrightarrow> snd (snd p) = om_Name (obj_meta ob) \<Longrightarrow>
   (case er of Some e \<Rightarrow> y = None \<and> s' = s
    | None \<Rightarrow> y = Some (FOne ob) \<and> kind_of ob = fst (snd p) \<and> (mem_store s p \<noteq> None) = b \<and>
        mem_store s' = (mem_store s)(p \<mapsto> ob))"
  by (auto simp: tracker_put_def mem_store_cons split: if_splits)

lemma action_name:
  "snd (snd (action_path (CreateAction n r ob))) = om_Name (obj_meta ob)"
  "snd (snd (action_path (UpdateAction n r ob))) = om_Name (obj_meta ob)"
  "snd (snd (action_path (UpdateSubresourceAction n r sub ob))) = om_Name (obj_meta ob)"
  by (cases r; simp)+

lemma tracker_frame:
  assumes "tracker_Invokes a d s = ((y, er), s')" and "mem_store s' q \<noteq> mem_store s q"
  shows "under (action_path a) q"
proof -
  obtain ns res nm where p: "action_path a = (ns, res, nm)" by (metis prod.exhaust)
  have put: "q = p" if "tracker_put b p ob s = ((y, er), s')" "snd (snd p) = om_Name (obj_meta ob)" for b p ob
    using tracker_put_result [OF that] assms(2) by (auto split: option.splits if_splits)
  show ?thesis
    using assms put by (cases a) (auto simp: tracker_Invokes_def Let_def mem_store_delete action_name
        simp del: action_path.simps split: option.splits if_splits)
qed

interpretation mem_tracker: object_tracker mem_fake mem_store
proof (unfold_locales, goal_cases)
  case (1 a d s x er s')
  then show ?case
    by (cases a; cases "action_path a")
      (auto simp: mem_fake_def tracker_Invokes_def Let_def tracker_put_def one_of_kind_def
        simp del: action_path.simps split: option.splits if_splits dest: mem_store_kind)
next
  case (2 n r k opts d s x er s')
  then show ?case by (auto simp: mem_fake_def tracker_Invokes_def Let_def)
next
  case (3 n r k opts d s y s')
  obtain ns where p: "action_path (ListAction n r k opts) = (ns, snd (snd r), [])"
    "ns = (case n of None \<Rightarrow> [] | Some ns \<Rightarrow> ns)" by (cases r) simp
  have k: "\<forall>y \<in> set (mem_collection ns (snd (snd r)) s). kind_of y = snd (snd r)"
    by (auto simp: set_mem_collection dest: mem_store_kind)
  have "y = Some (refill d (mem_collection ns (snd (snd r)) s))" "s' = s"
    using 3(1) p(1) by (auto simp: mem_fake_def tracker_Invokes_def simp del: action_path.simps)
  then show ?case using items_refill [OF 3(2) k] p(2) by (simp add: set_mem_collection)
next
  case (4 a d s y e s')
  then show ?case
    by (cases a) (auto simp: mem_fake_def tracker_Invokes_def Let_def tracker_put_def
        simp del: action_path.simps split: option.splits if_splits)
next
  case (5 a d s y er s' q)
  then show ?case using tracker_frame by (simp add: mem_fake_def)
next
  case (6 n r nm d s y s')
  then show ?case by (auto simp: mem_fake_def tracker_Invokes_def Let_def simp del: action_path.simps split: option.splits)
next
  case (7 s n r nm d)
  then show ?case by (auto simp: mem_fake_def tracker_Invokes_def Let_def simp del: action_path.simps)
next
  case (8 n r ob d s y s' p)
  then show ?case using tracker_put_result [of False p ob s y None s'] action_name(1) [of n r ob]
    by (auto simp: mem_fake_def tracker_Invokes_def Let_def simp del: action_path.simps)
next
  case (9 n r ob d s y s' p)
  then show ?case using tracker_put_result [of True p ob s y None s'] action_name(2) [of n r ob]
    by (auto simp: mem_fake_def tracker_Invokes_def Let_def simp del: action_path.simps)
next
  case (10 n r nm d s y s' p)
  then show ?case
    by (auto simp: mem_fake_def tracker_Invokes_def Let_def mem_store_delete simp del: action_path.simps split: if_splits)
qed

section \<open>The property\<close>

text \<open>C16: the fake clients meet the specification of the real ones. On an object tracker every method that reads or
  writes one object, or deletes a collection, ends without a panic and does to the objects what the method of the
  real client may do: a read returns the object its arguments name, a creation adds it under its name if it was not
  there, an update replaces it, a deletion removes it, and an error leaves everything as it was. The read of an
  object that does not exist returns nil and an error, where the real client returns an empty object.\<close>

theorem fakes_meet_spec:
  assumes "object_tracker F store"
  shows "\<exists>ans er s'. run_fake \<lparr>fa_Fake = F\<rparr> call s = (Inr (ans, er), s') \<and> api_effect call (store s) (ans, er) (store s') \<and>
    (kind_of_call call = Read \<longrightarrow> store s (target_of call) = None \<longrightarrow> ans = None \<and> er \<noteq> None)"
  by (rule object_tracker.fake_effect [OF assms])

theorem fakes_meet_spec_witness:
  "\<exists>er s'. run_fake \<lparr>fa_Fake = mem_fake\<rparr> (NagGet ''io'' \<lparr>go_ResourceVersion = ''''\<rparr>) [] = (Inr (None, er), s') \<and> er \<noteq> None"
  using fakes_meet_spec [OF mem_tracker.object_tracker_axioms, of "NagGet ''io'' \<lparr>go_ResourceVersion = ''''\<rparr>" "[]"]
  by (auto simp: mem_store_def)

end
