(* ===== verification/Informers.thy ===== *)
theory Informers
  imports ClientSet
begin

text \<open>
  \<^verbatim>\<open>pkg/client/informers/externalversions\<close> and \<^verbatim>\<open>pkg/client/listers\<close>: the shared informer factory, the informers of the
  three resources and the listers over their caches. \<^verbatim>\<open>cache.NewSharedIndexInformer\<close> allocates an informer: here a
  record of its arguments with an identity from a counter. \<^verbatim>\<open>Start\<close> returns the informers it runs in goroutines. The
  factory's lock makes each of its operations one step, so the runs of a factory are the sequences of \<open>fac_step\<close>.
  An indexer is a record of what the cache functions visit; \<open>indexer_of\<close> states its documented behaviour.
\<close>

section \<open>List and watch functions\<close>

datatype runtimeList =
    NagListObj "nag objectList" | ParListObj "podAssignmentRule objectList" | CparListObj "clusterPodAssignmentRule objectList"

record ('s, 'w) listWatch =
  lw_ListFunc :: "listOptions \<Rightarrow> 's \<Rightarrow> (runtimeList \<times> goerr option) \<times> 's"
  lw_WatchFunc :: "listOptions \<Rightarrow> 's \<Rightarrow> (goerr + 'w) \<times> 's"

text \<open>The \<^verbatim>\<open>reflect.Type\<close> of the objects.\<close>

datatype objType = CparType | NagType | ParType

type_synonym tweakFunc = "(listOptions \<Rightarrow> listOptions) option"

definition tweaked :: "tweakFunc \<Rightarrow> listOptions \<Rightarrow> listOptions" where
  "tweaked tweak opts = (case tweak of None \<Rightarrow> opts | Some t \<Rightarrow> t opts)"

record ('s, 'w) sharedInformer =
  si_id :: nat
  si_listWatch :: "('s, 'w) listWatch"
  si_type :: objType
  si_resync :: int
  si_indexers :: "string list"

text \<open>\<open>next\<close> is the identity of the next informer the process allocates.\<close>

definition NewSharedIndexInformer ::
    "('s, 'w) listWatch \<Rightarrow> objType \<Rightarrow> int \<Rightarrow> string list \<Rightarrow> nat \<Rightarrow> ('s, 'w) sharedInformer \<times> nat" where
  "NewSharedIndexInformer lw ty resync indexers next =
     (\<lparr>si_id = next, si_listWatch = lw, si_type = ty, si_resync = resync, si_indexers = indexers\<rparr>, Suc next)"

definition as_list :: "('a objectList \<Rightarrow> runtimeList) \<Rightarrow> ('a objectList \<times> goerr option) \<times> 's \<Rightarrow> (runtimeList \<times> goerr option) \<times> 's" where
  "as_list f r = (case r of ((l, e), s) \<Rightarrow> ((f l, e), s))"

definition NamespaceIndex :: string where "NamespaceIndex = ''namespace''"

section \<open>The informers of the three resources\<close>

definition NewFilteredClusterPodAssignmentRuleInformer ::
    "('s, 'r, 'w) assignmentsV1alpha1Client \<Rightarrow> int \<Rightarrow> string list \<Rightarrow> tweakFunc \<Rightarrow> nat \<Rightarrow> ('s, 'w) sharedInformer \<times> nat" where
  "NewFilteredClusterPodAssignmentRuleInformer client resync indexers tweak =
     NewSharedIndexInformer
       \<lparr>lw_ListFunc = (\<lambda>opts s. as_list CparListObj (cpars_List (newClusterPodAssignmentRules client) (tweaked tweak opts) s)),
        lw_WatchFunc = (\<lambda>opts. cpars_Watch (newClusterPodAssignmentRules client) (tweaked tweak opts))\<rparr>
       CparType resync indexers"

definition NewClusterPodAssignmentRuleInformer ::
    "('s, 'r, 'w) assignmentsV1alpha1Client \<Rightarrow> int \<Rightarrow> string list \<Rightarrow> nat \<Rightarrow> ('s, 'w) sharedInformer \<times> nat" where
  "NewClusterPodAssignmentRuleInformer client resync indexers =
     NewFilteredClusterPodAssignmentRuleInformer client resync indexers None"

definition NewFilteredNodeAssignmentGroupInformer ::
    "('s, 'r, 'w) assignmentsV1alpha1Client \<Rightarrow> int \<Rightarrow> string list \<Rightarrow> tweakFunc \<Rightarrow> nat \<Rightarrow> ('s, 'w) sharedInformer \<times> nat" where
  "NewFilteredNodeAssignmentGroupInformer client resync indexers tweak =
     NewSharedIndexInformer
       \<lparr>lw_ListFunc = (\<lambda>opts s. as_list NagListObj (nags_List (newNodeAssignmentGroups client) (tweaked tweak opts) s)),
        lw_WatchFunc = (\<lambda>opts. nags_Watch (newNodeAssignmentGroups client) (tweaked tweak opts))\<rparr>
       NagType resync indexers"

definition NewNodeAssignmentGroupInformer ::
    "('s, 'r, 'w) assignmentsV1alpha1Client \<Rightarrow> int \<Rightarrow> string list \<Rightarrow> nat \<Rightarrow> ('s, 'w) sharedInformer \<times> nat" where
  "NewNodeAssignmentGroupInformer client resync indexers =
     NewFilteredNodeAssignmentGroupInformer client resync indexers None"

definition NewFilteredPodAssignmentRuleInformer ::
    "('s, 'r, 'w) assignmentsV1alpha1Client \<Rightarrow> string \<Rightarrow> int \<Rightarrow> string list \<Rightarrow> tweakFunc \<Rightarrow> nat \<Rightarrow>
     ('s, 'w) sharedInformer \<times> nat" where
  "NewFilteredPodAssignmentRuleInformer client namespace resync indexers tweak =
     NewSharedIndexInformer
       \<lparr>lw_ListFunc = (\<lambda>opts s. as_list ParListObj (pars_List (newPodAssignmentRules client namespace) (tweaked tweak opts) s)),
        lw_WatchFunc = (\<lambda>opts. pars_Watch (newPodAssignmentRules client namespace) (tweaked tweak opts))\<rparr>
       ParType resync indexers"

definition NewPodAssignmentRuleInformer ::
    "('s, 'r, 'w) assignmentsV1alpha1Client \<Rightarrow> string \<Rightarrow> int \<Rightarrow> string list \<Rightarrow> nat \<Rightarrow> ('s, 'w) sharedInformer \<times> nat" where
  "NewPodAssignmentRuleInformer client namespace resync indexers =
     NewFilteredPodAssignmentRuleInformer client namespace resync indexers None"

section \<open>The factory\<close>

text \<open>\<open>sf_informers\<close> in the order in which a \<^verbatim>\<open>range\<close> loop visits it.\<close>

record ('s, 'r, 'w) informerFactory =
  sf_client :: "('s, 'r, 'w) assignmentsV1alpha1Client"
  sf_namespace :: string
  sf_tweakListOptions :: tweakFunc
  sf_defaultResync :: int
  sf_customResync :: "objType \<rightharpoonup> int"
  sf_informers :: "(objType \<times> ('s, 'w) sharedInformer) list"
  sf_startedInformers :: "objType \<rightharpoonup> bool"
  sf_next :: nat

type_synonym ('s, 'r, 'w) informerOption = "('s, 'r, 'w) informerFactory \<Rightarrow> ('s, 'r, 'w) informerFactory"

definition WithCustomResyncConfig :: "(objType \<times> int) list \<Rightarrow> ('s, 'r, 'w) informerOption" where
  "WithCustomResyncConfig cfg f = fold (\<lambda>(k, v) f. f\<lparr>sf_customResync := (sf_customResync f)(k \<mapsto> v)\<rparr>) cfg f"

definition WithTweakListOptions :: "tweakFunc \<Rightarrow> ('s, 'r, 'w) informerOption" where
  "WithTweakListOptions tweak f = f\<lparr>sf_tweakListOptions := tweak\<rparr>"

definition WithNamespace :: "string \<Rightarrow> ('s, 'r, 'w) informerOption" where
  "WithNamespace namespace f = f\<lparr>sf_namespace := namespace\<rparr>"

definition NewSharedInformerFactoryWithOptions ::
    "('s, 'r, 'w) assignmentsV1alpha1Client \<Rightarrow> int \<Rightarrow> ('s, 'r, 'w) informerOption list \<Rightarrow> ('s, 'r, 'w) informerFactory" where
  "NewSharedInformerFactoryWithOptions client defaultResync options =
     fold (\<lambda>opt f. opt f) options
       \<lparr>sf_client = client, sf_namespace = '''', sf_tweakListOptions = None, sf_defaultResync = defaultResync,
        sf_customResync = Map.empty, sf_informers = [], sf_startedInformers = Map.empty, sf_next = 0\<rparr>"

definition NewSharedInformerFactory ::
    "('s, 'r, 'w) assignmentsV1alpha1Client \<Rightarrow> int \<Rightarrow> ('s, 'r, 'w) informerFactory" where
  "NewSharedInformerFactory client defaultResync = NewSharedInformerFactoryWithOptions client defaultResync []"

definition NewFilteredSharedInformerFactory ::
    "('s, 'r, 'w) assignmentsV1alpha1Client \<Rightarrow> int \<Rightarrow> string \<Rightarrow> tweakFunc \<Rightarrow> ('s, 'r, 'w) informerFactory" where
  "NewFilteredSharedInformerFactory client defaultResync namespace tweak =
     NewSharedInformerFactoryWithOptions client defaultResync [WithNamespace namespace, WithTweakListOptions tweak]"

definition is_started :: "('s, 'r, 'w) informerFactory \<Rightarrow> objType \<Rightarrow> bool" where
  "is_started f ty = (case sf_startedInformers f ty of None \<Rightarrow> False | Some b \<Rightarrow> b)"

fun start_loop ::
    "(objType \<times> ('s, 'w) sharedInformer) list \<Rightarrow> ('s, 'r, 'w) informerFactory \<Rightarrow>
     ('s, 'w) sharedInformer list \<times> ('s, 'r, 'w) informerFactory" where
  "start_loop [] f = ([], f)"
| "start_loop ((ty, informer) # infs) f =
     (if \<not> is_started f ty
      then (case start_loop infs (f\<lparr>sf_startedInformers := (sf_startedInformers f)(ty \<mapsto> True)\<rparr>) of
              (run, f') \<Rightarrow> (informer # run, f'))
      else start_loop infs f)"

definition Start :: "('s, 'r, 'w) informerFactory \<Rightarrow> ('s, 'w) sharedInformer list \<times> ('s, 'r, 'w) informerFactory" where
  "Start f = start_loop (sf_informers f) f"

text \<open>\<open>synced\<close> is what \<^verbatim>\<open>cache.WaitForCacheSync\<close> answers for an informer.\<close>

definition WaitForCacheSync ::
    "(('s, 'w) sharedInformer \<Rightarrow> bool) \<Rightarrow> ('s, 'r, 'w) informerFactory \<Rightarrow> (objType \<times> bool) list" where
  "WaitForCacheSync synced f =
     map (\<lambda>(ty, informer). (ty, synced informer)) (filter (\<lambda>(ty, informer). is_started f ty) (sf_informers f))"

definition InformerFor ::
    "objType \<Rightarrow> (('s, 'r, 'w) assignmentsV1alpha1Client \<Rightarrow> int \<Rightarrow> nat \<Rightarrow> ('s, 'w) sharedInformer \<times> nat) \<Rightarrow>
     ('s, 'r, 'w) informerFactory \<Rightarrow> ('s, 'w) sharedInformer \<times> ('s, 'r, 'w) informerFactory" where
  "InformerFor ty newFunc f =
     (case map_of (sf_informers f) ty of
        Some informer \<Rightarrow> (informer, f)
      | None \<Rightarrow>
          (let resyncPeriod = (case sf_customResync f ty of Some r \<Rightarrow> r | None \<Rightarrow> sf_defaultResync f)
           in case newFunc (sf_client f) resyncPeriod (sf_next f) of
                (informer, n) \<Rightarrow> (informer, f\<lparr>sf_informers := AList.update ty informer (sf_informers f), sf_next := n\<rparr>)))"

text \<open>\<^verbatim>\<open>f.Assignments().V1alpha1()\<close> hands the namespace and the tweak function of the factory to the accessors.\<close>

record informerScope =
  is_namespace :: string
  is_tweak :: tweakFunc

definition V1alpha1 :: "('s, 'r, 'w) informerFactory \<Rightarrow> informerScope" where
  "V1alpha1 f = \<lparr>is_namespace = sf_namespace f, is_tweak = sf_tweakListOptions f\<rparr>"

definition cpar_Informer :: "('s, 'r, 'w) informerFactory \<Rightarrow> ('s, 'w) sharedInformer \<times> ('s, 'r, 'w) informerFactory" where
  "cpar_Informer f =
     InformerFor CparType (\<lambda>client resync. NewFilteredClusterPodAssignmentRuleInformer client resync [NamespaceIndex] (is_tweak (V1alpha1 f))) f"

definition nag_Informer :: "('s, 'r, 'w) informerFactory \<Rightarrow> ('s, 'w) sharedInformer \<times> ('s, 'r, 'w) informerFactory" where
  "nag_Informer f =
     InformerFor NagType (\<lambda>client resync. NewFilteredNodeAssignmentGroupInformer client resync [NamespaceIndex] (is_tweak (V1alpha1 f))) f"

definition par_Informer :: "('s, 'r, 'w) informerFactory \<Rightarrow> ('s, 'w) sharedInformer \<times> ('s, 'r, 'w) informerFactory" where
  "par_Informer f =
     InformerFor ParType (\<lambda>client resync. NewFilteredPodAssignmentRuleInformer client (is_namespace (V1alpha1 f)) resync [NamespaceIndex]
       (is_tweak (V1alpha1 f))) f"

text \<open>Group, version and resource; the error keeps the constant part of its message.\<close>

type_synonym gvr = "string \<times> string \<times> string"

record ('s, 'w) genericInformer =
  gi_informer :: "('s, 'w) sharedInformer"
  gi_resource :: "string \<times> string"

definition ForResource ::
    "gvr \<Rightarrow> ('s, 'r, 'w) informerFactory \<Rightarrow> (goerr + ('s, 'w) genericInformer) \<times> ('s, 'r, 'w) informerFactory" where
  "ForResource resource f =
     (case resource of (g, v, r) \<Rightarrow>
        (let generic = (\<lambda>(informer, f'). (Inr \<lparr>gi_informer = informer, gi_resource = (g, r)\<rparr>, f'))
         in if (g, v) = SchemeGroupVersion \<and> r = ''clusterpodassignmentrules'' then generic (cpar_Informer f)
            else if (g, v) = SchemeGroupVersion \<and> r = ''nodeassignmentgroups'' then generic (nag_Informer f)
            else if (g, v) = SchemeGroupVersion \<and> r = ''podassignmentrules'' then generic (par_Informer f)
            else (Inl (OtherErr ''no informer found''), f)))"

section \<open>Listers\<close>

text \<open>\<^verbatim>\<open>cache.ListAll\<close> and \<^verbatim>\<open>cache.ListAllByNamespace\<close> call a function for each object; here they return the objects they
  visit. \<open>'l\<close> is a label selector.\<close>

record ('l, 'a) indexer =
  ix_ListAll :: "'l \<Rightarrow> 'a list \<times> goerr option"
  ix_ListAllByNamespace :: "string \<Rightarrow> 'l \<Rightarrow> 'a list \<times> goerr option"
  ix_GetByKey :: "string \<Rightarrow> goerr + 'a option"

definition append_each :: "'a list \<times> goerr option \<Rightarrow> 'a list \<times> goerr option" where
  "append_each r = (case r of (found, err) \<Rightarrow> (fold (\<lambda>m ret. ret @ [m]) found [], err))"

definition nagLister_List :: "('l, nag) indexer \<Rightarrow> 'l \<Rightarrow> nag list \<times> goerr option" where
  "nagLister_List ix selector = append_each (ix_ListAll ix selector)"

definition nagLister_Get :: "('l, nag) indexer \<Rightarrow> string \<Rightarrow> goerr + nag" where
  "nagLister_Get ix name =
     (case ix_GetByKey ix name of
        Inl err \<Rightarrow> Inl err | Inr None \<Rightarrow> Inl (NotFound name) | Inr (Some obj) \<Rightarrow> Inr obj)"

definition cparLister_List ::
    "('l, clusterPodAssignmentRule) indexer \<Rightarrow> 'l \<Rightarrow> clusterPodAssignmentRule list \<times> goerr option" where
  "cparLister_List ix selector = append_each (ix_ListAll ix selector)"

definition cparLister_Get :: "('l, clusterPodAssignmentRule) indexer \<Rightarrow> string \<Rightarrow> goerr + clusterPodAssignmentRule" where
  "cparLister_Get ix name =
     (case ix_GetByKey ix name of
        Inl err \<Rightarrow> Inl err | Inr None \<Rightarrow> Inl (NotFound name) | Inr (Some obj) \<Rightarrow> Inr obj)"

definition parLister_List :: "('l, podAssignmentRule) indexer \<Rightarrow> 'l \<Rightarrow> podAssignmentRule list \<times> goerr option" where
  "parLister_List ix selector = append_each (ix_ListAll ix selector)"

record 'l podAssignmentRuleNamespaceLister =
  pnl_indexer :: "('l, podAssignmentRule) indexer"
  pnl_namespace :: string

definition parLister_PodAssignmentRules :: "('l, podAssignmentRule) indexer \<Rightarrow> string \<Rightarrow> 'l podAssignmentRuleNamespaceLister" where
  "parLister_PodAssignmentRules ix namespace = \<lparr>pnl_indexer = ix, pnl_namespace = namespace\<rparr>"

definition parNamespaceLister_List :: "'l podAssignmentRuleNamespaceLister \<Rightarrow> 'l \<Rightarrow> podAssignmentRule list \<times> goerr option" where
  "parNamespaceLister_List x selector = append_each (ix_ListAllByNamespace (pnl_indexer x) (pnl_namespace x) selector)"

definition parNamespaceLister_Get :: "'l podAssignmentRuleNamespaceLister \<Rightarrow> string \<Rightarrow> goerr + podAssignmentRule" where
  "parNamespaceLister_Get x name =
     (case ix_GetByKey (pnl_indexer x) (pnl_namespace x @ ''/'' @ name) of
        Inl err \<Rightarrow> Inl err | Inr None \<Rightarrow> Inl (NotFound name) | Inr (Some obj) \<Rightarrow> Inr obj)"

text \<open>\<^verbatim>\<open>Lister()\<close> of an informer reads the indexer of the shared informer; \<open>GetIndexer\<close> is a method of the latter.\<close>

definition nag_Lister ::
    "(('s, 'w) sharedInformer \<Rightarrow> 'i) \<Rightarrow> ('s, 'r, 'w) informerFactory \<Rightarrow> 'i \<times> ('s, 'r, 'w) informerFactory" where
  "nag_Lister GetIndexer f = (case nag_Informer f of (informer, f') \<Rightarrow> (GetIndexer informer, f'))"

definition cpar_Lister ::
    "(('s, 'w) sharedInformer \<Rightarrow> 'i) \<Rightarrow> ('s, 'r, 'w) informerFactory \<Rightarrow> 'i \<times> ('s, 'r, 'w) informerFactory" where
  "cpar_Lister GetIndexer f = (case cpar_Informer f of (informer, f') \<Rightarrow> (GetIndexer informer, f'))"

definition par_Lister ::
    "(('s, 'w) sharedInformer \<Rightarrow> 'i) \<Rightarrow> ('s, 'r, 'w) informerFactory \<Rightarrow> 'i \<times> ('s, 'r, 'w) informerFactory" where
  "par_Lister GetIndexer f = (case par_Informer f of (informer, f') \<Rightarrow> (GetIndexer informer, f'))"

section \<open>What an indexer holds\<close>

text \<open>\<^verbatim>\<open>MetaNamespaceKeyFunc\<close>, the key function of the informers.\<close>

definition meta_key :: "objectMeta \<Rightarrow> string" where
  "meta_key m = (if om_Namespace m = [] then om_Name m else om_Namespace m @ ''/'' @ om_Name m)"

lemma append_each_found: "append_each (found, err) = (found, err)"
proof -
  have "fold (\<lambda>m ret. ret @ [m]) found ys = ys @ found" for ys by (induction found arbitrary: ys) simp_all
  then show ?thesis by (simp add: append_each_def)
qed

lemma split_at_unique: "x \<notin> set as \<Longrightarrow> x \<notin> set bs \<Longrightarrow> as @ x # cs = bs @ x # ds \<longleftrightarrow> as = bs \<and> cs = ds"
proof (induction as arbitrary: bs)
  case Nil
  then show ?case by (cases bs) auto
next
  case (Cons a as)
  then show ?case by (cases bs) auto
qed

text \<open>The key a namespaced lister looks up is the key of the rule with that namespace and name, and of no other, as
  long as a namespace has no slash.\<close>

lemma meta_key_namespaced:
  assumes "ns \<noteq> []" and "CHR ''/'' \<notin> set ns" and "CHR ''/'' \<notin> set (om_Namespace m)" and "CHR ''/'' \<notin> set (om_Name m)"
  shows "meta_key m = ns @ ''/'' @ nm \<longleftrightarrow> om_Namespace m = ns \<and> om_Name m = nm"
proof
  assume k: "meta_key m = ns @ ''/'' @ nm"
  then have "om_Namespace m \<noteq> []" using assms(4) by (auto simp: meta_key_def split: if_splits)
  then have "om_Namespace m @ CHR ''/'' # om_Name m = ns @ CHR ''/'' # nm" using k by (simp add: meta_key_def)
  then show "om_Namespace m = ns \<and> om_Name m = nm" using assms(2,3) by (simp add: split_at_unique)
qed (use assms(1) in \<open>simp add: meta_key_def\<close>)

text \<open>Object names and namespaces are DNS labels or subdomains: they have no slash.\<close>

locale indexer_of =
  fixes ix :: "('l, 'a) indexer" and objs :: "'a list" and meta :: "'a \<Rightarrow> objectMeta"
    and selects :: "'l \<Rightarrow> string gomap \<Rightarrow> bool"
  assumes list_all_of: "ix_ListAll ix sel = (found, None) \<Longrightarrow> set found = {x \<in> set objs. selects sel (om_Labels (meta x))}"
    and list_namespace: "ix_ListAllByNamespace ix ns sel = (found, None) \<Longrightarrow>
      set found = {x \<in> set objs. selects sel (om_Labels (meta x)) \<and> (ns = [] \<or> om_Namespace (meta x) = ns)}"
    and get_by_key: "ix_GetByKey ix k = Inr r \<Longrightarrow>
      (case r of None \<Rightarrow> \<forall>x \<in> set objs. meta_key (meta x) \<noteq> k | Some x \<Rightarrow> x \<in> set objs \<and> meta_key (meta x) = k)"
    and no_slash: "x \<in> set objs \<Longrightarrow> CHR ''/'' \<notin> set (om_Namespace (meta x)) \<and> CHR ''/'' \<notin> set (om_Name (meta x))"
begin

lemma list_lister: "append_each (ix_ListAll ix sel) = (found, None) \<Longrightarrow>
    set found = {x \<in> set objs. selects sel (om_Labels (meta x))}"
  using list_all_of by (cases "ix_ListAll ix sel") (auto simp: append_each_found)

lemma namespace_lister: "append_each (ix_ListAllByNamespace ix ns sel) = (found, None) \<Longrightarrow>
    set found = {x \<in> set objs. selects sel (om_Labels (meta x)) \<and> (ns = [] \<or> om_Namespace (meta x) = ns)}"
  using list_namespace by (cases "ix_ListAllByNamespace ix ns sel") (auto simp: append_each_found)

lemma key_found:
  assumes "ns \<noteq> []" and "CHR ''/'' \<notin> set ns" and "ix_GetByKey ix (ns @ ''/'' @ nm) = Inr r"
  shows "case r of None \<Rightarrow> \<forall>x \<in> set objs. \<not> (om_Namespace (meta x) = ns \<and> om_Name (meta x) = nm)
    | Some x \<Rightarrow> x \<in> set objs \<and> om_Namespace (meta x) = ns \<and> om_Name (meta x) = nm"
  using get_by_key [OF assms(3)] meta_key_namespaced [OF assms(1,2)] no_slash by (auto split: option.splits)

end

text \<open>A cache that is a list, with selectors as predicates on label maps.\<close>

definition list_indexer :: "'a list \<Rightarrow> ('a \<Rightarrow> objectMeta) \<Rightarrow> (string gomap \<Rightarrow> bool, 'a) indexer" where
  "list_indexer objs meta = \<lparr>
     ix_ListAll = (\<lambda>sel. (filter (\<lambda>x. sel (om_Labels (meta x))) objs, None)),
     ix_ListAllByNamespace = (\<lambda>ns sel. (filter (\<lambda>x. sel (om_Labels (meta x)) \<and> (ns = [] \<or> om_Namespace (meta x) = ns)) objs, None)),
     ix_GetByKey = (\<lambda>k. Inr (find (\<lambda>x. meta_key (meta x) = k) objs))\<rparr>"

lemma list_indexer_of:
  assumes "\<And>x. x \<in> set objs \<Longrightarrow> CHR ''/'' \<notin> set (om_Namespace (meta x)) \<and> CHR ''/'' \<notin> set (om_Name (meta x))"
  shows "indexer_of (list_indexer objs meta) objs meta (\<lambda>sel. sel)"
proof (unfold_locales, goal_cases)
  case (3 k r)
  have "case find P objs of None \<Rightarrow> \<forall>x \<in> set objs. \<not> P x | Some x \<Rightarrow> x \<in> set objs \<and> P x" for P
    by (induction objs) (auto split: option.splits)
  then show ?case using 3 by (auto simp: list_indexer_def)
qed (use assms in \<open>auto simp: list_indexer_def\<close>)

definition demo_rules :: "podAssignmentRule list" where
  "demo_rules = [\<lparr>par_meta = cli_meta ''web'' ''team'', par_Spec = zero_ruleSpec\<rparr>,
     \<lparr>par_meta = cli_meta ''web'' ''other'', par_Spec = zero_ruleSpec\<rparr>]"

interpretation demo_cache: indexer_of "list_indexer demo_rules par_meta" demo_rules par_meta "\<lambda>sel. sel"
  by (rule list_indexer_of) (auto simp: demo_rules_def cli_meta_def)

text \<open>The namespaced lister: a rule is found exactly under its own namespace and name, and the list has the
  selected rules of the namespace.\<close>

lemma parNamespaceLister_correct:
  assumes "indexer_of ix objs par_meta selects" and "ns \<noteq> []" and "CHR ''/'' \<notin> set ns"
    and "ix_GetByKey ix (ns @ ''/'' @ nm) = Inr r"
  shows "case parNamespaceLister_Get (parLister_PodAssignmentRules ix ns) nm of
      Inl e \<Rightarrow> e = NotFound nm \<and> (\<forall>x \<in> set objs. \<not> (om_Namespace (par_meta x) = ns \<and> om_Name (par_meta x) = nm))
    | Inr x \<Rightarrow> x \<in> set objs \<and> om_Namespace (par_meta x) = ns \<and> om_Name (par_meta x) = nm"
  using indexer_of.key_found [OF assms] assms(4)
  by (cases r) (simp_all add: parNamespaceLister_Get_def parLister_PodAssignmentRules_def)

lemma parNamespaceLister_List_correct:
  assumes "indexer_of ix objs par_meta selects" and "ns \<noteq> []"
    and "parNamespaceLister_List (parLister_PodAssignmentRules ix ns) sel = (found, None)"
  shows "set found = {x \<in> set objs. selects sel (om_Labels (par_meta x)) \<and> om_Namespace (par_meta x) = ns}"
  using indexer_of.namespace_lister [OF assms(1)] assms(2,3)
  by (simp add: parNamespaceLister_List_def parLister_PodAssignmentRules_def)

section \<open>The runs of a factory\<close>

datatype facOption = CustomResync "(objType \<times> int) list" | TweakListOptions tweakFunc | InNamespace string

fun the_option :: "facOption \<Rightarrow> ('s, 'r, 'w) informerOption" where
  "the_option (CustomResync cfg) = WithCustomResyncConfig cfg"
| "the_option (TweakListOptions tweak) = WithTweakListOptions tweak"
| "the_option (InNamespace ns) = WithNamespace ns"

datatype facOp = UseInformer objType | UseResource gvr | StartAll

fun Informer_of :: "objType \<Rightarrow> ('s, 'r, 'w) informerFactory \<Rightarrow> ('s, 'w) sharedInformer \<times> ('s, 'r, 'w) informerFactory" where
  "Informer_of CparType f = cpar_Informer f"
| "Informer_of NagType f = nag_Informer f"
| "Informer_of ParType f = par_Informer f"

text \<open>An operation, and the informers it sets running.\<close>

fun fac_do :: "facOp \<Rightarrow> ('s, 'r, 'w) informerFactory \<Rightarrow> ('s, 'w) sharedInformer list \<times> ('s, 'r, 'w) informerFactory" where
  "fac_do (UseInformer ty) f = ([], snd (Informer_of ty f))"
| "fac_do (UseResource res) f = ([], snd (ForResource res f))"
| "fac_do StartAll f = Start f"

text \<open>\<open>running\<close> are the informers that were set running so far, in order.\<close>

inductive fac_reach ::
    "('s, 'r, 'w) assignmentsV1alpha1Client \<Rightarrow> int \<Rightarrow> facOption list \<Rightarrow>
     ('s, 'w) sharedInformer list \<Rightarrow> ('s, 'r, 'w) informerFactory \<Rightarrow> bool"
  for client :: "('s, 'r, 'w) assignmentsV1alpha1Client" and resync :: int and options :: "facOption list" where
  new: "fac_reach client resync options [] (NewSharedInformerFactoryWithOptions client resync (map the_option options))"
| op: "fac_reach client resync options running f \<Longrightarrow> fac_do op f = (run, f') \<Longrightarrow>
    fac_reach client resync options (running @ run) f'"

text \<open>The list and watch functions an informer of a type must have, by the configuration of the factory.\<close>

fun lists_as :: "('s, 'r, 'w) assignmentsV1alpha1Client \<Rightarrow> string \<Rightarrow> tweakFunc \<Rightarrow> objType \<Rightarrow> ('s, 'w) listWatch" where
  "lists_as c ns tweak CparType =
     \<lparr>lw_ListFunc = (\<lambda>opts s. as_list CparListObj (cpars_List (newClusterPodAssignmentRules c) (tweaked tweak opts) s)),
      lw_WatchFunc = (\<lambda>opts. cpars_Watch (newClusterPodAssignmentRules c) (tweaked tweak opts))\<rparr>"
| "lists_as c ns tweak NagType =
     \<lparr>lw_ListFunc = (\<lambda>opts s. as_list NagListObj (nags_List (newNodeAssignmentGroups c) (tweaked tweak opts) s)),
      lw_WatchFunc = (\<lambda>opts. nags_Watch (newNodeAssignmentGroups c) (tweaked tweak opts))\<rparr>"
| "lists_as c ns tweak ParType =
     \<lparr>lw_ListFunc = (\<lambda>opts s. as_list ParListObj (pars_List (newPodAssignmentRules c ns) (tweaked tweak opts) s)),
      lw_WatchFunc = (\<lambda>opts. pars_Watch (newPodAssignmentRules c ns) (tweaked tweak opts))\<rparr>"

definition configured :: "('s, 'r, 'w) informerFactory \<Rightarrow> objType \<Rightarrow> ('s, 'w) sharedInformer \<Rightarrow> bool" where
  "configured f ty i \<longleftrightarrow> si_type i = ty \<and> si_indexers i = [NamespaceIndex] \<and>
     si_resync i = (case sf_customResync f ty of Some r \<Rightarrow> r | None \<Rightarrow> sf_defaultResync f) \<and>
     si_listWatch i = lists_as (sf_client f) (sf_namespace f) (sf_tweakListOptions f) ty"

definition fac_inv :: "('s, 'w) sharedInformer list \<Rightarrow> ('s, 'r, 'w) informerFactory \<Rightarrow> bool" where
  "fac_inv running f \<longleftrightarrow>
     distinct (map fst (sf_informers f)) \<and> distinct (map (\<lambda>e. si_id (snd e)) (sf_informers f)) \<and>
     (\<forall>(ty, i) \<in> set (sf_informers f). configured f ty i \<and> si_id i < sf_next f) \<and>
     distinct running \<and> (\<forall>ty. is_started f ty \<longrightarrow> ty \<in> fst ` set (sf_informers f)) \<and>
     set running = {i. \<exists>ty. (ty, i) \<in> set (sf_informers f) \<and> is_started f ty}"

definition same_config :: "('s, 'r, 'w) informerFactory \<Rightarrow> ('s, 'r, 'w) informerFactory \<Rightarrow> bool" where
  "same_config f f' \<longleftrightarrow> sf_client f' = sf_client f \<and> sf_namespace f' = sf_namespace f \<and>
     sf_tweakListOptions f' = sf_tweakListOptions f \<and> sf_defaultResync f' = sf_defaultResync f \<and>
     sf_customResync f' = sf_customResync f"

lemma Informer_of_step:
  "Informer_of ty f = (i, f') \<longleftrightarrow>
     (case map_of (sf_informers f) ty of
        Some j \<Rightarrow> i = j \<and> f' = f
      | None \<Rightarrow> i = \<lparr>si_id = sf_next f, si_listWatch = lists_as (sf_client f) (sf_namespace f) (sf_tweakListOptions f) ty,
          si_type = ty, si_resync = (case sf_customResync f ty of Some r \<Rightarrow> r | None \<Rightarrow> sf_defaultResync f),
          si_indexers = [NamespaceIndex]\<rparr> \<and>
          f' = f\<lparr>sf_informers := AList.update ty i (sf_informers f), sf_next := Suc (sf_next f)\<rparr>)"
  by (cases ty)
    (auto simp: cpar_Informer_def nag_Informer_def par_Informer_def InformerFor_def Let_def V1alpha1_def
      NewFilteredClusterPodAssignmentRuleInformer_def NewFilteredNodeAssignmentGroupInformer_def
      NewFilteredPodAssignmentRuleInformer_def NewSharedIndexInformer_def split: option.splits)

lemma Informer_of_inv:
  assumes "fac_inv running f" and "Informer_of ty f = (i, f')"
  shows "fac_inv running f' \<and> same_config f f' \<and> map_of (sf_informers f') ty = Some i"
proof (cases "map_of (sf_informers f) ty")
  case (Some j)
  then show ?thesis using assms by (simp add: Informer_of_step same_config_def)
next
  case None
  then have n: "ty \<notin> fst ` set (sf_informers f)" by (simp add: map_of_eq_None_iff)
  have f': "f' = f\<lparr>sf_informers := sf_informers f @ [(ty, i)], sf_next := Suc (sf_next f)\<rparr>"
      "configured f' ty i" "si_id i = sf_next f"
    using assms(2) None by (simp_all add: Informer_of_step update_append_fresh [OF n] configured_def cong: option.case_cong)
  have c: "configured f' = configured f" by (intro ext) (simp add: f'(1) configured_def cong: option.case_cong)
  have "si_id j < sf_next f" if "(t, j) \<in> set (sf_informers f)" for t j
    using assms(1) that by (auto simp: fac_inv_def)
  then have "sf_next f \<notin> (\<lambda>e. si_id (snd e)) ` set (sf_informers f)" by fastforce
  then show ?thesis
    using assms(1) f'(2,3) n unfolding fac_inv_def c
    by (auto simp: f'(1) same_config_def is_started_def map_add_def None)
qed

lemma start_loop_spec:
  "distinct (map fst es) \<Longrightarrow> start_loop es f = (run, f') \<Longrightarrow>
   run = map snd (filter (\<lambda>e. \<not> is_started f (fst e)) es) \<and>
   (\<forall>ty. is_started f' ty \<longleftrightarrow> is_started f ty \<or> ty \<in> fst ` set es) \<and>
   f' = f\<lparr>sf_startedInformers := sf_startedInformers f'\<rparr>"
proof (induction es arbitrary: f run)
  case Nil
  then show ?case by simp
next
  case (Cons e es)
  obtain ty i where e: "e = (ty, i)" by force
  show ?case
  proof (cases "is_started f ty")
    case True
    then show ?thesis using Cons by (auto simp: e)
  next
    case False
    let ?g = "f\<lparr>sf_startedInformers := (sf_startedInformers f)(ty \<mapsto> True)\<rparr>"
    obtain run' where l: "start_loop es ?g = (run', f')" "run = i # run'"
      using Cons.prems(2) False by (auto simp: e split: prod.splits)
    have g: "is_started ?g t \<longleftrightarrow> is_started f t \<or> t = ty" for t by (simp add: is_started_def)
    have "filter (\<lambda>e. \<not> is_started ?g (fst e)) es = filter (\<lambda>e. \<not> is_started f (fst e)) es"
      using Cons.prems(1) by (intro filter_cong) (auto simp: e g)
    then show ?thesis using Cons.IH [OF _ l(1)] Cons.prems(1) l(2) False by (auto simp: e g)
  qed
qed

lemma Start_inv:
  assumes "fac_inv running f" and "Start f = (run, f')"
  shows "fac_inv (running @ run) f' \<and> same_config f f' \<and> sf_informers f' = sf_informers f \<and>
    set (running @ run) = snd ` set (sf_informers f')"
proof -
  have d: "distinct (map fst (sf_informers f))" using assms(1) by (simp add: fac_inv_def)
  note s = start_loop_spec [OF d assms(2) [unfolded Start_def]]
  define m where "m = sf_startedInformers f'"
  have f': "f' = f\<lparr>sf_startedInformers := m\<rparr>" using s by (simp add: m_def)
  have run: "run = map snd (filter (\<lambda>e. \<not> is_started f (fst e)) (sf_informers f))"
    and st: "\<And>ty. is_started f' ty \<longleftrightarrow> is_started f ty \<or> ty \<in> fst ` set (sf_informers f)" using s by blast+
  have c: "configured f' = configured f" by (intro ext) (simp add: f' configured_def cong: option.case_cong)
  have inj: "inj_on snd (set (sf_informers f))" and ids: "distinct (map snd (sf_informers f))"
    using assms(1) d by (auto simp: fac_inv_def distinct_map inj_on_def)
  have "distinct run" unfolding run using ids by (simp add: distinct_map_filter)
  moreover have "set running \<inter> set run = {}"
    using assms(1) inj by (auto simp: fac_inv_def run inj_on_def) fastforce
  moreover have "set (running @ run) = snd ` set (sf_informers f)"
    using assms(1) by (auto simp: fac_inv_def run image_iff) force+
  moreover have "snd ` set (sf_informers f) = {i. \<exists>ty. (ty, i) \<in> set (sf_informers f) \<and> is_started f' ty}"
    by (auto simp: st image_iff) force+
  ultimately show ?thesis using assms(1) st unfolding fac_inv_def c by (auto simp: f' same_config_def)
qed

lemma informer_exI:
  "cpar_Informer f = (i, f') \<Longrightarrow> \<exists>ty i. Informer_of ty f = (i, f')"
  "nag_Informer f = (i, f') \<Longrightarrow> \<exists>ty i. Informer_of ty f = (i, f')"
  "par_Informer f = (i, f') \<Longrightarrow> \<exists>ty i. Informer_of ty f = (i, f')"
  by (metis Informer_of.simps)+

lemma ForResource_inv:
  assumes "fac_inv running f" and "ForResource res f = (r, f')"
  shows "fac_inv running f' \<and> same_config f f' \<and> (f' = f \<or> (\<exists>ty i. Informer_of ty f = (i, f')))"
proof -
  have "f' = f \<or> (\<exists>ty i. Informer_of ty f = (i, f'))"
    using assms(2) by (auto simp: ForResource_def Let_def dest: informer_exI split: prod.splits if_splits)
  then show ?thesis using Informer_of_inv [OF assms(1)] assms(1) by (auto simp: same_config_def)
qed

lemma fac_do_inv:
  assumes "fac_inv running f" and "fac_do op f = (run, f')"
  shows "fac_inv (running @ run) f' \<and> same_config f f'"
  using assms(2)
proof (cases op)
  case (UseInformer ty)
  then show ?thesis using assms Informer_of_inv [OF assms(1), of ty] by (cases "Informer_of ty f") auto
next
  case (UseResource res)
  then show ?thesis using assms ForResource_inv [OF assms(1), of res] by (cases "ForResource res f") auto
next
  case StartAll
  then show ?thesis using assms Start_inv [OF assms(1)] by simp
qed

lemma Informer_of_keeps:
  "Informer_of ty f = (i, f') \<Longrightarrow> map_of (sf_informers f) t = Some j \<Longrightarrow> map_of (sf_informers f') t = Some j"
  by (auto simp: Informer_of_step update_conv' split: option.splits if_splits)

lemma fac_do_keeps:
  assumes "fac_inv running f" and "fac_do op f = (run, f')" and "map_of (sf_informers f) t = Some j"
  shows "map_of (sf_informers f') t = Some j"
proof (cases op)
  case (UseInformer ty)
  then show ?thesis using assms Informer_of_keeps by (cases "Informer_of ty f") auto
next
  case (UseResource res)
  then obtain r where r: "ForResource res f = (r, f')" using assms(2) by (cases "ForResource res f") auto
  then show ?thesis using assms(3) ForResource_inv [OF assms(1) r] Informer_of_keeps by blast
next
  case StartAll
  then show ?thesis using assms Start_inv [OF assms(1)] by simp
qed

definition fac_run :: "facOp list \<Rightarrow> ('s, 'r, 'w) informerFactory \<Rightarrow> ('s, 'r, 'w) informerFactory" where
  "fac_run ops f = fold (\<lambda>op f. snd (fac_do op f)) ops f"

lemma fac_run_keeps:
  "fac_inv running f \<Longrightarrow> map_of (sf_informers f) t = Some j \<Longrightarrow> map_of (sf_informers (fac_run ops f)) t = Some j"
proof (induction ops arbitrary: running f)
  case (Cons op ops)
  obtain run f1 where o1: "fac_do op f = (run, f1)" by force
  show ?case
    using Cons.IH [OF conjunct1 [OF fac_do_inv [OF Cons.prems(1) o1]] fac_do_keeps [OF Cons.prems(1) o1 Cons.prems(2)]]
    by (simp add: fac_run_def o1)
qed (simp add: fac_run_def)

lemma new_factory_inv:
  fixes client :: "('s, 'r, 'w) assignmentsV1alpha1Client"
  shows "fac_inv [] (NewSharedInformerFactoryWithOptions client resync (map the_option options))"
proof -
  have custom: "sf_informers (fold (\<lambda>(k, v) f. f\<lparr>sf_customResync := (sf_customResync f)(k \<mapsto> v)\<rparr>) cfg f) = sf_informers f \<and>
      sf_startedInformers (fold (\<lambda>(k, v) f. f\<lparr>sf_customResync := (sf_customResync f)(k \<mapsto> v)\<rparr>) cfg f) = sf_startedInformers f"
    for cfg and f :: "('s, 'r, 'w) informerFactory"
    by (induction cfg arbitrary: f) auto
  have "sf_informers (fold (\<lambda>opt f. opt f) (map the_option options) f) = sf_informers f \<and>
      sf_startedInformers (fold (\<lambda>opt f. opt f) (map the_option options) f) = sf_startedInformers f"
    for f :: "('s, 'r, 'w) informerFactory"
  proof (induction options arbitrary: f)
    case (Cons opt options)
    then show ?case
      by (cases opt) (simp_all add: WithCustomResyncConfig_def WithTweakListOptions_def WithNamespace_def custom)
  qed simp
  then show ?thesis by (simp add: fac_inv_def NewSharedInformerFactoryWithOptions_def is_started_def)
qed

lemma fac_reach_inv:
  "fac_reach client resync options running f \<Longrightarrow>
   fac_inv running f \<and> same_config (NewSharedInformerFactoryWithOptions client resync (map the_option options)) f"
proof (induction rule: fac_reach.induct)
  case new
  then show ?case by (simp add: new_factory_inv same_config_def)
next
  case (op running f op run f')
  then show ?case using fac_do_inv [of running f op run f'] by (auto simp: same_config_def)
qed

section \<open>The properties\<close>

text \<open>C17: the informers of a factory are shared, configured alike, and run once. Whatever sequence of operations
  brought a factory to its state: every informer it hands out for a type lists and watches through the typed client
  of that type with the tweak function, the namespace (rules only) and the resync period its options set, and every
  later request for the type, after any further operations, is answered with the same informer; no informer is ever
  set running twice; and after \<^verbatim>\<open>Start\<close> exactly the informers requested so far are running.\<close>

theorem shared_informers:
  assumes "fac_reach client resync options running f"
  shows "distinct running \<and>
    (\<forall>ty i f' ops. Informer_of ty f = (i, f') \<longrightarrow>
      configured (NewSharedInformerFactoryWithOptions client resync (map the_option options)) ty i \<and>
      fst (Informer_of ty (fac_run ops f')) = i) \<and>
    (\<forall>run f'. Start f = (run, f') \<longrightarrow> distinct (running @ run) \<and> set (running @ run) = snd ` set (sf_informers f'))"
proof (intro conjI allI impI)
  let ?f0 = "NewSharedInformerFactoryWithOptions client resync (map the_option options)"
  have inv: "fac_inv running f" and same: "same_config ?f0 f" using fac_reach_inv [OF assms] by simp_all
  show "distinct running" using inv by (simp add: fac_inv_def)
  fix ty i f' ops
  assume i: "Informer_of ty f = (i, f')"
  note inv' = Informer_of_inv [OF inv i]
  have "(ty, i) \<in> set (sf_informers f')" using inv' by (simp add: map_of_SomeD)
  then have "configured f' ty i" using inv' by (auto simp: fac_inv_def)
  then show "configured ?f0 ty i" using same inv' by (simp add: configured_def same_config_def cong: option.case_cong)
  have "map_of (sf_informers (fac_run ops f')) ty = Some i" using fac_run_keeps inv' by blast
  then show "fst (Informer_of ty (fac_run ops f')) = i"
    using Informer_of_step [of ty "fac_run ops f'" "fst (Informer_of ty (fac_run ops f'))"
        "snd (Informer_of ty (fac_run ops f'))"] by simp
next
  have inv: "fac_inv running f" using fac_reach_inv [OF assms] by simp
  fix run f' assume s: "Start f = (run, f')"
  show "distinct (running @ run)" using Start_inv [OF inv s] by (simp add: fac_inv_def)
  show "set (running @ run) = snd ` set (sf_informers f')" using Start_inv [OF inv s] by simp
qed

definition idle_client :: "(unit, unit, unit) assignmentsV1alpha1Client" where
  "idle_client = \<lparr>ac_restClient = \<lparr>rc_Do = (\<lambda>rq s. ((), s)), rc_Watch = (\<lambda>rq s. (Inr (), s)), rc_Error = (\<lambda>r. None),
     rc_IntoNag = (\<lambda>r g. (g, None)), rc_IntoPar = (\<lambda>r g. (g, None)), rc_IntoCpar = (\<lambda>r g. (g, None)),
     rc_IntoNagList = (\<lambda>r g. (g, None)), rc_IntoParList = (\<lambda>r g. (g, None)), rc_IntoCparList = (\<lambda>r g. (g, None))\<rparr>\<rparr>"

text \<open>Two types requested, started; then a third, one again, and a second start.\<close>

definition demo_options :: "facOption list" where
  "demo_options = [CustomResync [(NagType, 30)], InNamespace ''team'']"

definition demo_factory :: "(unit, unit, unit) informerFactory" where
  "demo_factory = fac_run [UseInformer NagType, UseResource (GroupName, ''v1alpha1'', ''podassignmentrules'')]
     (NewSharedInformerFactoryWithOptions idle_client 60 (map the_option demo_options))"

theorem shared_informers_witness:
  "distinct (fst (Start demo_factory)) \<and> length (fst (Start demo_factory)) = 2 \<and>
   set (fst (Start demo_factory)) = snd ` set (sf_informers (snd (Start demo_factory)))"
proof -
  let ?f0 = "NewSharedInformerFactoryWithOptions idle_client 60 (map the_option demo_options)"
  let ?f1 = "snd (fac_do (UseInformer NagType) ?f0)"
  have "fac_reach idle_client 60 demo_options ([] @ []) ?f1"
    by (rule fac_reach.op [OF fac_reach.new, of "UseInformer NagType"]) simp
  then have "fac_reach idle_client 60 demo_options (([] @ []) @ []) demo_factory"
    by (rule fac_reach.op [of _ _ _ _ _ "UseResource (GroupName, ''v1alpha1'', ''podassignmentrules'')"])
      (simp add: demo_factory_def fac_run_def)
  then have r: "fac_reach idle_client 60 demo_options [] demo_factory" by simp
  have "length (fst (Start demo_factory)) = 2"
    by (simp add: demo_factory_def fac_run_def demo_options_def NewSharedInformerFactoryWithOptions_def
        WithCustomResyncConfig_def WithNamespace_def nag_Informer_def par_Informer_def InformerFor_def ForResource_def
        SchemeGroupVersion_def GroupName_def NewFilteredNodeAssignmentGroupInformer_def
        NewFilteredPodAssignmentRuleInformer_def NewSharedIndexInformer_def Start_def is_started_def split: prod.splits)
  then show ?thesis using shared_informers [OF r] by (metis append_Nil prod.collapse)
qed

end
