(* ===== verification/Examples.thy ===== *)
theory Examples
  imports ClientSet RestMem
begin

text \<open>
  The programs under \<^verbatim>\<open>_examples/clients\<close>: \<^verbatim>\<open>crud.go\<close> creates a cluster-wide rule and updates it, retrying on
  conflicts, and \<^verbatim>\<open>list.go\<close> counts the rules. They compose the clientset, the typed clients and the retry helper
  the way every other client of the repository does. Formatted printing is left out, but for what is printed at the end.
\<close>

section \<open>The environment\<close>

text \<open>What the programs get from elsewhere. \<open>ex_kubeconfig\<close> is the value of the flag for a default; \<open>ex_isNil\<close>
  tells whether the map of target labels of a decoded rule is nil.\<close>

record ('s, 'r, 'w, 'l, 'z, 'd) exampleEnv =
  ex_Getenv :: "string \<Rightarrow> string"
  ex_Join :: "string list \<Rightarrow> string"
  ex_kubeconfig :: "string \<Rightarrow> string"
  ex_BuildConfigFromFlags :: "string \<Rightarrow> string \<Rightarrow> goerr + ('l, 'z) restConfig"
  ex_libs :: "('s, 'r, 'w, 'l, 'z, 'd) clientLibs"
  ex_Marshal :: "clusterPodAssignmentRule \<Rightarrow> goerr option"
  ex_isNil :: "clusterPodAssignmentRule \<Rightarrow> bool"
  ex_RetryOnConflict :: "('s \<Rightarrow> (gopanic + goerr option) \<times> 's) \<Rightarrow> 's \<Rightarrow> (gopanic + goerr option) \<times> 's"

definition homeDir :: "(string \<Rightarrow> string) \<Rightarrow> string" where
  "homeDir getenv = (let h = getenv ''HOME'' in if h \<noteq> '''' then h else getenv ''USERPROFILE'')"

text \<open>Both programs begin alike: the flag, the configuration, the clientset.\<close>

definition example_clientset ::
    "('s, 'r, 'w, 'l, 'z, 'd) exampleEnv \<Rightarrow> gopanic + ('s, 'r, 'w, 'd) clientset" where
  "example_clientset X =
     (let home = homeDir (ex_Getenv X);
          kubeconfig = ex_kubeconfig X (if home \<noteq> '''' then ex_Join X [home, ''.kube'', ''config''] else '''')
      in case ex_BuildConfigFromFlags X '''' kubeconfig of
           Inl err \<Rightarrow> Inl (PanicError err)
         | Inr config \<Rightarrow>
             (case NewForConfig (ex_libs X) config of Inl err \<Rightarrow> Inl (PanicError err) | Inr cs \<Rightarrow> Inr cs))"

section \<open>crud.go\<close>

definition example_rule :: clusterPodAssignmentRule where
  "example_rule =
     \<lparr>cpar_meta = cli_meta ''testassign'' '''',
      cpar_Spec = \<lparr>par_TargetLabels = [(''test'', ''true'')],
        par_Scheduling = \<lparr>prs_MergeStrategy = MergeStrategyDefault, prs_NodeSelector = None,
          prs_Affinity = Some \<lparr>aff_NodeAffinity = Some \<lparr>naff_Required = Some [\<lparr>nst_MatchExpressions =
              [\<lparr>nsr_Key = ''testkey'', nsr_Operator = ''In'', nsr_Values = [''testval'']\<rparr>]\<rparr>], naff_Preferred = []\<rparr>,
            aff_PodAffinity = None, aff_PodAntiAffinity = None\<rparr>,
          prs_Tolerations = []\<rparr>\<rparr>\<rparr>"

definition set_TargetLabel :: "string \<Rightarrow> string \<Rightarrow> clusterPodAssignmentRule \<Rightarrow> clusterPodAssignmentRule" where
  "set_TargetLabel k v r =
     r\<lparr>cpar_Spec := (cpar_Spec r)\<lparr>par_TargetLabels := AList.update k v (par_TargetLabels (cpar_Spec r))\<rparr>\<rparr>"

text \<open>The retried function: an error of the read is printed, and the label is set all the same.\<close>

definition crud_attempt ::
    "(clusterPodAssignmentRule \<Rightarrow> bool) \<Rightarrow> ('s, 'r, 'w) clusterPodAssignmentRules \<Rightarrow> 's
     \<Rightarrow> (gopanic + goerr option) \<times> 's" where
  "crud_attempt isNil c s =
     (case cpars_Get c ''testassign'' no_getOptions s of
        ((result, getErr), s1) \<Rightarrow>
          if isNil result then (Inl NilMapWrite, s1)
          else (case cpars_Update c (set_TargetLabel ''test'' ''false'' result) s1 of
                  ((_, updateErr), s2) \<Rightarrow> (Inr updateErr, s2)))"

text \<open>What is printed after the creation.\<close>

datatype crudPrint = PrintCreated clusterPodAssignmentRule | PrintUpdateFailed goerr | PrintUpdated

definition crud_main ::
    "('s, 'r, 'w, 'l, 'z, 'd) exampleEnv \<Rightarrow> 's \<Rightarrow> (gopanic + crudPrint list) \<times> 's" where
  "crud_main X s =
     (case example_clientset X of
        Inl p \<Rightarrow> (Inl p, s)
      | Inr cs \<Rightarrow>
          (let c = newClusterPodAssignmentRules (cs_assignmentsV1alpha1 cs) in
           case ex_Marshal X example_rule of
             Some err \<Rightarrow> (Inl (PanicError err), s)
           | None \<Rightarrow>
               (case cpars_Create c example_rule s of
                  ((_, Some err), s1) \<Rightarrow> (Inl (PanicError err), s1)
                | ((result, None), s1) \<Rightarrow>
                    (case ex_RetryOnConflict X (crud_attempt (ex_isNil X) c) s1 of
                       (Inl p, s2) \<Rightarrow> (Inl p, s2)
                     | (Inr (Some retryErr), s2) \<Rightarrow>
                         (Inr [PrintCreated result, PrintUpdateFailed retryErr, PrintUpdated], s2)
                     | (Inr None, s2) \<Rightarrow> (Inr [PrintCreated result, PrintUpdated], s2)))))"

section \<open>list.go\<close>

definition no_listOptions :: listOptions where
  "no_listOptions = \<lparr>lo_LabelSelector = '''', lo_FieldSelector = '''', lo_Watch = False, lo_ResourceVersion = '''',
     lo_TimeoutSeconds = None\<rparr>"

text \<open>The two numbers that are printed.\<close>

definition list_main ::
    "('s, 'r, 'w, 'l, 'z, 'd) exampleEnv \<Rightarrow> 's \<Rightarrow> (gopanic + nat \<times> nat) \<times> 's" where
  "list_main X s =
     (case example_clientset X of
        Inl p \<Rightarrow> (Inl p, s)
      | Inr cs \<Rightarrow>
          (case cpars_List (newClusterPodAssignmentRules (cs_assignmentsV1alpha1 cs)) no_listOptions s of
             ((_, Some err), s1) \<Rightarrow> (Inl (PanicError err), s1)
           | ((cpars, None), s1) \<Rightarrow>
               (case pars_List (newPodAssignmentRules (cs_assignmentsV1alpha1 cs) ''default'') no_listOptions s1 of
                  ((_, Some err), s2) \<Rightarrow> (Inl (PanicError err), s2)
                | ((pars, None), s2) \<Rightarrow> (Inr (length (ol_Items cpars), length (ol_Items pars)), s2))))"


section \<open>What an attempt does\<close>

text \<open>\<^verbatim>\<open>RetryOnConflict\<close> with a function that may panic.\<close>

inductive retried :: "('s \<Rightarrow> (gopanic + goerr option) \<times> 's) \<Rightarrow> 's \<Rightarrow> gopanic + goerr option \<Rightarrow> 's \<Rightarrow> bool"
  for f where
  last: "f s = (r, s') \<Longrightarrow> retried f s r s'"
| again: "f s = (Inr (Some Conflict), s1) \<Longrightarrow> retried f s1 r s' \<Longrightarrow> retried f s r s'"

locale example_env =
  fixes X :: "('s, 'r, 'w, 'l, 'z, 'd) exampleEnv"
  assumes retry: "retried f s (fst (ex_RetryOnConflict X f s)) (snd (ex_RetryOnConflict X f s))"
    and zero_nil: "ex_isNil X zero_cpar"
    and entry_not_nil: "par_TargetLabels (cpar_Spec r) \<noteq> [] \<Longrightarrow> \<not> ex_isNil X r"

abbreviation example_path :: restPath where
  "example_path \<equiv> ('''', ''clusterpodassignmentrules'', ''testassign'')"

text \<open>The rule \<open>y\<close> is the stored rule \<open>x\<close> with the label changed.\<close>

definition relabelled :: "(restPath \<Rightarrow> cliObject option) \<Rightarrow> (restPath \<Rightarrow> cliObject option) \<Rightarrow> bool" where
  "relabelled m m' \<longleftrightarrow> (\<exists>x y. m example_path = Some (CparObj x) \<and>
     accepted (CparObj (set_TargetLabel ''test'' ''false'' x)) y \<and> deletion_of y = deletion_of (CparObj x) \<and>
     (m' = m(example_path \<mapsto> y) \<or> is_gone y \<and> m' = m(example_path := None)))"

context rest_lifetime
begin

lemma cpars_Get_effect:
  assumes "cpars_Get (newClusterPodAssignmentRules \<lparr>ac_restClient = R\<rparr>) nm no_getOptions s = ((x, e), s')"
  shows "store s' = store s"
    and "e = None \<Longrightarrow> store s ('''', ''clusterpodassignmentrules'', nm) = Some (CparObj x)"
    and "e = Some err \<Longrightarrow> x = zero_cpar"
proof -
  have c: "run_call \<lparr>ac_restClient = R\<rparr> (CparGet nm no_getOptions) s = ((Some (CparObj x), e), s')"
    using assms by (simp add: as_answer_def)
  note eff = run_call_effect [OF c]
  show "store s' = store s" "e = None \<Longrightarrow> store s ('''', ''clusterpodassignmentrules'', nm) = Some (CparObj x)"
    using eff by (auto simp: api_effect_def split: if_splits)
  assume e: "e = Some err"
  let ?cs = "[Resource ''clusterpodassignmentrules'', Name nm, VersionedParams (GetParams no_getOptions)]"
  have "as_answer CparObj (do_into R (rc_IntoCpar R) (GET, ?cs) zero_cpar s) = ((Some (CparObj x), e), s')"
    using assms by (simp add: as_answer_def cpars_Get_def new_clients)
  from do_into_answered [OF decodes_cpar this] obtain r where r: "rc_Do R (GET, ?cs) s = (r, s')" "payload r = Inl err"
    using e by (auto simp: answered_def url_of_def)
  then show "x = zero_cpar"
    using assms into_err [OF r(2)] by (auto simp: cpars_Get_def do_into_def new_clients)
qed

lemma crud_attempt_effect:
  assumes "crud_attempt isNil (newClusterPodAssignmentRules \<lparr>ac_restClient = R\<rparr>) s = (r, s')" and "isNil zero_cpar"
  shows "case r of
      Inl p \<Rightarrow> store s' = store s
    | Inr (Some err) \<Rightarrow> store s' = store s
    | Inr None \<Rightarrow> relabelled (store s) (store s')"
proof -
  let ?c = "newClusterPodAssignmentRules \<lparr>ac_restClient = R\<rparr>"
  obtain x e s1 where g: "cpars_Get ?c ''testassign'' no_getOptions s = ((x, e), s1)" by (metis prod.exhaust)
  note s1 = cpars_Get_effect(1) [OF g]
  let ?x = "set_TargetLabel ''test'' ''false'' x"
  obtain y u s2 where p: "cpars_Update ?c ?x s1 = ((y, u), s2)" by (metis prod.exhaust)
  show ?thesis
  proof (cases "isNil x")
    case True
    then show ?thesis using assms(1) g s1 by (auto simp: crud_attempt_def)
  next
    case False
    then have x: "store s example_path = Some (CparObj x)"
      using cpars_Get_effect(2,3) [OF g] assms(2) by (cases e) auto
    then have n: "target_of (CparUpdate ?x) = example_path" using kinds by (fastforce simp: set_TargetLabel_def)
    have c: "run_call \<lparr>ac_restClient = R\<rparr> (CparUpdate ?x) s1 = ((Some (CparObj y), u), s2)"
      using p by (simp add: as_answer_def)
    have r: "r = Inr u" "s' = s2" using assms(1) g p False by (auto simp: crud_attempt_def)
    show ?thesis
    proof (cases u)
      case None
      have "store s1 ('''', ''clusterpodassignmentrules'', om_Name (cpar_meta ?x)) = Some (CparObj x)"
        using x n s1 by simp
      then have d: "deletion_of (CparObj y) = deletion_of (CparObj x)" using cpars_Update_lifetime p None by blast
      have "accepted (CparObj ?x) (CparObj y) \<and> (store s2 = (store s)(example_path \<mapsto> CparObj y) \<or>
          is_gone (CparObj y) \<and> store s2 = (store s)(example_path := None))"
        using run_call_effect [OF c] n s1 None by (auto simp: api_effect_def Let_def simp del: target_of.simps)
      then have "relabelled (store s) (store s2)" using x d unfolding relabelled_def by blast
      then show ?thesis using r None by simp
    next
      case (Some err)
      then show ?thesis using run_call_effect [OF c] r s1 by (simp add: api_effect_def)
    qed
  qed
qed

lemma retried_effect:
  assumes "retried f s r s'" and "\<And>s r s'. f s = (r, s') \<Longrightarrow> P r (store s) (store s')"
    and "\<And>m m'. P (Inr (Some Conflict)) m m' \<Longrightarrow> m' = m"
  shows "P r (store s) (store s')"
  using assms(1)
proof (induction rule: retried.induct)
  case (again s s1 r s')
  have "store s1 = store s" by (rule assms(3) [OF assms(2) [OF again(1)]])
  then show ?case using again.IH by simp
qed (rule assms(2))

lemma crud_attempts_effect:
  assumes "retried (crud_attempt isNil (newClusterPodAssignmentRules \<lparr>ac_restClient = R\<rparr>)) s r s'" and "isNil zero_cpar"
  shows "case r of Inl p \<Rightarrow> store s' = store s | Inr (Some err) \<Rightarrow> store s' = store s
    | Inr None \<Rightarrow> relabelled (store s) (store s')"
proof (rule retried_effect [OF assms(1)])
  fix s r s' assume "crud_attempt isNil (newClusterPodAssignmentRules \<lparr>ac_restClient = R\<rparr>) s = (r, s')"
  from crud_attempt_effect [OF this assms(2)]
  show "case r of Inl p \<Rightarrow> store s' = store s | Inr (Some err) \<Rightarrow> store s' = store s | Inr None \<Rightarrow> relabelled (store s) (store s')" .
qed simp

lemma cpars_Create_effect:
  assumes "cpars_Create (newClusterPodAssignmentRules \<lparr>ac_restClient = R\<rparr>) x s = ((y, e), s')"
    and "om_Name (cpar_meta x) = ''testassign''"
  shows "e = Some err \<Longrightarrow> store s' = store s"
    and "e = None \<Longrightarrow> store s example_path = None \<and> accepted (CparObj x) (CparObj y) \<and>
      deletion_of (CparObj y) = None \<and> store s' = (store s)(example_path \<mapsto> CparObj y)"
  using run_call_effect [of "CparCreate x" s "Some (CparObj y)" e s'] assms cpars_Create_alive [of x s y s']
  by (auto simp: as_answer_def api_effect_def Let_def split: if_splits)

end

section \<open>The property\<close>

definition updated_rule :: clusterPodAssignmentRule where
  "updated_rule = set_TargetLabel ''test'' ''false'' example_rule"

lemma relabelled_example:
  assumes "accepted (CparObj example_rule) (CparObj y)" and "deletion_of (CparObj y) = None"
    and "relabelled (m(example_path \<mapsto> CparObj y)) m'"
  shows "\<exists>z. m' = m(example_path \<mapsto> CparObj z) \<and> cpar_Spec z = cpar_Spec updated_rule"
proof -
  have y: "cpar_Spec y = cpar_Spec example_rule" using assms(1) by (simp add: accepted_def)
  obtain w where w: "accepted (CparObj (set_TargetLabel ''test'' ''false'' y)) w" "m' = m(example_path \<mapsto> w)"
    using assms(2,3) by (auto simp: relabelled_def is_gone_def)
  then obtain z where "w = CparObj z" "cpar_Spec z = cpar_Spec (set_TargetLabel ''test'' ''false'' y)"
    by (cases w) (auto simp: accepted_def)
  then show ?thesis using w(2) y by (auto simp: updated_rule_def set_TargetLabel_def)
qed

lemma example_rule_name: "om_Name (cpar_meta example_rule) = ''testassign''"
  by (simp add: example_rule_def cli_meta_def)

text \<open>C15: what the example program does to a cluster. Whatever the server answers, nothing but the rule \<open>testassign\<close>
  changes. If the program comes to its end, the rule did not exist before and exists at the end: with the updated
  label, or, when the program printed that the update failed, with the label it was created with. If it panics, either
  nothing was changed or the rule was created and left as it is. (The program is alone with the server, which sets no
  deletion timestamp of its own accord.)\<close>

theorem crud_example:
  assumes "rest_lifetime R store payload" and "example_env X" and "example_clientset X = Inr cs"
    and "cs_assignmentsV1alpha1 cs = \<lparr>ac_restClient = R\<rparr>" and "crud_main X s = (r, s')"
  shows "case r of
      Inl p \<Rightarrow> store s' = store s \<or> (\<exists>y. store s' = (store s)(example_path \<mapsto> CparObj y) \<and> cpar_Spec y = cpar_Spec example_rule)
    | Inr out \<Rightarrow> store s example_path = None \<and>
        (if \<exists>e. PrintUpdateFailed e \<in> set out
         then \<exists>y. store s' = (store s)(example_path \<mapsto> CparObj y) \<and> cpar_Spec y = cpar_Spec example_rule
         else \<exists>z. store s' = (store s)(example_path \<mapsto> CparObj z) \<and> cpar_Spec z = cpar_Spec updated_rule)"
proof -
  let ?c = "newClusterPodAssignmentRules \<lparr>ac_restClient = R\<rparr>"
  obtain y e s1 where c: "cpars_Create ?c example_rule s = ((y, e), s1)" by (metis prod.exhaust)
  note eff = rest_lifetime.cpars_Create_effect [OF assms(1) c example_rule_name]
  obtain rr s2 where rt: "ex_RetryOnConflict X (crud_attempt (ex_isNil X) ?c) s1 = (rr, s2)" by force
  then have "retried (crud_attempt (ex_isNil X) ?c) s1 rr s2"
    using example_env.retry [OF assms(2), of "crud_attempt (ex_isNil X) ?c" s1] by simp
  note up = rest_lifetime.crud_attempts_effect [OF assms(1) this example_env.zero_nil [OF assms(2)]]
  show ?thesis
  proof (cases "ex_Marshal X example_rule")
    case (Some err)
    then show ?thesis using assms(3-5) by (auto simp: crud_main_def)
  next
    case None
    show ?thesis
    proof (cases e)
      case (Some err)
      then show ?thesis using assms(3-5) None c eff(1) by (auto simp: crud_main_def)
    next
      case created: None
      note eff = eff(2) [OF this]
      have y: "cpar_Spec y = cpar_Spec example_rule" using eff by (simp add: accepted_def)
      show ?thesis
        using assms(3-5) None c created rt up eff y relabelled_example [of y "store s" "store s'"]
        by (auto simp: crud_main_def split: sum.splits option.splits)
    qed
  qed
qed

text \<open>A failed read in an attempt is printed, and then the assignment to the nil map of the zero value panics.\<close>

theorem failed_read_panics:
  assumes "rest_lifetime R store payload" and "example_env X"
    and "cpars_Get (newClusterPodAssignmentRules \<lparr>ac_restClient = R\<rparr>) ''testassign'' no_getOptions s = ((x, Some err), s1)"
  shows "crud_attempt (ex_isNil X) (newClusterPodAssignmentRules \<lparr>ac_restClient = R\<rparr>) s = (Inl NilMapWrite, s1)"
  using rest_lifetime.cpars_Get_effect(3) [OF assms(1,3)] example_env.zero_nil [OF assms(2)] assms(3)
  by (simp add: crud_attempt_def)


section \<open>An executable environment\<close>

fun retry_times :: "nat \<Rightarrow> ('s \<Rightarrow> (gopanic + goerr option) \<times> 's) \<Rightarrow> 's \<Rightarrow> (gopanic + goerr option) \<times> 's" where
  "retry_times 0 f s = f s"
| "retry_times (Suc n) f s =
     (case f s of (r, s1) \<Rightarrow> if r = Inr (Some Conflict) then retry_times n f s1 else (r, s1))"

lemma retry_times_retried: "retried f s (fst (retry_times n f s)) (snd (retry_times n f s))"
proof (induction n arbitrary: s)
  case (Suc n)
  then show ?case by (auto intro: retried.intros split: prod.split)
qed (simp add: retried.last)

definition demo_example :: "(restMem, memResult, restPath, unit, unit, unit) exampleEnv" where
  "demo_example =
     \<lparr>ex_Getenv = (\<lambda>k. if k = ''HOME'' then ''/root'' else ''''), ex_Join = concat, ex_kubeconfig = (\<lambda>d. d),
      ex_BuildConfigFromFlags = (\<lambda>m p. Inr \<lparr>cf_Host = '''', cf_APIPath = '''', cf_GroupVersion = None,
        cf_NegotiatedSerializer = None, cf_UserAgent = '''', cf_QPS = 0, cf_Burst = 0, cf_RateLimiter = None\<rparr>),
      ex_libs = \<lparr>cl_RESTClientFor = (\<lambda>c. Inr mem_rest), cl_NewDiscoveryClientForConfig = (\<lambda>c. Inr ()),
        cl_NewDiscoveryClientForConfigOrDie = (\<lambda>c. Inr ()), cl_NewDiscoveryClient = (\<lambda>r. ()),
        cl_NewTokenBucketRateLimiter = (\<lambda>q b. ()), cl_DefaultKubernetesUserAgent = '''', cl_WithoutConversion = ()\<rparr>,
      ex_Marshal = (\<lambda>r. None), ex_isNil = (\<lambda>r. par_TargetLabels (cpar_Spec r) = []), ex_RetryOnConflict = retry_times 5\<rparr>"

interpretation demo_example: example_env demo_example
  by unfold_locales (simp_all add: demo_example_def retry_times_retried zero_cpar_def zero_ruleSpec_def)

lemma demo_clientset: "\<exists>cs. example_clientset demo_example = Inr cs \<and> cs_assignmentsV1alpha1 cs = \<lparr>ac_restClient = mem_rest\<rparr>"
  by (simp add: example_clientset_def demo_example_def homeDir_def NewForConfig_def v1alpha1_NewForConfig_def
      setConfigDefaults_def Let_def)

theorem crud_example_witness:
  "\<exists>out s' z. crud_main demo_example [] = (Inr out, s') \<and> (\<forall>e. PrintUpdateFailed e \<notin> set out) \<and>
     mem_store s' example_path = Some (CparObj z) \<and> par_TargetLabels (cpar_Spec z) = [(''test'', ''false'')]"
proof -
  obtain cs where cs: "example_clientset demo_example = Inr cs" "cs_assignmentsV1alpha1 cs = \<lparr>ac_restClient = mem_rest\<rparr>"
    using demo_clientset by blast
  have "case crud_main demo_example [] of (Inl p, s') \<Rightarrow> False
    | (Inr out, s') \<Rightarrow> list_all (\<lambda>p. case p of PrintUpdateFailed e \<Rightarrow> False | _ \<Rightarrow> True) out \<and> mem_store s' example_path \<noteq> None"
    by code_simp
  then obtain out s' where r: "crud_main demo_example [] = (Inr out, s')" "\<forall>e. PrintUpdateFailed e \<notin> set out"
    "mem_store s' example_path \<noteq> None"
    by (cases "crud_main demo_example []") (fastforce simp: list_all_iff split: sum.splits)
  have "par_TargetLabels (cpar_Spec updated_rule) = [(''test'', ''false'')]"
    by (simp add: updated_rule_def set_TargetLabel_def example_rule_def)
  then show ?thesis
    using crud_example [OF mem_lifetime.rest_lifetime_axioms demo_example.example_env_axioms cs r(1)] r by auto
qed


text \<open>The listing program only reads.\<close>

lemma list_main_reads:
  assumes "rest_store R store payload" and "example_clientset X = Inr cs"
    and "cs_assignmentsV1alpha1 cs = \<lparr>ac_restClient = R\<rparr>" and "list_main X s = (r, s')"
  shows "s' = s"
proof -
  have pars: "s2 = s1" if "do_into R into (GET, cs) z s1 = ((a, e), s2)" for into cs z s1 s2 and a :: "podAssignmentRule objectList" and e
    using that rest_store.reads [OF assms(1)] by (auto simp: do_into_def split: prod.splits)
  have cpars: "s2 = s1" if "do_into R into (GET, cs) z s1 = ((a, e), s2)" for into cs z s1 s2 and a :: "clusterPodAssignmentRule objectList" and e
    using that rest_store.reads [OF assms(1)] by (auto simp: do_into_def split: prod.splits)
  show ?thesis
    using assms(2-4) by (auto simp: list_main_def cpars_List_def pars_List_def new_clients dest!: pars cpars split: prod.splits option.splits)
qed

end
