(* ===== verification/Finalizers.thy ===== *)
theory Finalizers
  imports RestMem PackLeftController
begin

text \<open>
  The two managers, \<^verbatim>\<open>nodeassignment/manager.go\<close> and \<^verbatim>\<open>packleft/manager.go\<close>, each keep a finalizer on a group, so
  that a deleted group stays until both have cleaned up. Here their finalizer functions run over the typed client
  and a REST server, which removes a marked object with its last finalizer.
\<close>

section \<open>One write of finalizers\<close>

abbreviation group_path :: "string \<Rightarrow> restPath" where
  "group_path nm \<equiv> ('''', ''nodeassignmentgroups'', nm)"

definition finalizers_written ::
    "string \<Rightarrow> (string list \<Rightarrow> string list) \<Rightarrow> goerr option \<Rightarrow>
     (restPath \<Rightarrow> cliObject option) \<Rightarrow> (restPath \<Rightarrow> cliObject option) \<Rightarrow> bool" where
  "finalizers_written nm f r m m' \<longleftrightarrow>
     (case r of
        Some err \<Rightarrow> m' = m
      | None \<Rightarrow> \<exists>g y. m (group_path nm) = Some (NagObj g) \<and>
          accepted (NagObj (set_Finalizers g (f (nag_Finalizers g)))) y \<and>
          (m' = m(group_path nm \<mapsto> y) \<or> is_gone y \<and> m' = m(group_path nm := None)))"

text \<open>The group exists and the server may not remove it, because the finalizer \<open>fin\<close> is on it.\<close>

definition guarded :: "string \<Rightarrow> string \<Rightarrow> (restPath \<Rightarrow> cliObject option) \<Rightarrow> bool" where
  "guarded nm fin m \<longleftrightarrow> (\<exists>g. m (group_path nm) = Some (NagObj g) \<and> fin \<in> set (nag_Finalizers g))"

lemma guarded_written:
  assumes "finalizers_written nm' f r m m'" and "guarded nm fin m"
    and keeps: "\<And>fs. nm' = nm \<Longrightarrow> fin \<in> set fs \<Longrightarrow> fin \<in> set (f fs)"
  shows "guarded nm fin m'"
proof (cases r)
  case None
  obtain g where g: "m (group_path nm) = Some (NagObj g)" "fin \<in> set (nag_Finalizers g)"
    using assms(2) by (auto simp: guarded_def)
  obtain h y where w: "m (group_path nm') = Some (NagObj h)" "accepted (NagObj (set_Finalizers h (f (nag_Finalizers h)))) y"
    "m' = m(group_path nm' \<mapsto> y) \<or> is_gone y \<and> m' = m(group_path nm' := None)"
    using assms(1) None by (auto simp: finalizers_written_def)
  show ?thesis
  proof (cases "nm' = nm")
    case True
    then have h: "h = g" using w(1) g(1) by simp
    obtain z where z: "y = NagObj z" "nag_Finalizers z = f (nag_Finalizers g)"
      using w(2) h by (cases y) (auto simp: accepted_def)
    then have "fin \<in> set (nag_Finalizers z)" using keeps [OF True g(2)] by simp
    then show ?thesis using w(3) True z(1) by (auto simp: guarded_def is_gone_def)
  next
    case False
    then show ?thesis using w(3) g by (auto simp: guarded_def)
  qed
qed (use assms in \<open>simp add: finalizers_written_def\<close>)

context rest_cluster
begin

lemma attempt_written:
  assumes "(case k_nagsGet (typed_kube K \<lparr>ac_restClient = R\<rparr>) nm s of ((result, getErr), s1) \<Rightarrow>
      k_nagsUpdate (typed_kube K \<lparr>ac_restClient = R\<rparr>) (set_Finalizers result (f (nag_Finalizers result))) s1) = (r, s')"
  shows "finalizers_written nm f r (store s) (store s')"
proof -
  obtain g e s1 where g: "nags_Get (newNodeAssignmentGroups \<lparr>ac_restClient = R\<rparr>) nm no_getOptions s = ((g, e), s1)"
    by (metis prod.exhaust)
  let ?g = "set_Finalizers g (f (nag_Finalizers g))"
  obtain x where u: "nags_Update (newNodeAssignmentGroups \<lparr>ac_restClient = R\<rparr>) ?g s1 = ((x, r), s')"
    using assms g by (auto simp: typed_kube_def split: prod.splits)
  note get = Get_group [OF g]
  have get_call: "run_call \<lparr>ac_restClient = R\<rparr> (NagGet nm no_getOptions) s = ((Some (NagObj g), e), s1)"
    using g by (simp add: as_answer_def)
  have "run_call \<lparr>ac_restClient = R\<rparr> (NagUpdate ?g) s1 = ((Some (NagObj x), r), s')"
    using u by (simp add: as_answer_def)
  note eff = run_call_effect [OF this]
  show ?thesis
  proof (cases r)
    case None
    then have "e = None" using Update_group [OF u] get by (auto simp: zero_nag_def cli_meta_def)
    then have s: "store s (group_path nm) = Some (NagObj g)" "nag_Name g = nm" "s1 = s"
      using run_call_effect [OF get_call] get kinds by (fastforce simp: api_effect_def)+
    then show ?thesis
      using eff None by (auto simp: api_effect_def Let_def finalizers_written_def)
  next
    case (Some er)
    then show ?thesis using eff get by (auto simp: api_effect_def finalizers_written_def)
  qed
qed

lemma retried_written:
  assumes "\<And>s. a s = (case k_nagsGet (typed_kube K \<lparr>ac_restClient = R\<rparr>) nm s of ((result, getErr), s1) \<Rightarrow>
      k_nagsUpdate (typed_kube K \<lparr>ac_restClient = R\<rparr>) (set_Finalizers result (f (nag_Finalizers result))) s1)"
    and "k_retry (typed_kube K \<lparr>ac_restClient = R\<rparr>) a s = (r, s')"
  shows "finalizers_written nm f r (store s) (store s')"
proof -
  have "retry_run a s r s'" using retry [of a s] assms(2) by (simp add: typed_kube_def)
  then show ?thesis using assms(1)
  proof (induction rule: retry_run.induct)
    case (last_attempt a s r s')
    then show ?case using attempt_written [where nm = nm and f = f and s = s] by simp
  next
    case (conflict a s s1 r s')
    then have "store s1 = store s" using attempt_written [where nm = nm and f = f and s = s] by (simp add: finalizers_written_def)
    then show ?case using conflict by simp
  qed
qed

text \<open>The four functions of the two managers.\<close>

lemma managers_write:
  "AddFinalizer (typed_kube K \<lparr>ac_restClient = R\<rparr>) nag s = ((b, r), s') \<Longrightarrow> s' = s \<or>
     finalizers_written (nag_Name nag) (\<lambda>fs. fs @ [nagFinalizer]) r (store s) (store s')"
  "RemoveFinalizer (typed_kube K \<lparr>ac_restClient = R\<rparr>) nag s = (r, s') \<Longrightarrow>
     finalizers_written (nag_Name nag) (filter (\<lambda>f. f \<noteq> nagFinalizer)) r (store s) (store s')"
  "ensureFinalizer (typed_kube K \<lparr>ac_restClient = R\<rparr>) nag s = (r, s') \<Longrightarrow> s' = s \<or>
     finalizers_written (nag_Name nag) (\<lambda>fs. fs @ [PackLeftFinalizer]) r (store s) (store s')"
  "pl_RemoveFinalizer (typed_kube K \<lparr>ac_restClient = R\<rparr>) nag s = (r, s') \<Longrightarrow>
     finalizers_written (nag_Name nag) (filter (\<lambda>f. f \<noteq> PackLeftFinalizer)) r (store s) (store s')"
proof -
  have f: "(\<lambda>v. if x = v then False else True) = (\<lambda>f. f \<noteq> x)" for x :: string by auto
  let ?k = "typed_kube K \<lparr>ac_restClient = R\<rparr>"
  show "AddFinalizer (typed_kube K \<lparr>ac_restClient = R\<rparr>) nag s = ((b, r), s') \<Longrightarrow> s' = s \<or>
     finalizers_written (nag_Name nag) (\<lambda>fs. fs @ [nagFinalizer]) r (store s) (store s')"
    by (auto simp: AddFinalizer_def addFinalizer_attempt_def split: if_splits prod.splits option.splits
      intro: retried_written [where a = "addFinalizer_attempt ?k (nag_Name nag)", rotated])
  show "RemoveFinalizer (typed_kube K \<lparr>ac_restClient = R\<rparr>) nag s = (r, s') \<Longrightarrow>
     finalizers_written (nag_Name nag) (filter (\<lambda>f. f \<noteq> nagFinalizer)) r (store s) (store s')"
    by (rule retried_written [where a = "removeFinalizer_attempt ?k (nag_Name nag)"])
      (simp_all add: RemoveFinalizer_def removeFinalizer_attempt_def FilterValues_filter f)
  show "ensureFinalizer (typed_kube K \<lparr>ac_restClient = R\<rparr>) nag s = (r, s') \<Longrightarrow> s' = s \<or>
     finalizers_written (nag_Name nag) (\<lambda>fs. fs @ [PackLeftFinalizer]) r (store s) (store s')"
    by (auto simp: ensureFinalizer_def ensureFinalizer_attempt_def split: if_splits
      intro: retried_written [where a = "ensureFinalizer_attempt ?k (nag_Name nag)", rotated])
  show "pl_RemoveFinalizer (typed_kube K \<lparr>ac_restClient = R\<rparr>) nag s = (r, s') \<Longrightarrow>
     finalizers_written (nag_Name nag) (filter (\<lambda>f. f \<noteq> PackLeftFinalizer)) r (store s) (store s')"
    by (rule retried_written [where a = "pl_removeFinalizer_attempt ?k (nag_Name nag)"])
      (simp_all add: pl_RemoveFinalizer_def pl_removeFinalizer_attempt_def FilterValues_filter f)
qed

end


section \<open>The finalizers guard the deletion\<close>

text \<open>What either manager does to the finalizers of a group, and which finalizer of which group it takes away.\<close>

datatype managerStep = NagAdd nag | NagRemove nag | PackLeftEnsure nag | PackLeftRemove nag

fun manager_step :: "('s, 'd, 'p) kube \<Rightarrow> managerStep \<Rightarrow> 's \<Rightarrow> 's" where
  "manager_step K (NagAdd nag) s = snd (AddFinalizer K nag s)"
| "manager_step K (NagRemove nag) s = snd (RemoveFinalizer K nag s)"
| "manager_step K (PackLeftEnsure nag) s = snd (ensureFinalizer K nag s)"
| "manager_step K (PackLeftRemove nag) s = snd (pl_RemoveFinalizer K nag s)"

fun takes_away :: "managerStep \<Rightarrow> (string \<times> string) option" where
  "takes_away (NagRemove nag) = Some (nag_Name nag, nagFinalizer)"
| "takes_away (PackLeftRemove nag) = Some (nag_Name nag, PackLeftFinalizer)"
| "takes_away _ = None"

context rest_cluster
begin

lemma manager_step_guarded:
  assumes "guarded nm fin (store s)" and "takes_away st \<noteq> Some (nm, fin)"
  shows "guarded nm fin (store (manager_step (typed_kube K \<lparr>ac_restClient = R\<rparr>) st s))"
proof (cases st)
  case (NagAdd nag)
  obtain b r s' where "AddFinalizer (typed_kube K \<lparr>ac_restClient = R\<rparr>) nag s = ((b, r), s')" by (metis prod.exhaust)
  from managers_write(1) [OF this] this show ?thesis using guarded_written [OF _ assms(1)] assms(1) NagAdd by auto
next
  case (NagRemove nag)
  obtain r s' where "RemoveFinalizer (typed_kube K \<lparr>ac_restClient = R\<rparr>) nag s = (r, s')" by force
  from guarded_written [OF managers_write(2) [OF this] assms(1)] this show ?thesis using assms(2) NagRemove by auto
next
  case (PackLeftEnsure nag)
  obtain r s' where "ensureFinalizer (typed_kube K \<lparr>ac_restClient = R\<rparr>) nag s = (r, s')" by force
  from managers_write(3) [OF this] this show ?thesis using guarded_written [OF _ assms(1)] assms(1) PackLeftEnsure by auto
next
  case (PackLeftRemove nag)
  obtain r s' where "pl_RemoveFinalizer (typed_kube K \<lparr>ac_restClient = R\<rparr>) nag s = (r, s')" by force
  from guarded_written [OF managers_write(4) [OF this] assms(1)] this show ?thesis using assms(2) PackLeftRemove by auto
qed

lemma manager_steps_guarded:
  "guarded nm fin (store s) \<Longrightarrow> \<forall>st \<in> set steps. takes_away st \<noteq> Some (nm, fin) \<Longrightarrow>
   guarded nm fin (store (fold (manager_step (typed_kube K \<lparr>ac_restClient = R\<rparr>)) steps s))"
  by (induction steps arbitrary: s) (simp_all add: manager_step_guarded)

end

text \<open>C14: each finalizer guards the deletion. Whatever finalizers the two managers add or remove, in any order, for any
  groups, with conflicts and errors of the server: as long as nobody takes the finalizer of one manager off a group,
  the group stays on the server with that finalizer, even when it is marked for deletion and the other manager is
  done with it. So a manager finds the group and its nodes until it has cleaned up itself.\<close>

theorem finalizers_guard_deletion:
  assumes "rest_cluster R store payload K nagview" and "guarded nm fin (store s)"
    and "\<forall>st \<in> set steps. takes_away st \<noteq> Some (nm, fin)"
  shows "guarded nm fin (store (fold (manager_step (typed_kube K \<lparr>ac_restClient = R\<rparr>)) steps s))"
  by (rule rest_cluster.manager_steps_guarded [OF assms])

definition demo_both :: nag where
  "demo_both = set_Finalizers demo_dying [nagFinalizer, PackLeftFinalizer]"

theorem finalizers_guard_deletion_witness:
  "guarded ''io'' PackLeftFinalizer (mem_store (fold (manager_step (typed_kube (nodeless\<lparr>k_retry := (\<lambda>f. f)\<rparr>) \<lparr>ac_restClient = mem_rest\<rparr>))
     [NagRemove demo_both, NagRemove demo_both] [(group_path ''io'', NagObj demo_both)]))"
proof -
  have n: "nag_Name demo_both = ''io''" by (simp add: demo_both_def demo_dying_def)
  have "guarded ''io'' PackLeftFinalizer (mem_store [(group_path ''io'', NagObj demo_both)])"
    using n by (simp add: guarded_def mem_store_def) (simp add: demo_both_def)
  from finalizers_guard_deletion [OF mem_cluster_rest.rest_cluster_axioms, OF this, of "[NagRemove demo_both, NagRemove demo_both]" nodeless]
  show ?thesis by (simp add: nagFinalizer_def PackLeftFinalizer_def)
qed

end
