(* ===== verification/DeepCopy.thy ===== *)
theory DeepCopy
  imports ApiTypes
begin

text \<open>
  \<^verbatim>\<open>pkg/apis/assignments/v1alpha1/zz_generated.deepcopy.go\<close> on an explicit store: pointers, maps and slices are
  addresses, so that sharing is visible. The controllers take a deep copy of what they read from a cache before they
  change it; the other theories treat such a copy as a value, and what is proved here is why they may. A store has one
  counter of allocated addresses and one heap for each type a pointer, a map or a slice of these types leads to.
  The object and list metadata, affinities and tolerations belong to upstream packages. Their structs are of a type
  \<open>'u\<close> that the functions do not look into, their deep copies are arguments, and the locale \<open>upstream\<close> states what
  those promise; the memory their structs lead to is on a heap of its own, or on those of maps and integers.
\<close>

section \<open>Structs in memory\<close>

record hPackLeft =
  hp_FullPercent :: "nat option"
  hp_NumAvoid :: int
  hp_PercentAvoid :: "nat option"

record hNodeAssignment =
  hna_Name :: string
  hna_Mode :: string
  hna_TaintEffect :: string
  hna_NumDesired :: int
  hna_PercentDesired :: int
  hna_SchedulingMode :: string
  hna_PackLeft :: "nat option"

record hNagSpec =
  hns_TargetLabels :: "nat option"
  hns_DefaultAssignment :: "nat option"
  hns_Assignments :: "nat option"

record 'u hNag =
  hn_meta :: 'u
  hn_Spec :: hNagSpec
  hn_NumMatched :: int

record hScheduling =
  hs_MergeStrategy :: string
  hs_NodeSelector :: "nat option"
  hs_Affinity :: "nat option"
  hs_Tolerations :: "nat option"

record hRuleSpec =
  hr_TargetLabels :: "nat option"
  hr_Scheduling :: hScheduling

record 'u hRule =
  hu_meta :: 'u
  hu_Spec :: hRuleSpec

text \<open>A list of objects: its metadata and its items.\<close>

record 'u hList =
  hl_meta :: 'u
  hl_Items :: "nat option"

record hAssignmentStates =
  has_Name :: string
  has_NumAssigned :: int

record 'u store =
  st_next :: nat
  st_ints :: "nat \<Rightarrow> int"
  st_maps :: "nat \<Rightarrow> (string \<times> string) list"
  st_packs :: "nat \<Rightarrow> hPackLeft"
  st_assignments :: "nat \<Rightarrow> hNodeAssignment"
  st_slices :: "nat \<Rightarrow> hNodeAssignment list"
  st_affinities :: "nat \<Rightarrow> 'u"
  st_tolerations :: "nat \<Rightarrow> 'u list"
  st_nags :: "nat \<Rightarrow> 'u hNag list"
  st_rules :: "nat \<Rightarrow> 'u hRule list"
  st_upstream :: "nat \<Rightarrow> 'u"

text \<open>A function that copies a struct \<open>'h\<close>, and those of the upstream packages.\<close>

type_synonym ('h, 'u) copier = "'h \<Rightarrow> 'u store \<Rightarrow> 'h \<times> 'u store"

record 'u upstreamCopies =
  uc_ObjectMeta :: "('u, 'u) copier"
  uc_ListMeta :: "('u, 'u) copier"
  uc_Affinity :: "('u, 'u) copier"
  uc_Toleration :: "('u, 'u) copier"

section \<open>The generated functions\<close>

text \<open>\<^verbatim>\<open>if in.F != nil { *out = new(T); (*in).DeepCopyInto(*out) }\<close>, with the heap of \<open>T\<close> as \<open>get\<close> and \<open>put\<close>.\<close>

definition copy_ptr ::
    "('u store \<Rightarrow> nat \<Rightarrow> 'h) \<Rightarrow> (nat \<Rightarrow> 'h \<Rightarrow> 'u store \<Rightarrow> 'u store) \<Rightarrow> ('h \<Rightarrow> 'u store \<Rightarrow> 'h \<times> 'u store)
     \<Rightarrow> nat option \<Rightarrow> 'u store \<Rightarrow> nat option \<times> 'u store" where
  "copy_ptr get put copy p st =
     (case p of
        None \<Rightarrow> (None, st)
      | Some a \<Rightarrow> (case copy (get st a) st of
          (v, st1) \<Rightarrow> (Some (st_next st1), (put (st_next st1) v st1)\<lparr>st_next := Suc (st_next st1)\<rparr>)))"

text \<open>A field of a type without pointers of its own.\<close>

definition copy_value :: "'h \<Rightarrow> 'u store \<Rightarrow> 'h \<times> 'u store" where
  "copy_value v st = (v, st)"

text \<open>\<^verbatim>\<open>make(map, len)\<close> and one assignment for each entry.\<close>

definition copy_map :: "(string \<times> string) list \<Rightarrow> 'u store \<Rightarrow> (string \<times> string) list \<times> 'u store" where
  "copy_map m st = (fold (\<lambda>(k, v). AList.update k v) m [], st)"

text \<open>\<^verbatim>\<open>make([]T, len)\<close> and one \<^verbatim>\<open>DeepCopyInto\<close> for each element.\<close>

fun copy_elems :: "('h \<Rightarrow> 'u store \<Rightarrow> 'h \<times> 'u store) \<Rightarrow> 'h list \<Rightarrow> 'u store \<Rightarrow> 'h list \<times> 'u store" where
  "copy_elems copy [] st = ([], st)"
| "copy_elems copy (x # xs) st =
     (case copy x st of (x', st1) \<Rightarrow> (case copy_elems copy xs st1 of (xs', st2) \<Rightarrow> (x' # xs', st2)))"

abbreviation "copy_int_ptr \<equiv> copy_ptr st_ints (\<lambda>a v st. st\<lparr>st_ints := (st_ints st)(a := v)\<rparr>) copy_value"
abbreviation "copy_map_ptr \<equiv> copy_ptr st_maps (\<lambda>a v st. st\<lparr>st_maps := (st_maps st)(a := v)\<rparr>) copy_map"

definition PackLeftScheduling_DeepCopyInto :: "hPackLeft \<Rightarrow> 'u store \<Rightarrow> hPackLeft \<times> 'u store" where
  "PackLeftScheduling_DeepCopyInto h st =
     (case copy_int_ptr (hp_FullPercent h) st of (f, st1) \<Rightarrow>
       (case copy_int_ptr (hp_PercentAvoid h) st1 of (p, st2) \<Rightarrow>
         (h\<lparr>hp_FullPercent := f, hp_PercentAvoid := p\<rparr>, st2)))"

definition NodeAssignment_DeepCopyInto :: "hNodeAssignment \<Rightarrow> 'u store \<Rightarrow> hNodeAssignment \<times> 'u store" where
  "NodeAssignment_DeepCopyInto h st =
     (case copy_ptr st_packs (\<lambda>a v st. st\<lparr>st_packs := (st_packs st)(a := v)\<rparr>) PackLeftScheduling_DeepCopyInto
         (hna_PackLeft h) st of
        (p, st1) \<Rightarrow> (h\<lparr>hna_PackLeft := p\<rparr>, st1))"

definition NodeAssignmentGroupSpec_DeepCopyInto :: "hNagSpec \<Rightarrow> 'u store \<Rightarrow> hNagSpec \<times> 'u store" where
  "NodeAssignmentGroupSpec_DeepCopyInto h st =
     (case copy_map_ptr (hns_TargetLabels h) st of (l, st1) \<Rightarrow>
       (case copy_ptr st_assignments (\<lambda>a v st. st\<lparr>st_assignments := (st_assignments st)(a := v)\<rparr>)
           NodeAssignment_DeepCopyInto (hns_DefaultAssignment h) st1 of (d, st2) \<Rightarrow>
         (case copy_ptr st_slices (\<lambda>a v st. st\<lparr>st_slices := (st_slices st)(a := v)\<rparr>)
             (copy_elems NodeAssignment_DeepCopyInto) (hns_Assignments h) st2 of (s, st3) \<Rightarrow>
           (h\<lparr>hns_TargetLabels := l, hns_DefaultAssignment := d, hns_Assignments := s\<rparr>, st3))))"

definition NodeAssignmentGroup_DeepCopyInto :: "'u upstreamCopies \<Rightarrow> ('u hNag, 'u) copier" where
  "NodeAssignmentGroup_DeepCopyInto U h st =
     (case uc_ObjectMeta U (hn_meta h) st of (m, st1) \<Rightarrow>
       (case NodeAssignmentGroupSpec_DeepCopyInto (hn_Spec h) st1 of (s, st2) \<Rightarrow>
         (h\<lparr>hn_meta := m, hn_Spec := s\<rparr>, st2)))"

definition PodAssignmentRuleScheduling_DeepCopyInto :: "'u upstreamCopies \<Rightarrow> (hScheduling, 'u) copier" where
  "PodAssignmentRuleScheduling_DeepCopyInto U h st =
     (case copy_map_ptr (hs_NodeSelector h) st of (n, st1) \<Rightarrow>
       (case copy_ptr st_affinities (\<lambda>a v st. st\<lparr>st_affinities := (st_affinities st)(a := v)\<rparr>) (uc_Affinity U)
           (hs_Affinity h) st1 of (f, st2) \<Rightarrow>
         (case copy_ptr st_tolerations (\<lambda>a v st. st\<lparr>st_tolerations := (st_tolerations st)(a := v)\<rparr>)
             (copy_elems (uc_Toleration U)) (hs_Tolerations h) st2 of (t, st3) \<Rightarrow>
           (h\<lparr>hs_NodeSelector := n, hs_Affinity := f, hs_Tolerations := t\<rparr>, st3))))"

definition PodAssignmentRuleSpec_DeepCopyInto :: "'u upstreamCopies \<Rightarrow> (hRuleSpec, 'u) copier" where
  "PodAssignmentRuleSpec_DeepCopyInto U h st =
     (case copy_map_ptr (hr_TargetLabels h) st of (l, st1) \<Rightarrow>
       (case PodAssignmentRuleScheduling_DeepCopyInto U (hr_Scheduling h) st1 of (s, st2) \<Rightarrow>
         (h\<lparr>hr_TargetLabels := l, hr_Scheduling := s\<rparr>, st2)))"

text \<open>\<^verbatim>\<open>PodAssignmentRule\<close> and \<^verbatim>\<open>ClusterPodAssignmentRule\<close> have the same fields and the same function.\<close>

definition PodAssignmentRule_DeepCopyInto :: "'u upstreamCopies \<Rightarrow> ('u hRule, 'u) copier" where
  "PodAssignmentRule_DeepCopyInto U h st =
     (case uc_ObjectMeta U (hu_meta h) st of (m, st1) \<Rightarrow>
       (case PodAssignmentRuleSpec_DeepCopyInto U (hu_Spec h) st1 of (s, st2) \<Rightarrow> (h\<lparr>hu_meta := m, hu_Spec := s\<rparr>, st2)))"

definition ClusterPodAssignmentRule_DeepCopyInto :: "'u upstreamCopies \<Rightarrow> ('u hRule, 'u) copier" where
  "ClusterPodAssignmentRule_DeepCopyInto U h st =
     (case uc_ObjectMeta U (hu_meta h) st of (m, st1) \<Rightarrow>
       (case PodAssignmentRuleSpec_DeepCopyInto U (hu_Spec h) st1 of (s, st2) \<Rightarrow> (h\<lparr>hu_meta := m, hu_Spec := s\<rparr>, st2)))"

text \<open>The three list types.\<close>

definition NodeAssignmentGroupList_DeepCopyInto :: "'u upstreamCopies \<Rightarrow> ('u hList, 'u) copier" where
  "NodeAssignmentGroupList_DeepCopyInto U h st =
     (case uc_ListMeta U (hl_meta h) st of (m, st1) \<Rightarrow>
       (case copy_ptr st_nags (\<lambda>a v st. st\<lparr>st_nags := (st_nags st)(a := v)\<rparr>)
           (copy_elems (NodeAssignmentGroup_DeepCopyInto U)) (hl_Items h) st1 of
          (xs, st2) \<Rightarrow> (h\<lparr>hl_meta := m, hl_Items := xs\<rparr>, st2)))"

definition PodAssignmentRuleList_DeepCopyInto :: "'u upstreamCopies \<Rightarrow> ('u hList, 'u) copier" where
  "PodAssignmentRuleList_DeepCopyInto U h st =
     (case uc_ListMeta U (hl_meta h) st of (m, st1) \<Rightarrow>
       (case copy_ptr st_rules (\<lambda>a v st. st\<lparr>st_rules := (st_rules st)(a := v)\<rparr>)
           (copy_elems (PodAssignmentRule_DeepCopyInto U)) (hl_Items h) st1 of
          (xs, st2) \<Rightarrow> (h\<lparr>hl_meta := m, hl_Items := xs\<rparr>, st2)))"

definition ClusterPodAssignmentRuleList_DeepCopyInto :: "'u upstreamCopies \<Rightarrow> ('u hList, 'u) copier" where
  "ClusterPodAssignmentRuleList_DeepCopyInto U h st =
     (case uc_ListMeta U (hl_meta h) st of (m, st1) \<Rightarrow>
       (case copy_ptr st_rules (\<lambda>a v st. st\<lparr>st_rules := (st_rules st)(a := v)\<rparr>)
           (copy_elems (ClusterPodAssignmentRule_DeepCopyInto U)) (hl_Items h) st1 of
          (xs, st2) \<Rightarrow> (h\<lparr>hl_meta := m, hl_Items := xs\<rparr>, st2)))"

text \<open>The structs without pointers: \<^verbatim>\<open>AssignmentStates\<close>, and the status of a group, which is a number.\<close>

definition AssignmentStates_DeepCopyInto :: "hAssignmentStates \<Rightarrow> 'u store \<Rightarrow> hAssignmentStates \<times> 'u store" where
  "AssignmentStates_DeepCopyInto h st = copy_value h st"

definition NodeAssignmentGroupStatus_DeepCopyInto :: "int \<Rightarrow> 'u store \<Rightarrow> int \<times> 'u store" where
  "NodeAssignmentGroupStatus_DeepCopyInto numMatched st = copy_value numMatched st"

subsection \<open>DeepCopy\<close>

text \<open>\<^verbatim>\<open>if in == nil { return nil }; out := new(T); in.DeepCopyInto(out); return out\<close>.\<close>

definition DeepCopy_of :: "('h \<Rightarrow> 'u store \<Rightarrow> 'h \<times> 'u store) \<Rightarrow> 'h option \<Rightarrow> 'u store \<Rightarrow> 'h option \<times> 'u store" where
  "DeepCopy_of copy h st =
     (case h of None \<Rightarrow> (None, st) | Some x \<Rightarrow> (case copy x st of (x', st1) \<Rightarrow> (Some x', st1)))"

definition AssignmentStates_DeepCopy :: "(hAssignmentStates option, 'u) copier" where
  "AssignmentStates_DeepCopy = DeepCopy_of AssignmentStates_DeepCopyInto"
definition ClusterPodAssignmentRule_DeepCopy :: "'u upstreamCopies \<Rightarrow> ('u hRule option, 'u) copier" where
  "ClusterPodAssignmentRule_DeepCopy U = DeepCopy_of (ClusterPodAssignmentRule_DeepCopyInto U)"
definition ClusterPodAssignmentRuleList_DeepCopy :: "'u upstreamCopies \<Rightarrow> ('u hList option, 'u) copier" where
  "ClusterPodAssignmentRuleList_DeepCopy U = DeepCopy_of (ClusterPodAssignmentRuleList_DeepCopyInto U)"
definition NodeAssignment_DeepCopy :: "(hNodeAssignment option, 'u) copier" where
  "NodeAssignment_DeepCopy = DeepCopy_of NodeAssignment_DeepCopyInto"
definition NodeAssignmentGroup_DeepCopy :: "'u upstreamCopies \<Rightarrow> ('u hNag option, 'u) copier" where
  "NodeAssignmentGroup_DeepCopy U = DeepCopy_of (NodeAssignmentGroup_DeepCopyInto U)"
definition NodeAssignmentGroupList_DeepCopy :: "'u upstreamCopies \<Rightarrow> ('u hList option, 'u) copier" where
  "NodeAssignmentGroupList_DeepCopy U = DeepCopy_of (NodeAssignmentGroupList_DeepCopyInto U)"
definition NodeAssignmentGroupSpec_DeepCopy :: "(hNagSpec option, 'u) copier" where
  "NodeAssignmentGroupSpec_DeepCopy = DeepCopy_of NodeAssignmentGroupSpec_DeepCopyInto"
definition NodeAssignmentGroupStatus_DeepCopy :: "(int option, 'u) copier" where
  "NodeAssignmentGroupStatus_DeepCopy = DeepCopy_of NodeAssignmentGroupStatus_DeepCopyInto"
definition PackLeftScheduling_DeepCopy :: "(hPackLeft option, 'u) copier" where
  "PackLeftScheduling_DeepCopy = DeepCopy_of PackLeftScheduling_DeepCopyInto"
definition PodAssignmentRule_DeepCopy :: "'u upstreamCopies \<Rightarrow> ('u hRule option, 'u) copier" where
  "PodAssignmentRule_DeepCopy U = DeepCopy_of (PodAssignmentRule_DeepCopyInto U)"
definition PodAssignmentRuleList_DeepCopy :: "'u upstreamCopies \<Rightarrow> ('u hList option, 'u) copier" where
  "PodAssignmentRuleList_DeepCopy U = DeepCopy_of (PodAssignmentRuleList_DeepCopyInto U)"
definition PodAssignmentRuleScheduling_DeepCopy :: "'u upstreamCopies \<Rightarrow> (hScheduling option, 'u) copier" where
  "PodAssignmentRuleScheduling_DeepCopy U = DeepCopy_of (PodAssignmentRuleScheduling_DeepCopyInto U)"
definition PodAssignmentRuleSpec_DeepCopy :: "'u upstreamCopies \<Rightarrow> (hRuleSpec option, 'u) copier" where
  "PodAssignmentRuleSpec_DeepCopy U = DeepCopy_of (PodAssignmentRuleSpec_DeepCopyInto U)"

subsection \<open>DeepCopyObject\<close>

text \<open>The six types are the dynamic types of a \<^verbatim>\<open>runtime.Object\<close>; the copy of a nil pointer is the nil interface.\<close>

datatype 'u hObject =
    HNag "'u hNag" | HNagList "'u hList" | HPar "'u hRule" | HParList "'u hList" | HCpar "'u hRule" | HCparList "'u hList"

definition NodeAssignmentGroup_DeepCopyObject ::
    "'u upstreamCopies \<Rightarrow> 'u hNag option \<Rightarrow> 'u store \<Rightarrow> 'u hObject option \<times> 'u store" where
  "NodeAssignmentGroup_DeepCopyObject U h st =
     (case NodeAssignmentGroup_DeepCopy U h st of (Some c, st1) \<Rightarrow> (Some (HNag c), st1) | (None, st1) \<Rightarrow> (None, st1))"

definition NodeAssignmentGroupList_DeepCopyObject ::
    "'u upstreamCopies \<Rightarrow> 'u hList option \<Rightarrow> 'u store \<Rightarrow> 'u hObject option \<times> 'u store" where
  "NodeAssignmentGroupList_DeepCopyObject U h st =
     (case NodeAssignmentGroupList_DeepCopy U h st of (Some c, st1) \<Rightarrow> (Some (HNagList c), st1) | (None, st1) \<Rightarrow> (None, st1))"

definition PodAssignmentRule_DeepCopyObject ::
    "'u upstreamCopies \<Rightarrow> 'u hRule option \<Rightarrow> 'u store \<Rightarrow> 'u hObject option \<times> 'u store" where
  "PodAssignmentRule_DeepCopyObject U h st =
     (case PodAssignmentRule_DeepCopy U h st of (Some c, st1) \<Rightarrow> (Some (HPar c), st1) | (None, st1) \<Rightarrow> (None, st1))"

definition PodAssignmentRuleList_DeepCopyObject ::
    "'u upstreamCopies \<Rightarrow> 'u hList option \<Rightarrow> 'u store \<Rightarrow> 'u hObject option \<times> 'u store" where
  "PodAssignmentRuleList_DeepCopyObject U h st =
     (case PodAssignmentRuleList_DeepCopy U h st of (Some c, st1) \<Rightarrow> (Some (HParList c), st1) | (None, st1) \<Rightarrow> (None, st1))"

definition ClusterPodAssignmentRule_DeepCopyObject ::
    "'u upstreamCopies \<Rightarrow> 'u hRule option \<Rightarrow> 'u store \<Rightarrow> 'u hObject option \<times> 'u store" where
  "ClusterPodAssignmentRule_DeepCopyObject U h st =
     (case ClusterPodAssignmentRule_DeepCopy U h st of (Some c, st1) \<Rightarrow> (Some (HCpar c), st1) | (None, st1) \<Rightarrow> (None, st1))"

definition ClusterPodAssignmentRuleList_DeepCopyObject ::
    "'u upstreamCopies \<Rightarrow> 'u hList option \<Rightarrow> 'u store \<Rightarrow> 'u hObject option \<times> 'u store" where
  "ClusterPodAssignmentRuleList_DeepCopyObject U h st =
     (case ClusterPodAssignmentRuleList_DeepCopy U h st of (Some c, st1) \<Rightarrow> (Some (HCparList c), st1) | (None, st1) \<Rightarrow> (None, st1))"

text \<open>The method of the interface.\<close>

fun DeepCopyObject :: "'u upstreamCopies \<Rightarrow> 'u hObject \<Rightarrow> 'u store \<Rightarrow> 'u hObject option \<times> 'u store" where
  "DeepCopyObject U (HNag h) st = NodeAssignmentGroup_DeepCopyObject U (Some h) st"
| "DeepCopyObject U (HNagList h) st = NodeAssignmentGroupList_DeepCopyObject U (Some h) st"
| "DeepCopyObject U (HPar h) st = PodAssignmentRule_DeepCopyObject U (Some h) st"
| "DeepCopyObject U (HParList h) st = PodAssignmentRuleList_DeepCopyObject U (Some h) st"
| "DeepCopyObject U (HCpar h) st = ClusterPodAssignmentRule_DeepCopyObject U (Some h) st"
| "DeepCopyObject U (HCparList h) st = ClusterPodAssignmentRuleList_DeepCopyObject U (Some h) st"

section \<open>What a deep copy promises\<close>

definition same_cell :: "nat \<Rightarrow> 'u store \<Rightarrow> 'u store \<Rightarrow> bool" where
  "same_cell a st st' \<longleftrightarrow>
     st_ints st' a = st_ints st a \<and> st_maps st' a = st_maps st a \<and> st_packs st' a = st_packs st a \<and>
     st_assignments st' a = st_assignments st a \<and> st_slices st' a = st_slices st a \<and>
     st_affinities st' a = st_affinities st a \<and> st_tolerations st' a = st_tolerations st a \<and>
     st_nags st' a = st_nags st a \<and> st_rules st' a = st_rules st a \<and> st_upstream st' a = st_upstream st a"

definition grows :: "'u store \<Rightarrow> 'u store \<Rightarrow> bool" where
  "grows st st' \<longleftrightarrow> st_next st \<le> st_next st' \<and> (\<forall>a < st_next st. same_cell a st st')"

lemma same_cell_refl [simp]: "same_cell a st st"
  by (simp add: same_cell_def)

lemma same_cell_trans: "same_cell a st st' \<Longrightarrow> same_cell a st' st'' \<Longrightarrow> same_cell a st st''"
  by (simp add: same_cell_def)

lemma same_cell_next [simp]: "same_cell a st (st'\<lparr>st_next := n\<rparr>) = same_cell a st st'"
  by (simp add: same_cell_def)

lemma grows_refl [simp]: "grows st st"
  by (simp add: grows_def)

lemma grows_trans: "grows st st' \<Longrightarrow> grows st' st'' \<Longrightarrow> grows st st''"
  unfolding grows_def by (metis less_le_trans order_trans same_cell_trans)

text \<open>\<open>read\<close> gives the value a struct stands for, \<open>addrs\<close> the addresses it reaches, \<open>ok\<close> what holds of every
  struct of a Go program. Both depend on nothing but the cells reached; a copy reads the same, lives in cells
  that are all new, and leaves the cells there were as they are.\<close>

locale deep_copy =
  fixes copy :: "'h \<Rightarrow> 'u store \<Rightarrow> 'h \<times> 'u store"
    and read :: "'u store \<Rightarrow> 'h \<Rightarrow> 'v"
    and addrs :: "'u store \<Rightarrow> 'h \<Rightarrow> nat set"
    and ok :: "'u store \<Rightarrow> 'h \<Rightarrow> bool"
  assumes local: "(\<And>a. a \<in> addrs st h \<Longrightarrow> same_cell a st st') \<Longrightarrow>
      read st' h = read st h \<and> addrs st' h = addrs st h \<and> ok st' h = ok st h"
    and copies: "ok st h \<Longrightarrow> addrs st h \<subseteq> {..<st_next st} \<Longrightarrow> copy h st = (h', st') \<Longrightarrow>
      grows st st' \<and> read st' h' = read st h \<and> addrs st' h' \<subseteq> {st_next st..<st_next st'} \<and> ok st' h'"
begin

lemma grown:
  "addrs st h \<subseteq> {..<st_next st} \<Longrightarrow> grows st st' \<Longrightarrow>
   read st' h = read st h \<and> addrs st' h = addrs st h \<and> ok st' h = ok st h"
  by (rule local) (auto simp: grows_def)

text \<open>The copy and the original are independent: writing to cells that are not older than the copy leaves the
  original as it was, writing to older cells leaves the copy.\<close>

lemma isolated:
  assumes "ok st h" and "addrs st h \<subseteq> {..<st_next st}" and "copy h st = (h', st')"
  shows "read st' h' = read st h"
    and "(\<And>a. a < st_next st \<Longrightarrow> same_cell a st' st'') \<Longrightarrow> read st'' h = read st h"
    and "(\<And>a. st_next st \<le> a \<Longrightarrow> same_cell a st' st'') \<Longrightarrow> read st'' h' = read st h"
proof -
  note c = copies [OF assms]
  then show "read st' h' = read st h" by blast
  show "read st'' h = read st h" if "\<And>a. a < st_next st \<Longrightarrow> same_cell a st' st''"
  proof -
    have "same_cell a st st''" if "a \<in> addrs st h" for a
    proof -
      have "a < st_next st" using that assms(2) by auto
      then show ?thesis using c \<open>\<And>a. a < st_next st \<Longrightarrow> same_cell a st' st''\<close>
        unfolding grows_def by (blast intro: same_cell_trans)
    qed
    then show ?thesis using local by blast
  qed
  show "read st'' h' = read st h" if "\<And>a. st_next st \<le> a \<Longrightarrow> same_cell a st' st''"
  proof -
    have "same_cell a st' st''" if "a \<in> addrs st' h'" for a
      using that c \<open>\<And>a. st_next st \<le> a \<Longrightarrow> same_cell a st' st''\<close> by auto
    then show ?thesis using local c by metis
  qed
qed

end

section \<open>The building blocks keep the promise\<close>

locale heap_cell =
  fixes get :: "'u store \<Rightarrow> nat \<Rightarrow> 'h" and put :: "nat \<Rightarrow> 'h \<Rightarrow> 'u store \<Rightarrow> 'u store"
  assumes get_put: "get (put a v st) a = v" and put_next: "st_next (put a v st) = st_next st"
    and put_other: "b \<noteq> a \<Longrightarrow> same_cell b st (put a v st)"
    and get_same: "same_cell a st st' \<Longrightarrow> get st' a = get st a"

interpretation ints: heap_cell st_ints "\<lambda>a v st. st\<lparr>st_ints := (st_ints st)(a := v)\<rparr>"
  by unfold_locales (simp_all add: same_cell_def)
interpretation maps: heap_cell st_maps "\<lambda>a v st. st\<lparr>st_maps := (st_maps st)(a := v)\<rparr>"
  by unfold_locales (simp_all add: same_cell_def)
interpretation packs: heap_cell st_packs "\<lambda>a v st. st\<lparr>st_packs := (st_packs st)(a := v)\<rparr>"
  by unfold_locales (simp_all add: same_cell_def)
interpretation assignments: heap_cell st_assignments "\<lambda>a v st. st\<lparr>st_assignments := (st_assignments st)(a := v)\<rparr>"
  by unfold_locales (simp_all add: same_cell_def)
interpretation slices: heap_cell st_slices "\<lambda>a v st. st\<lparr>st_slices := (st_slices st)(a := v)\<rparr>"
  by unfold_locales (simp_all add: same_cell_def)
interpretation affinities: heap_cell st_affinities "\<lambda>a v st. st\<lparr>st_affinities := (st_affinities st)(a := v)\<rparr>"
  by unfold_locales (simp_all add: same_cell_def)
interpretation tolerations: heap_cell st_tolerations "\<lambda>a v st. st\<lparr>st_tolerations := (st_tolerations st)(a := v)\<rparr>"
  by unfold_locales (simp_all add: same_cell_def)
interpretation nags: heap_cell st_nags "\<lambda>a v st. st\<lparr>st_nags := (st_nags st)(a := v)\<rparr>"
  by unfold_locales (simp_all add: same_cell_def)
interpretation rules: heap_cell st_rules "\<lambda>a v st. st\<lparr>st_rules := (st_rules st)(a := v)\<rparr>"
  by unfold_locales (simp_all add: same_cell_def)

interpretation upstreams: heap_cell st_upstream "\<lambda>a v st. st\<lparr>st_upstream := (st_upstream st)(a := v)\<rparr>"
  by unfold_locales (simp_all add: same_cell_def)

definition ptr_read :: "('u store \<Rightarrow> nat \<Rightarrow> 'h) \<Rightarrow> ('u store \<Rightarrow> 'h \<Rightarrow> 'v) \<Rightarrow> 'u store \<Rightarrow> nat option \<Rightarrow> 'v option" where
  "ptr_read get read st p = map_option (\<lambda>a. read st (get st a)) p"

definition ptr_addrs :: "('u store \<Rightarrow> nat \<Rightarrow> 'h) \<Rightarrow> ('u store \<Rightarrow> 'h \<Rightarrow> nat set) \<Rightarrow> 'u store \<Rightarrow> nat option \<Rightarrow> nat set" where
  "ptr_addrs get addrs st p = (case p of None \<Rightarrow> {} | Some a \<Rightarrow> insert a (addrs st (get st a)))"

definition ptr_ok :: "('u store \<Rightarrow> nat \<Rightarrow> 'h) \<Rightarrow> ('u store \<Rightarrow> 'h \<Rightarrow> bool) \<Rightarrow> 'u store \<Rightarrow> nat option \<Rightarrow> bool" where
  "ptr_ok get ok st p = (case p of None \<Rightarrow> True | Some a \<Rightarrow> ok st (get st a))"

lemma deep_copy_ptr:
  assumes "heap_cell get put" and "deep_copy copy read addrs ok"
  shows "deep_copy (copy_ptr get put copy) (ptr_read get read) (ptr_addrs get addrs) (ptr_ok get ok)"
proof
  fix st st' p
  assume same: "\<And>a. a \<in> ptr_addrs get addrs st p \<Longrightarrow> same_cell a st st'"
  show "ptr_read get read st' p = ptr_read get read st p \<and> ptr_addrs get addrs st' p = ptr_addrs get addrs st p \<and>
      ptr_ok get ok st' p = ptr_ok get ok st p"
  proof (cases p)
    case (Some a)
    have "get st' a = get st a" by (rule heap_cell.get_same [OF assms(1) same]) (simp add: Some ptr_addrs_def)
    moreover have "read st' (get st a) = read st (get st a) \<and> addrs st' (get st a) = addrs st (get st a) \<and>
        ok st' (get st a) = ok st (get st a)"
      by (rule deep_copy.local [OF assms(2) same]) (simp add: Some ptr_addrs_def)
    ultimately show ?thesis by (simp add: Some ptr_read_def ptr_addrs_def ptr_ok_def)
  qed (simp add: ptr_read_def ptr_addrs_def ptr_ok_def)
next
  fix st st' p p'
  assume w: "ptr_ok get ok st p" and a: "ptr_addrs get addrs st p \<subseteq> {..<st_next st}"
    and c: "copy_ptr get put copy p st = (p', st')"
  show "grows st st' \<and> ptr_read get read st' p' = ptr_read get read st p \<and>
      ptr_addrs get addrs st' p' \<subseteq> {st_next st..<st_next st'} \<and> ptr_ok get ok st' p'"
  proof (cases p)
    case None
    then show ?thesis using c by (auto simp: copy_ptr_def ptr_read_def ptr_addrs_def ptr_ok_def)
  next
    case (Some x)
    obtain v st1 where v: "copy (get st x) st = (v, st1)" by force
    let ?n = "st_next st1"
    have new: "p' = Some ?n" "st' = (put ?n v st1)\<lparr>st_next := Suc ?n\<rparr>"
      using c by (simp_all add: Some copy_ptr_def v)
    have h: "ok st (get st x)" "addrs st (get st x) \<subseteq> {..<st_next st}"
      using w a by (simp_all add: Some ptr_ok_def ptr_addrs_def)
    note cp = deep_copy.copies [OF assms(2) h v]
    have other: "same_cell b st1 st'" if "b \<noteq> ?n" for b
      using heap_cell.put_other [OF assms(1) that] by (simp add: new)
    have "same_cell ?n (put ?n v st1) st'" by (simp add: new)
    then have g: "get st' ?n = v"
      using heap_cell.get_same [OF assms(1)] heap_cell.get_put [OF assms(1)] by metis
    have v': "read st' v = read st1 v \<and> addrs st' v = addrs st1 v \<and> ok st' v = ok st1 v"
      by (rule deep_copy.local [OF assms(2)], rule other) (use cp in auto)
    have "grows st1 st'" using other by (auto simp: grows_def new)
    then have "grows st st'" using cp grows_trans by blast
    moreover have "st_next st \<le> ?n" using cp by (simp add: grows_def)
    ultimately show ?thesis
      using cp v' by (auto simp: Some new(1) ptr_read_def ptr_addrs_def ptr_ok_def g) (auto simp: new)
  qed
qed

lemma deep_copy_value: "deep_copy copy_value (\<lambda>st v. v) (\<lambda>st v. {}) (\<lambda>st v. True)"
  by unfold_locales (simp_all add: copy_value_def)

lemma fold_update_fresh:
  "distinct (map fst (acc @ al)) \<Longrightarrow> fold (\<lambda>(k, v). AList.update k v) al acc = acc @ al"
proof (induction al arbitrary: acc)
  case (Cons kv al)
  obtain k v where kv: "kv = (k, v)" by force
  have "k \<notin> fst ` set acc" using Cons.prems by (auto simp: kv)
  then have "AList.update k v acc = acc @ [(k, v)]" by (rule update_append_fresh)
  then show ?case using Cons by (simp add: kv)
qed simp

lemma deep_copy_map: "deep_copy copy_map (\<lambda>st m. m) (\<lambda>st m. {}) (\<lambda>st m. distinct (map fst m))"
  by unfold_locales (simp_all add: copy_map_def fold_update_fresh)

lemma deep_copy_elems:
  assumes "deep_copy copy read addrs ok"
  shows "deep_copy (copy_elems copy) (\<lambda>st. map (read st)) (\<lambda>st xs. \<Union> (addrs st ` set xs)) (\<lambda>st. list_all (ok st))"
proof
  fix st st' xs
  assume same: "\<And>a. a \<in> \<Union> (addrs st ` set xs) \<Longrightarrow> same_cell a st st'"
  have "read st' x = read st x \<and> addrs st' x = addrs st x \<and> ok st' x = ok st x" if "x \<in> set xs" for x
    using deep_copy.local [OF assms, of st x st'] same that by blast
  then show "map (read st') xs = map (read st) xs \<and> \<Union> (addrs st' ` set xs) = \<Union> (addrs st ` set xs) \<and>
      list_all (ok st') xs = list_all (ok st) xs"
    by (auto simp: list_all_iff)
next
  fix st st' xs xs'
  assume "list_all (ok st) xs" "\<Union> (addrs st ` set xs) \<subseteq> {..<st_next st}" "copy_elems copy xs st = (xs', st')"
  then show "grows st st' \<and> map (read st') xs' = map (read st) xs \<and>
      \<Union> (addrs st' ` set xs') \<subseteq> {st_next st..<st_next st'} \<and> list_all (ok st') xs'"
  proof (induction xs arbitrary: st xs')
    case (Cons x xs)
    obtain x' st1 ys where c: "copy x st = (x', st1)" "copy_elems copy xs st1 = (ys, st')" "xs' = x' # ys"
      using Cons.prems(3) by (auto split: prod.splits)
    have x: "grows st st1 \<and> read st1 x' = read st x \<and> addrs st1 x' \<subseteq> {st_next st..<st_next st1} \<and> ok st1 x'"
      using deep_copy.copies [OF assms _ _ c(1)] Cons.prems by simp
    have old: "read st1 y = read st y \<and> addrs st1 y = addrs st y \<and> ok st1 y = ok st y" if "y \<in> set xs" for y
      using deep_copy.grown [OF assms, of st y st1] x Cons.prems(2) that by auto
    have le: "st_next st \<le> st_next st1" using x by (simp add: grows_def)
    have "list_all (ok st1) xs" "\<Union> (addrs st1 ` set xs) \<subseteq> {..<st_next st1}"
      using Cons.prems old le by (auto simp: list_all_iff)
    from Cons.IH [OF this c(2)] have ys: "grows st1 st'" "map (read st') ys = map (read st1) xs"
      "\<Union> (addrs st' ` set ys) \<subseteq> {st_next st1..<st_next st'}" "list_all (ok st') ys" by auto
    have x': "read st' x' = read st1 x' \<and> addrs st' x' = addrs st1 x' \<and> ok st' x' = ok st1 x'"
      by (rule deep_copy.grown [OF assms _ ys(1)]) (use x in auto)
    have "st_next st1 \<le> st_next st'" using ys(1) by (simp add: grows_def)
    then show ?case
      using x ys x' old le grows_trans [of st st1 st'] by (auto simp: c(3) map_eq_conv)
  qed simp
qed

lemma deep_copy_pair:
  assumes "deep_copy c1 r1 a1 ok1" and "deep_copy c2 r2 a2 ok2"
  shows "deep_copy (\<lambda>(x, y) st. case c1 x st of (x', st1) \<Rightarrow> (case c2 y st1 of (y', st2) \<Rightarrow> ((x', y'), st2)))
    (\<lambda>st (x, y). (r1 st x, r2 st y)) (\<lambda>st (x, y). a1 st x \<union> a2 st y) (\<lambda>st (x, y). ok1 st x \<and> ok2 st y)"
proof
  fix st st' h
  assume "\<And>a. a \<in> (case h of (x, y) \<Rightarrow> a1 st x \<union> a2 st y) \<Longrightarrow> same_cell a st st'"
  then show "(case h of (x, y) \<Rightarrow> (r1 st' x, r2 st' y)) = (case h of (x, y) \<Rightarrow> (r1 st x, r2 st y)) \<and>
      (case h of (x, y) \<Rightarrow> a1 st' x \<union> a2 st' y) = (case h of (x, y) \<Rightarrow> a1 st x \<union> a2 st y) \<and>
      (case h of (x, y) \<Rightarrow> ok1 st' x \<and> ok2 st' y) = (case h of (x, y) \<Rightarrow> ok1 st x \<and> ok2 st y)"
    using deep_copy.local [OF assms(1), of st "fst h" st'] deep_copy.local [OF assms(2), of st "snd h" st']
    by (auto simp: split_beta)
next
  fix st st' h h'
  assume w: "case h of (x, y) \<Rightarrow> ok1 st x \<and> ok2 st y" and a: "(case h of (x, y) \<Rightarrow> a1 st x \<union> a2 st y) \<subseteq> {..<st_next st}"
    and c: "(case h of (x, y) \<Rightarrow> \<lambda>st. case c1 x st of (x', st1) \<Rightarrow> (case c2 y st1 of (y', st2) \<Rightarrow> ((x', y'), st2))) st = (h', st')"
  obtain x y where h: "h = (x, y)" by force
  obtain x' st1 y' where cs: "c1 x st = (x', st1)" "c2 y st1 = (y', st')" "h' = (x', y')"
    using c by (auto simp: h split: prod.splits)
  have 1: "grows st st1 \<and> r1 st1 x' = r1 st x \<and> a1 st1 x' \<subseteq> {st_next st..<st_next st1} \<and> ok1 st1 x'"
    using deep_copy.copies [OF assms(1) _ _ cs(1)] w a by (simp add: h)
  have y: "r2 st1 y = r2 st y \<and> a2 st1 y = a2 st y \<and> ok2 st1 y = ok2 st y"
    using deep_copy.grown [OF assms(2), of st y st1] 1 a by (simp add: h)
  have le: "st_next st \<le> st_next st1" using 1 by (simp add: grows_def)
  have "ok2 st1 y" "a2 st1 y \<subseteq> {..<st_next st1}" using w a y le by (auto simp: h)
  from deep_copy.copies [OF assms(2) this cs(2)]
  have 2: "grows st1 st' \<and> r2 st' y' = r2 st1 y \<and> a2 st' y' \<subseteq> {st_next st1..<st_next st'} \<and> ok2 st' y'" .
  have x': "r1 st' x' = r1 st1 x' \<and> a1 st' x' = a1 st1 x' \<and> ok1 st' x' = ok1 st1 x'"
    by (rule deep_copy.grown [OF assms(1)]) (use 1 2 in auto)
  have "st_next st1 \<le> st_next st'" using 2 by (simp add: grows_def)
  then show "grows st st' \<and> (case h' of (x, y) \<Rightarrow> (r1 st' x, r2 st' y)) = (case h of (x, y) \<Rightarrow> (r1 st x, r2 st y)) \<and>
      (case h' of (x, y) \<Rightarrow> a1 st' x \<union> a2 st' y) \<subseteq> {st_next st..<st_next st'} \<and>
      (case h' of (x, y) \<Rightarrow> ok1 st' x \<and> ok2 st' y)"
    using 1 2 x' y le grows_trans [of st st1 st'] by (auto simp: h cs(3))
qed

text \<open>A struct whose fields with pointers are \<open>proj\<close>; the others are copied by the assignment \<^verbatim>\<open>*out = *in\<close>.\<close>

lemma deep_copy_struct:
  assumes "deep_copy c r a w" and "\<And>h st. copy h st = (case c (proj h) st of (t, st1) \<Rightarrow> (upd t h, st1))"
    and "\<And>t h. proj (upd t h) = t" and "\<And>st t h. read st h = f h (r st (proj h))" and "\<And>t h v. f (upd t h) v = f h v"
    and "\<And>st h. addrs st h = a st (proj h)" and "\<And>st h. ok st h = w st (proj h)"
  shows "deep_copy copy read addrs ok"
proof
  fix st st' h
  assume "\<And>x. x \<in> addrs st h \<Longrightarrow> same_cell x st st'"
  then show "read st' h = read st h \<and> addrs st' h = addrs st h \<and> ok st' h = ok st h"
    using deep_copy.local [OF assms(1), of st "proj h" st'] by (simp add: assms(4,6,7))
next
  fix st st' h h'
  assume "ok st h" "addrs st h \<subseteq> {..<st_next st}" "copy h st = (h', st')"
  moreover obtain t where "c (proj h) st = (t, st')" "h' = upd t h"
    using calculation(3) by (auto simp: assms(2) split: prod.splits)
  ultimately show "grows st st' \<and> read st' h' = read st h \<and> addrs st' h' \<subseteq> {st_next st..<st_next st'} \<and> ok st' h'"
    using deep_copy.copies [OF assms(1), of st "proj h" t st'] by (simp add: assms(3-7))
qed

section \<open>The types of the API group\<close>

text \<open>How a struct of an upstream package is seen: the value of a type \<open>'v\<close> it stands for, the addresses it reaches,
  and what holds of every struct of a Go program.\<close>

record ('u, 'v) upView =
  uv_read :: "'u store \<Rightarrow> 'u \<Rightarrow> 'v"
  uv_addrs :: "'u store \<Rightarrow> 'u \<Rightarrow> nat set"
  uv_ok :: "'u store \<Rightarrow> 'u \<Rightarrow> bool"

record ('u, 'v) upViews =
  up_ObjectMeta :: "('u, 'v) upView"
  up_ListMeta :: "('u, 'v) upView"
  up_Affinity :: "('u, 'v) upView"
  up_Toleration :: "('u, 'v) upView"

text \<open>The values of the structs, with nil kept apart from empty.\<close>

type_synonym vLabels = "(string \<times> string) list option"

record vNagSpec =
  vn_TargetLabels :: vLabels
  vn_DefaultAssignment :: "nodeAssignment option"
  vn_Assignments :: "nodeAssignment list option"

record 'v vNag =
  vn_meta :: 'v
  vn_Spec :: vNagSpec
  vn_NumMatched :: int

record 'v vScheduling =
  vs_MergeStrategy :: string
  vs_NodeSelector :: vLabels
  vs_Affinity :: "'v option"
  vs_Tolerations :: "'v list option"

record 'v vRule =
  vr_meta :: 'v
  vr_TargetLabels :: vLabels
  vr_Scheduling :: "'v vScheduling"

abbreviation "int_ptr_read \<equiv> ptr_read st_ints (\<lambda>st v. v)"
abbreviation "int_ptr_addrs \<equiv> ptr_addrs st_ints (\<lambda>st v. {})"
abbreviation "map_ptr_read \<equiv> ptr_read st_maps (\<lambda>st m. m)"
abbreviation "map_ptr_addrs \<equiv> ptr_addrs st_maps (\<lambda>st m. {})"
abbreviation "map_ptr_ok \<equiv> ptr_ok st_maps (\<lambda>st m. distinct (map fst m))"
abbreviation "slice_addrs addrs \<equiv> \<lambda>st xs. \<Union> (addrs st ` set xs)"
abbreviation "slice_ok ok \<equiv> \<lambda>st. list_all (ok st)"

definition read_pack :: "'u store \<Rightarrow> hPackLeft \<Rightarrow> packLeftScheduling" where
  "read_pack st h = \<lparr>pl_FullPercent = int_ptr_read st (hp_FullPercent h), pl_NumAvoid = hp_NumAvoid h,
     pl_PercentAvoid = int_ptr_read st (hp_PercentAvoid h)\<rparr>"

definition addrs_pack :: "'u store \<Rightarrow> hPackLeft \<Rightarrow> nat set" where
  "addrs_pack st h = int_ptr_addrs st (hp_FullPercent h) \<union> int_ptr_addrs st (hp_PercentAvoid h)"

definition read_assignment :: "'u store \<Rightarrow> hNodeAssignment \<Rightarrow> nodeAssignment" where
  "read_assignment st h = \<lparr>na_Name = hna_Name h, na_Mode = hna_Mode h, na_TaintEffect = hna_TaintEffect h,
     na_NumDesired = hna_NumDesired h, na_PercentDesired = hna_PercentDesired h,
     na_SchedulingMode = hna_SchedulingMode h, na_PackLeft = ptr_read st_packs read_pack st (hna_PackLeft h)\<rparr>"

definition addrs_assignment :: "'u store \<Rightarrow> hNodeAssignment \<Rightarrow> nat set" where
  "addrs_assignment st h = ptr_addrs st_packs addrs_pack st (hna_PackLeft h)"

definition read_nagSpec :: "'u store \<Rightarrow> hNagSpec \<Rightarrow> vNagSpec" where
  "read_nagSpec st h = \<lparr>vn_TargetLabels = map_ptr_read st (hns_TargetLabels h),
     vn_DefaultAssignment = ptr_read st_assignments read_assignment st (hns_DefaultAssignment h),
     vn_Assignments = ptr_read st_slices (\<lambda>st. map (read_assignment st)) st (hns_Assignments h)\<rparr>"

definition addrs_nagSpec :: "'u store \<Rightarrow> hNagSpec \<Rightarrow> nat set" where
  "addrs_nagSpec st h = map_ptr_addrs st (hns_TargetLabels h) \<union>
     (ptr_addrs st_assignments addrs_assignment st (hns_DefaultAssignment h) \<union>
      ptr_addrs st_slices (slice_addrs addrs_assignment) st (hns_Assignments h))"

definition ok_nagSpec :: "'u store \<Rightarrow> hNagSpec \<Rightarrow> bool" where
  "ok_nagSpec st h = map_ptr_ok st (hns_TargetLabels h)"

definition read_nag :: "('u, 'v) upViews \<Rightarrow> 'u store \<Rightarrow> 'u hNag \<Rightarrow> 'v vNag" where
  "read_nag V st h = \<lparr>vn_meta = uv_read (up_ObjectMeta V) st (hn_meta h), vn_Spec = read_nagSpec st (hn_Spec h),
     vn_NumMatched = hn_NumMatched h\<rparr>"

definition addrs_nag :: "('u, 'v) upViews \<Rightarrow> 'u store \<Rightarrow> 'u hNag \<Rightarrow> nat set" where
  "addrs_nag V st h = uv_addrs (up_ObjectMeta V) st (hn_meta h) \<union> addrs_nagSpec st (hn_Spec h)"

definition ok_nag :: "('u, 'v) upViews \<Rightarrow> 'u store \<Rightarrow> 'u hNag \<Rightarrow> bool" where
  "ok_nag V st h \<longleftrightarrow> uv_ok (up_ObjectMeta V) st (hn_meta h) \<and> ok_nagSpec st (hn_Spec h)"

definition read_scheduling :: "('u, 'v) upViews \<Rightarrow> 'u store \<Rightarrow> hScheduling \<Rightarrow> 'v vScheduling" where
  "read_scheduling V st h = \<lparr>vs_MergeStrategy = hs_MergeStrategy h, vs_NodeSelector = map_ptr_read st (hs_NodeSelector h),
     vs_Affinity = ptr_read st_affinities (uv_read (up_Affinity V)) st (hs_Affinity h),
     vs_Tolerations = ptr_read st_tolerations (\<lambda>st. map (uv_read (up_Toleration V) st)) st (hs_Tolerations h)\<rparr>"

definition addrs_scheduling :: "('u, 'v) upViews \<Rightarrow> 'u store \<Rightarrow> hScheduling \<Rightarrow> nat set" where
  "addrs_scheduling V st h = map_ptr_addrs st (hs_NodeSelector h) \<union>
     (ptr_addrs st_affinities (uv_addrs (up_Affinity V)) st (hs_Affinity h) \<union>
      ptr_addrs st_tolerations (slice_addrs (uv_addrs (up_Toleration V))) st (hs_Tolerations h))"

definition ok_scheduling :: "('u, 'v) upViews \<Rightarrow> 'u store \<Rightarrow> hScheduling \<Rightarrow> bool" where
  "ok_scheduling V st h \<longleftrightarrow> map_ptr_ok st (hs_NodeSelector h) \<and>
     ptr_ok st_affinities (uv_ok (up_Affinity V)) st (hs_Affinity h) \<and>
     ptr_ok st_tolerations (slice_ok (uv_ok (up_Toleration V))) st (hs_Tolerations h)"

definition read_rule :: "('u, 'v) upViews \<Rightarrow> 'u store \<Rightarrow> 'u hRule \<Rightarrow> 'v vRule" where
  "read_rule V st h = \<lparr>vr_meta = uv_read (up_ObjectMeta V) st (hu_meta h),
     vr_TargetLabels = map_ptr_read st (hr_TargetLabels (hu_Spec h)),
     vr_Scheduling = read_scheduling V st (hr_Scheduling (hu_Spec h))\<rparr>"

definition addrs_ruleSpec :: "('u, 'v) upViews \<Rightarrow> 'u store \<Rightarrow> hRuleSpec \<Rightarrow> nat set" where
  "addrs_ruleSpec V st h = map_ptr_addrs st (hr_TargetLabels h) \<union> addrs_scheduling V st (hr_Scheduling h)"

definition ok_ruleSpec :: "('u, 'v) upViews \<Rightarrow> 'u store \<Rightarrow> hRuleSpec \<Rightarrow> bool" where
  "ok_ruleSpec V st h \<longleftrightarrow> map_ptr_ok st (hr_TargetLabels h) \<and> ok_scheduling V st (hr_Scheduling h)"

definition addrs_rule :: "('u, 'v) upViews \<Rightarrow> 'u store \<Rightarrow> 'u hRule \<Rightarrow> nat set" where
  "addrs_rule V st h = uv_addrs (up_ObjectMeta V) st (hu_meta h) \<union> addrs_ruleSpec V st (hu_Spec h)"

definition ok_rule :: "('u, 'v) upViews \<Rightarrow> 'u store \<Rightarrow> 'u hRule \<Rightarrow> bool" where
  "ok_rule V st h \<longleftrightarrow> uv_ok (up_ObjectMeta V) st (hu_meta h) \<and> ok_ruleSpec V st (hu_Spec h)"

definition read_list ::
    "('u, 'v) upViews \<Rightarrow> ('u store \<Rightarrow> nat \<Rightarrow> 'h list) \<Rightarrow> ('u store \<Rightarrow> 'h \<Rightarrow> 'x) \<Rightarrow> 'u store \<Rightarrow> 'u hList \<Rightarrow> 'v \<times> 'x list option" where
  "read_list V get read st h =
     (uv_read (up_ListMeta V) st (hl_meta h), ptr_read get (\<lambda>st. map (read st)) st (hl_Items h))"

definition addrs_list ::
    "('u, 'v) upViews \<Rightarrow> ('u store \<Rightarrow> nat \<Rightarrow> 'h list) \<Rightarrow> ('u store \<Rightarrow> 'h \<Rightarrow> nat set) \<Rightarrow> 'u store \<Rightarrow> 'u hList \<Rightarrow> nat set" where
  "addrs_list V get addrs st h =
     uv_addrs (up_ListMeta V) st (hl_meta h) \<union> ptr_addrs get (slice_addrs addrs) st (hl_Items h)"

definition ok_list ::
    "('u, 'v) upViews \<Rightarrow> ('u store \<Rightarrow> nat \<Rightarrow> 'h list) \<Rightarrow> ('u store \<Rightarrow> 'h \<Rightarrow> bool) \<Rightarrow> 'u store \<Rightarrow> 'u hList \<Rightarrow> bool" where
  "ok_list V get ok st h \<longleftrightarrow> uv_ok (up_ListMeta V) st (hl_meta h) \<and> ptr_ok get (slice_ok ok) st (hl_Items h)"

text \<open>The structs without upstream parts keep the promise, by the building blocks.\<close>

lemmas deep_copy_int_ptr = deep_copy_ptr [OF ints.heap_cell_axioms deep_copy_value]
lemmas deep_copy_map_ptr = deep_copy_ptr [OF maps.heap_cell_axioms deep_copy_map]

lemma ptr_ok_True [simp]: "ptr_ok get (\<lambda>st h. True) st p"
  by (simp add: ptr_ok_def split: option.split)

lemma ptr_ok_all_True [simp]: "ptr_ok get (\<lambda>st. list_all (\<lambda>h. True)) st p"
  by (simp add: ptr_ok_def list_all_iff split: option.split)

interpretation pack: deep_copy PackLeftScheduling_DeepCopyInto read_pack addrs_pack "\<lambda>st h. True"
proof (rule deep_copy_struct [OF deep_copy_pair [OF deep_copy_int_ptr deep_copy_int_ptr],
    where proj = "\<lambda>h. (hp_FullPercent h, hp_PercentAvoid h)"
      and upd = "\<lambda>(f, p) h. h\<lparr>hp_FullPercent := f, hp_PercentAvoid := p\<rparr>"
      and f = "\<lambda>h (f, p). \<lparr>pl_FullPercent = f, pl_NumAvoid = hp_NumAvoid h, pl_PercentAvoid = p\<rparr>"])
qed (auto simp: PackLeftScheduling_DeepCopyInto_def read_pack_def addrs_pack_def split: prod.split)

interpretation assignment: deep_copy NodeAssignment_DeepCopyInto read_assignment addrs_assignment "\<lambda>st h. True"
proof (rule deep_copy_struct [OF deep_copy_ptr [OF packs.heap_cell_axioms pack.deep_copy_axioms],
    where proj = hna_PackLeft and upd = "\<lambda>p h. h\<lparr>hna_PackLeft := p\<rparr>"
      and f = "\<lambda>h p. \<lparr>na_Name = hna_Name h, na_Mode = hna_Mode h, na_TaintEffect = hna_TaintEffect h,
        na_NumDesired = hna_NumDesired h, na_PercentDesired = hna_PercentDesired h,
        na_SchedulingMode = hna_SchedulingMode h, na_PackLeft = p\<rparr>"])
qed (auto simp: NodeAssignment_DeepCopyInto_def read_assignment_def addrs_assignment_def)

interpretation nagSpec: deep_copy NodeAssignmentGroupSpec_DeepCopyInto read_nagSpec addrs_nagSpec ok_nagSpec
proof (rule deep_copy_struct [OF deep_copy_pair [OF deep_copy_map_ptr deep_copy_pair
      [OF deep_copy_ptr [OF assignments.heap_cell_axioms assignment.deep_copy_axioms]
        deep_copy_ptr [OF slices.heap_cell_axioms deep_copy_elems [OF assignment.deep_copy_axioms]]]],
    where proj = "\<lambda>h. (hns_TargetLabels h, hns_DefaultAssignment h, hns_Assignments h)"
      and upd = "\<lambda>(l, d, s) h. h\<lparr>hns_TargetLabels := l, hns_DefaultAssignment := d, hns_Assignments := s\<rparr>"
      and f = "\<lambda>h (l, d, s). \<lparr>vn_TargetLabels = l, vn_DefaultAssignment = d, vn_Assignments = s\<rparr>"])
qed (auto simp: NodeAssignmentGroupSpec_DeepCopyInto_def read_nagSpec_def addrs_nagSpec_def ok_nagSpec_def split: prod.split)

section \<open>The contract of the upstream packages\<close>

locale upstream =
  fixes U :: "'u upstreamCopies" and V :: "('u, 'v) upViews"
  assumes object_meta: "deep_copy (uc_ObjectMeta U) (uv_read (up_ObjectMeta V)) (uv_addrs (up_ObjectMeta V)) (uv_ok (up_ObjectMeta V))"
    and list_meta: "deep_copy (uc_ListMeta U) (uv_read (up_ListMeta V)) (uv_addrs (up_ListMeta V)) (uv_ok (up_ListMeta V))"
    and affinity: "deep_copy (uc_Affinity U) (uv_read (up_Affinity V)) (uv_addrs (up_Affinity V)) (uv_ok (up_Affinity V))"
    and toleration: "deep_copy (uc_Toleration U) (uv_read (up_Toleration V)) (uv_addrs (up_Toleration V)) (uv_ok (up_Toleration V))"
begin

lemma nag: "deep_copy (NodeAssignmentGroup_DeepCopyInto U) (read_nag V) (addrs_nag V) (ok_nag V)"
proof (rule deep_copy_struct [OF deep_copy_pair [OF object_meta nagSpec.deep_copy_axioms],
    where proj = "\<lambda>h. (hn_meta h, hn_Spec h)" and upd = "\<lambda>(m, s) h. h\<lparr>hn_meta := m, hn_Spec := s\<rparr>"
      and f = "\<lambda>h (m, s). \<lparr>vn_meta = m, vn_Spec = s, vn_NumMatched = hn_NumMatched h\<rparr>"])
qed (auto simp: NodeAssignmentGroup_DeepCopyInto_def read_nag_def addrs_nag_def ok_nag_def split: prod.split)

lemma scheduling:
  "deep_copy (PodAssignmentRuleScheduling_DeepCopyInto U) (read_scheduling V) (addrs_scheduling V) (ok_scheduling V)"
proof (rule deep_copy_struct [OF deep_copy_pair [OF deep_copy_map_ptr deep_copy_pair
      [OF deep_copy_ptr [OF affinities.heap_cell_axioms affinity]
        deep_copy_ptr [OF tolerations.heap_cell_axioms deep_copy_elems [OF toleration]]]],
    where proj = "\<lambda>h. (hs_NodeSelector h, hs_Affinity h, hs_Tolerations h)"
      and upd = "\<lambda>(n, f, ts) h. h\<lparr>hs_NodeSelector := n, hs_Affinity := f, hs_Tolerations := ts\<rparr>"
      and f = "\<lambda>h (n, f, ts). \<lparr>vs_MergeStrategy = hs_MergeStrategy h, vs_NodeSelector = n, vs_Affinity = f, vs_Tolerations = ts\<rparr>"])
qed (auto simp: PodAssignmentRuleScheduling_DeepCopyInto_def read_scheduling_def addrs_scheduling_def ok_scheduling_def
    split: prod.split)

lemma ruleSpec:
  "deep_copy (PodAssignmentRuleSpec_DeepCopyInto U)
    (\<lambda>st h. (map_ptr_read st (hr_TargetLabels h), read_scheduling V st (hr_Scheduling h))) (addrs_ruleSpec V) (ok_ruleSpec V)"
proof (rule deep_copy_struct [OF deep_copy_pair [OF deep_copy_map_ptr scheduling],
    where proj = "\<lambda>h. (hr_TargetLabels h, hr_Scheduling h)" and upd = "\<lambda>(l, s) h. h\<lparr>hr_TargetLabels := l, hr_Scheduling := s\<rparr>"
      and f = "\<lambda>h v. v"])
qed (auto simp: PodAssignmentRuleSpec_DeepCopyInto_def addrs_ruleSpec_def ok_ruleSpec_def split: prod.split)

lemma rule_copies:
  assumes "\<And>h st. copy h st = (case uc_ObjectMeta U (hu_meta h) st of (m, st1) \<Rightarrow>
       (case PodAssignmentRuleSpec_DeepCopyInto U (hu_Spec h) st1 of (s, st2) \<Rightarrow> (h\<lparr>hu_meta := m, hu_Spec := s\<rparr>, st2)))"
  shows "deep_copy copy (read_rule V) (addrs_rule V) (ok_rule V)"
proof (rule deep_copy_struct [OF deep_copy_pair [OF object_meta ruleSpec],
    where proj = "\<lambda>h. (hu_meta h, hu_Spec h)" and upd = "\<lambda>(m, s) h. h\<lparr>hu_meta := m, hu_Spec := s\<rparr>"
      and f = "\<lambda>h (m, l, s). \<lparr>vr_meta = m, vr_TargetLabels = l, vr_Scheduling = s\<rparr>"])
qed (auto simp: assms read_rule_def addrs_rule_def ok_rule_def split: prod.split)

lemmas par = rule_copies [OF PodAssignmentRule_DeepCopyInto_def]
lemmas cpar = rule_copies [OF ClusterPodAssignmentRule_DeepCopyInto_def]

lemma list_copies:
  assumes "heap_cell get put" and "deep_copy copy read addrs ok"
    and "\<And>h st. copyList h st = (case uc_ListMeta U (hl_meta h) st of (m, st1) \<Rightarrow>
       (case copy_ptr get put (copy_elems copy) (hl_Items h) st1 of (xs, st2) \<Rightarrow> (h\<lparr>hl_meta := m, hl_Items := xs\<rparr>, st2)))"
  shows "deep_copy copyList (read_list V get read) (addrs_list V get addrs) (ok_list V get ok)"
proof (rule deep_copy_struct [OF deep_copy_pair [OF list_meta deep_copy_ptr [OF assms(1) deep_copy_elems [OF assms(2)]]],
    where proj = "\<lambda>h. (hl_meta h, hl_Items h)" and upd = "\<lambda>(m, xs) h. h\<lparr>hl_meta := m, hl_Items := xs\<rparr>" and f = "\<lambda>h v. v"])
qed (auto simp: assms(3) read_list_def addrs_list_def ok_list_def split: prod.split)

lemmas nagList = list_copies [OF nags.heap_cell_axioms nag NodeAssignmentGroupList_DeepCopyInto_def]
lemmas parList = list_copies [OF rules.heap_cell_axioms par PodAssignmentRuleList_DeepCopyInto_def]
lemmas cparList = list_copies [OF rules.heap_cell_axioms cpar ClusterPodAssignmentRuleList_DeepCopyInto_def]

end

section \<open>Objects\<close>

datatype 'v vObject =
    VNag "'v vNag" | VNagList "'v \<times> 'v vNag list option" | VPar "'v vRule" | VParList "'v \<times> 'v vRule list option"
  | VCpar "'v vRule" | VCparList "'v \<times> 'v vRule list option"

fun read_object :: "('u, 'v) upViews \<Rightarrow> 'u store \<Rightarrow> 'u hObject \<Rightarrow> 'v vObject" where
  "read_object V st (HNag h) = VNag (read_nag V st h)"
| "read_object V st (HNagList h) = VNagList (read_list V st_nags (read_nag V) st h)"
| "read_object V st (HPar h) = VPar (read_rule V st h)"
| "read_object V st (HParList h) = VParList (read_list V st_rules (read_rule V) st h)"
| "read_object V st (HCpar h) = VCpar (read_rule V st h)"
| "read_object V st (HCparList h) = VCparList (read_list V st_rules (read_rule V) st h)"

fun addrs_object :: "('u, 'v) upViews \<Rightarrow> 'u store \<Rightarrow> 'u hObject \<Rightarrow> nat set" where
  "addrs_object V st (HNag h) = addrs_nag V st h"
| "addrs_object V st (HNagList h) = addrs_list V st_nags (addrs_nag V) st h"
| "addrs_object V st (HPar h) = addrs_rule V st h"
| "addrs_object V st (HParList h) = addrs_list V st_rules (addrs_rule V) st h"
| "addrs_object V st (HCpar h) = addrs_rule V st h"
| "addrs_object V st (HCparList h) = addrs_list V st_rules (addrs_rule V) st h"

text \<open>No map has a key twice, and the upstream structs are as those packages want them.\<close>

fun ok_object :: "('u, 'v) upViews \<Rightarrow> 'u store \<Rightarrow> 'u hObject \<Rightarrow> bool" where
  "ok_object V st (HNag h) \<longleftrightarrow> ok_nag V st h" | "ok_object V st (HNagList h) \<longleftrightarrow> ok_list V st_nags (ok_nag V) st h"
| "ok_object V st (HPar h) \<longleftrightarrow> ok_rule V st h" | "ok_object V st (HParList h) \<longleftrightarrow> ok_list V st_rules (ok_rule V) st h"
| "ok_object V st (HCpar h) \<longleftrightarrow> ok_rule V st h" | "ok_object V st (HCparList h) \<longleftrightarrow> ok_list V st_rules (ok_rule V) st h"

text \<open>The function that copies the struct behind an object.\<close>

fun copy_object :: "'u upstreamCopies \<Rightarrow> ('u hObject, 'u) copier" where
  "copy_object U (HNag h) st = map_prod HNag id (NodeAssignmentGroup_DeepCopyInto U h st)"
| "copy_object U (HNagList h) st = map_prod HNagList id (NodeAssignmentGroupList_DeepCopyInto U h st)"
| "copy_object U (HPar h) st = map_prod HPar id (PodAssignmentRule_DeepCopyInto U h st)"
| "copy_object U (HParList h) st = map_prod HParList id (PodAssignmentRuleList_DeepCopyInto U h st)"
| "copy_object U (HCpar h) st = map_prod HCpar id (ClusterPodAssignmentRule_DeepCopyInto U h st)"
| "copy_object U (HCparList h) st = map_prod HCparList id (ClusterPodAssignmentRuleList_DeepCopyInto U h st)"

lemma DeepCopyObject_copy: "DeepCopyObject U x st = (case copy_object U x st of (c, st') \<Rightarrow> (Some c, st'))"
  by (cases x) (simp_all add: NodeAssignmentGroup_DeepCopyObject_def NodeAssignmentGroup_DeepCopy_def
      NodeAssignmentGroupList_DeepCopyObject_def NodeAssignmentGroupList_DeepCopy_def
      PodAssignmentRule_DeepCopyObject_def PodAssignmentRule_DeepCopy_def
      PodAssignmentRuleList_DeepCopyObject_def PodAssignmentRuleList_DeepCopy_def
      ClusterPodAssignmentRule_DeepCopyObject_def ClusterPodAssignmentRule_DeepCopy_def
      ClusterPodAssignmentRuleList_DeepCopyObject_def ClusterPodAssignmentRuleList_DeepCopy_def
      DeepCopy_of_def split: prod.split)

context upstream
begin

lemmas struct_local = deep_copy.local [OF nag] deep_copy.local [OF nagList] deep_copy.local [OF par]
  deep_copy.local [OF parList]

lemma object: "deep_copy (copy_object U) (read_object V) (addrs_object V) (ok_object V)"
proof
  fix st st' x
  assume s: "\<And>a. a \<in> addrs_object V st x \<Longrightarrow> same_cell a st st'"
  show "read_object V st' x = read_object V st x \<and> addrs_object V st' x = addrs_object V st x \<and>
      ok_object V st' x = ok_object V st x"
    using s struct_local [of st _ st'] by (cases x) auto
next
  fix st st' x x'
  assume c: "ok_object V st x" "addrs_object V st x \<subseteq> {..<st_next st}" "copy_object U x st = (x', st')"
  show "grows st st' \<and> read_object V st' x' = read_object V st x \<and> addrs_object V st' x' \<subseteq> {st_next st..<st_next st'} \<and>
      ok_object V st' x'"
  proof (cases x)
    case (HNag h)
    then show ?thesis using c deep_copy.copies [OF nag, of st h] by (cases "NodeAssignmentGroup_DeepCopyInto U h st") auto
  next
    case (HNagList h)
    then show ?thesis using c deep_copy.copies [OF nagList, of st h] by (cases "NodeAssignmentGroupList_DeepCopyInto U h st") auto
  next
    case (HPar h)
    then show ?thesis using c deep_copy.copies [OF par, of st h] by (cases "PodAssignmentRule_DeepCopyInto U h st") auto
  next
    case (HParList h)
    then show ?thesis using c deep_copy.copies [OF parList, of st h] by (cases "PodAssignmentRuleList_DeepCopyInto U h st") auto
  next
    case (HCpar h)
    then show ?thesis using c deep_copy.copies [OF cpar, of st h] by (cases "ClusterPodAssignmentRule_DeepCopyInto U h st") auto
  next
    case (HCparList h)
    then show ?thesis using c deep_copy.copies [OF cparList, of st h]
      by (cases "ClusterPodAssignmentRuleList_DeepCopyInto U h st") auto
  qed
qed

lemmas object_isolated = deep_copy.isolated [OF object]
lemmas scheduling_isolated = deep_copy.isolated [OF scheduling]

end

section \<open>The properties\<close>

text \<open>C36: a deep copy of an API object, of any of the six types, is equal to it and shares nothing with it, its
  metadata, affinity and tolerations included, provided the upstream packages' own deep copies of those keep that
  promise. The copy reads back as the same object, with nil and empty kept apart; afterwards no write to memory that
  the copy brought in, or that was allocated later, changes the original, and no write to memory that existed before
  changes the copy. The object is assumed to reach allocated memory only, and no map of it to have a key twice.\<close>

theorem DeepCopyObject_isolated:
  assumes "upstream U V" and "ok_object V st x" and "addrs_object V st x \<subseteq> {..<st_next st}"
    and "DeepCopyObject U x st = (c, st')"
  shows "\<exists>x'. c = Some x' \<and> read_object V st' x' = read_object V st x \<and>
    (\<forall>st''. (\<forall>a < st_next st. same_cell a st' st'') \<longrightarrow> read_object V st'' x = read_object V st x) \<and>
    (\<forall>st''. (\<forall>a \<ge> st_next st. same_cell a st' st'') \<longrightarrow> read_object V st'' x' = read_object V st x)"
proof -
  obtain x' where c: "c = Some x'" "copy_object U x st = (x', st')"
    using assms(4) by (auto simp: DeepCopyObject_copy split: prod.splits)
  show ?thesis using upstream.object_isolated [OF assms(1-3) c(2)] c(1) by blast
qed

text \<open>The same for the scheduling part of a rule, which the pod manager copies for every pod.\<close>

lemma PodAssignmentRuleScheduling_DeepCopy_isolated:
  assumes "upstream U V" and "ok_scheduling V st h" and "addrs_scheduling V st h \<subseteq> {..<st_next st}"
    and "PodAssignmentRuleScheduling_DeepCopyInto U h st = (h', st')"
  shows "read_scheduling V st' h' = read_scheduling V st h"
    and "(\<And>a. a < st_next st \<Longrightarrow> same_cell a st' st'') \<Longrightarrow> read_scheduling V st'' h = read_scheduling V st h"
    and "(\<And>a. st_next st \<le> a \<Longrightarrow> same_cell a st' st'') \<Longrightarrow> read_scheduling V st'' h' = read_scheduling V st h"
  by (rule upstream.scheduling_isolated [OF assms]; assumption)+

section \<open>An instance of the upstream packages\<close>

text \<open>Structs with a text, a map (the labels), an integer behind a pointer (the deletion timestamp, or the seconds of a
  toleration) and a pointer to a struct of strings (the finalizers, or the terms of an affinity).\<close>

record upStruct =
  us_Text :: string
  us_Map :: "nat option"
  us_Int :: "nat option"
  us_Inner :: "nat option"
  us_Strings :: "string list"

definition demo_copy :: "(upStruct, upStruct) copier" where
  "demo_copy h st =
     (case copy_map_ptr (us_Map h) st of (m, st1) \<Rightarrow>
       (case copy_int_ptr (us_Int h) st1 of (i, st2) \<Rightarrow>
         (case copy_ptr st_upstream (\<lambda>a v st. st\<lparr>st_upstream := (st_upstream st)(a := v)\<rparr>) copy_value (us_Inner h) st2 of
           (p, st3) \<Rightarrow> (h\<lparr>us_Map := m, us_Int := i, us_Inner := p\<rparr>, st3))))"

definition demo_read :: "upStruct store \<Rightarrow> upStruct \<Rightarrow> string \<times> string list \<times> vLabels \<times> int option \<times> upStruct option" where
  "demo_read st h = (us_Text h, us_Strings h, map_ptr_read st (us_Map h), int_ptr_read st (us_Int h),
     ptr_read st_upstream (\<lambda>st v. v) st (us_Inner h))"

definition demo_addrs :: "upStruct store \<Rightarrow> upStruct \<Rightarrow> nat set" where
  "demo_addrs st h = map_ptr_addrs st (us_Map h) \<union> (int_ptr_addrs st (us_Int h) \<union>
     ptr_addrs st_upstream (\<lambda>st v. {}) st (us_Inner h))"

definition demo_ok :: "upStruct store \<Rightarrow> upStruct \<Rightarrow> bool" where
  "demo_ok st h = map_ptr_ok st (us_Map h)"

lemma deep_copy_demo: "deep_copy demo_copy demo_read demo_addrs demo_ok"
proof (rule deep_copy_struct [OF deep_copy_pair [OF deep_copy_map_ptr deep_copy_pair
      [OF deep_copy_int_ptr deep_copy_ptr [OF upstreams.heap_cell_axioms deep_copy_value]]],
    where proj = "\<lambda>h. (us_Map h, us_Int h, us_Inner h)"
      and upd = "\<lambda>(m, i, p) h. h\<lparr>us_Map := m, us_Int := i, us_Inner := p\<rparr>"
      and f = "\<lambda>h v. (us_Text h, us_Strings h, v)"])
qed (auto simp: demo_copy_def demo_read_def demo_addrs_def demo_ok_def split: prod.split)

definition demo_upstream :: "upStruct upstreamCopies" where
  "demo_upstream = \<lparr>uc_ObjectMeta = demo_copy, uc_ListMeta = demo_copy, uc_Affinity = demo_copy, uc_Toleration = demo_copy\<rparr>"

definition demo_views :: "(upStruct, string \<times> string list \<times> vLabels \<times> int option \<times> upStruct option) upViews" where
  "demo_views = (let v = \<lparr>uv_read = demo_read, uv_addrs = demo_addrs, uv_ok = demo_ok\<rparr>
     in \<lparr>up_ObjectMeta = v, up_ListMeta = v, up_Affinity = v, up_Toleration = v\<rparr>)"

interpretation demo_up: upstream demo_upstream demo_views
  by (rule upstream.intro) (simp_all add: demo_upstream_def demo_views_def Let_def deep_copy_demo)

section \<open>Witness\<close>

text \<open>A rule whose metadata has a map of labels at address 0 and finalizers at 1, and whose affinity at 2 has its terms
  at 3.\<close>

definition demo_inner :: "string list \<Rightarrow> upStruct" where
  "demo_inner ss = \<lparr>us_Text = '''', us_Map = None, us_Int = None, us_Inner = None, us_Strings = ss\<rparr>"

definition demo_hrule :: "upStruct hRule" where
  "demo_hrule = \<lparr>hu_meta = (demo_inner [])\<lparr>us_Text := ''web'', us_Map := Some 0, us_Inner := Some 1\<rparr>,
     hu_Spec = \<lparr>hr_TargetLabels = None, hr_Scheduling = \<lparr>hs_MergeStrategy = '''', hs_NodeSelector = None,
       hs_Affinity = Some 2, hs_Tolerations = None\<rparr>\<rparr>\<rparr>"

definition demo_store :: "upStruct store" where
  "demo_store = \<lparr>st_next = 4, st_ints = (\<lambda>a. 80), st_maps = (\<lambda>a. [(''app'', ''web'')]),
     st_packs = (\<lambda>a. \<lparr>hp_FullPercent = None, hp_NumAvoid = 1, hp_PercentAvoid = None\<rparr>),
     st_assignments = (\<lambda>a. \<lparr>hna_Name = ''fast'', hna_Mode = '''', hna_TaintEffect = '''', hna_NumDesired = 1,
        hna_PercentDesired = 0, hna_SchedulingMode = '''', hna_PackLeft = None\<rparr>),
     st_slices = (\<lambda>a. []), st_affinities = (\<lambda>a. (demo_inner [])\<lparr>us_Inner := Some 3\<rparr>), st_tolerations = (\<lambda>a. []),
     st_nags = (\<lambda>a. []), st_rules = (\<lambda>a. []), st_upstream = (\<lambda>a. demo_inner [if a = 1 then ''finalizer'' else ''term''])\<rparr>"

text \<open>Overwriting the labels, the finalizers and the terms of the original does not change the copy.\<close>

theorem DeepCopyObject_isolated_witness:
  "\<exists>x' st'. DeepCopyObject demo_upstream (HPar demo_hrule) demo_store = (Some x', st') \<and>
     read_object demo_views (st'\<lparr>st_maps := (st_maps st')(0 := []),
       st_upstream := (st_upstream st')(1 := demo_inner [], 3 := demo_inner [''other''])\<rparr>) x' =
     read_object demo_views demo_store (HPar demo_hrule)"
proof -
  have v: "ok_object demo_views demo_store (HPar demo_hrule)"
    "addrs_object demo_views demo_store (HPar demo_hrule) \<subseteq> {..<st_next demo_store}"
    by (simp_all add: demo_views_def Let_def demo_store_def demo_hrule_def demo_inner_def demo_ok_def demo_addrs_def ok_rule_def
        ok_ruleSpec_def ok_scheduling_def ptr_ok_def addrs_rule_def addrs_ruleSpec_def addrs_scheduling_def ptr_addrs_def)
  obtain c st' where c: "DeepCopyObject demo_upstream (HPar demo_hrule) demo_store = (c, st')" by force
  let ?w = "st'\<lparr>st_maps := (st_maps st')(0 := []),
       st_upstream := (st_upstream st')(1 := demo_inner [], 3 := demo_inner [''other''])\<rparr>"
  have "\<forall>a \<ge> st_next demo_store. same_cell a st' ?w" by (simp add: same_cell_def demo_store_def)
  then show ?thesis using DeepCopyObject_isolated [OF demo_up.upstream_axioms v c] c by blast
qed

end
