(* ===== verification/Spec2Isabelle.thy ===== *)
theory Spec2Isabelle
  imports Startup Workers Convergence StaleTaints FakeClients Informers Examples Finalizers DeepCopy
begin

text \<open>
  kube-valet labels and taints the nodes of a Kubernetes cluster according to groups of node assignments, rewrites
  the scheduling fields of pods in an admission webhook, and packs pods onto few nodes. This library models the
  program and proves what it promises, and where it does not keep its promises.

  \<^bold>\<open>The program.\<close> \<^verbatim>\<open>main.go\<close> reads the flags and builds the clients; \<^verbatim>\<open>KubeValet.Run\<close> (\<^verbatim>\<open>controller.go\<close>) starts the
  resource watcher, the webhook and the leader election. The resource watcher holds one informer and one cache for
  pods, nodes, node assignment groups and the two kinds of pod rules, and passes every event to the controllers
  registered for its kind; controllers are registered only while the process is the leader. A controller turns an
  event into keys on its retrying work queue; a worker takes a key, looks the object up in the cache and calls the
  manager: \<^verbatim>\<open>ReconcileNag\<close> distributes the nodes of a group over its assignments, \<^verbatim>\<open>RebalanceNag\<close> marks the nodes
  of a PackLeft assignment as to be used, avoided or denied. Both write to the API server by merge patches, whose
  events come back through the informers. The webhook asks the pod manager, which reads the rule caches, for the
  JSON patch of a pod. \<^verbatim>\<open>valetctl\<close> creates groups and rules and prints reports.

  \<^bold>\<open>The theories\<close>, each with the file it models; records, constructors and functions have the names of the source,
  a field of a struct is prefixed by an abbreviation of the struct:

  \<^item> \<^verbatim>\<open>Prelude\<close>: panics as \<open>gopanic + 'a\<close>, Go errors as \<open>goerr option\<close>, Go maps as association lists that may be nil,
    64-bit wrap-around, the \<^verbatim>\<open>strings\<close> functions; \<^verbatim>\<open>GoFloat\<close>: rounding to 24 and 53 bits.
  \<^item> \<^verbatim>\<open>ApiTypes\<close>: \<^verbatim>\<open>types.go\<close> and the constants of \<^verbatim>\<open>register.go\<close>; \<^verbatim>\<open>Helpers\<close>: \<^verbatim>\<open>helpers.go\<close> up to node assignment;
    \<^verbatim>\<open>Utils\<close>: \<^verbatim>\<open>pkg/utils\<close>; \<^verbatim>\<open>DeepCopy\<close>: \<^verbatim>\<open>zz_generated.deepcopy.go\<close> on a store with addresses,
    over upstream structs it does not look into.
  \<^item> \<^verbatim>\<open>KubeApi\<close>: the clients the controllers call, as a record of functions, with their contracts as locales.
  \<^item> \<^verbatim>\<open>WriterContext\<close>: \<^verbatim>\<open>nodeassignment/writer_context.go\<close>. \<^verbatim>\<open>Plan\<close> is its abstract specification,
    \<^verbatim>\<open>ReconcileRefinement\<close>, \<^verbatim>\<open>UpdateRefinement\<close> and \<^verbatim>\<open>NodeFrame\<close> prove that the code implements it and touches
    nothing else. \<^verbatim>\<open>NodeAssignment\<close>: \<^verbatim>\<open>manager.go\<close> and \<^verbatim>\<open>controller.go\<close> beside it.
  \<^item> \<^verbatim>\<open>Queue\<close>: \<^verbatim>\<open>pkg/queues\<close>, one worker; \<^verbatim>\<open>Workers\<close>: its parallel workers. \<^verbatim>\<open>GroupCache\<close>: what a reconciliation writes into
    the cached group; \<^verbatim>\<open>GroupFrame\<close>: what it does to the groups on the server; \<^verbatim>\<open>StaleTaints\<close>: to the taints of the
    nodes; \<^verbatim>\<open>Convergence\<close>: the queue with the node assignment controller and its cache behind it.
  \<^item> \<^verbatim>\<open>PackLeft\<close>, \<^verbatim>\<open>PackLeftProofs\<close>, \<^verbatim>\<open>PackLeftController\<close>: \<^verbatim>\<open>pkg/controller/scheduling/packleft\<close> and \<^verbatim>\<open>pkg/metrics\<close>.
  \<^item> \<^verbatim>\<open>PodRules\<close>: the rest of \<^verbatim>\<open>helpers.go\<close> and \<^verbatim>\<open>pkg/controller/podassignment\<close>; \<^verbatim>\<open>Webhook\<close>: \<^verbatim>\<open>pkg/webhook\<close>.
  \<^item> \<^verbatim>\<open>ResourceWatcher\<close>: \<^verbatim>\<open>resource_watcher.go\<close>, \<^verbatim>\<open>types.go\<close>, \<^verbatim>\<open>pkg/config\<close>; \<^verbatim>\<open>KubeValet\<close>: \<^verbatim>\<open>main.go\<close> and
    \<^verbatim>\<open>controller.go\<close> as a state machine of events, workers and election callbacks; \<^verbatim>\<open>Startup\<close>: the same two files
    from the arguments to the first state of that machine, with the declared flags.
  \<^item> \<^verbatim>\<open>Valetctl\<close>: \<^verbatim>\<open>bin/valetctl.go\<close>.
  \<^item> \<^verbatim>\<open>TypedClients\<close>: the generated clients of the three resources, each method as the request it builds.
    \<^verbatim>\<open>RestStore\<close> has their specification and the contract of a REST server, \<^verbatim>\<open>RestMem\<close> an executable server and the
    properties. \<^verbatim>\<open>ClientSet\<close>: \<^verbatim>\<open>clientset.go\<close>, \<^verbatim>\<open>assignments_client.go\<close>, the two \<^verbatim>\<open>register.go\<close>. \<^verbatim>\<open>Informers\<close>: the
    shared informer factory, the informers and the listers under \<^verbatim>\<open>pkg/client\<close>. \<^verbatim>\<open>FakeClients\<close>: the fake clientset. \<^verbatim>\<open>Examples\<close>: the programs under
    \<^verbatim>\<open>_examples\<close>, which put the clientset, a client and the retry helper together.
  \<^item> \<^verbatim>\<open>Finalizers\<close>: the finalizer functions of the two managers together, over the typed client and a REST server.

  \<^bold>\<open>State.\<close> The API server is a type parameter \<open>'s\<close>, read through a view (\<open>node_api\<close>, \<open>nag_api\<close>); every call may fail
  unless a theorem assumes \<open>reliable_node_api\<close>. A work queue is a parameter \<open>'q\<close> with the contract
  \<open>rate_limited_queue\<close>. Caches are lists. The process state is \<open>resourceWatcher\<close> with three queues, and its runs
  are \<open>kv_reach\<close>; workers run on the queues \<^verbatim>\<open>Run\<close> of the watcher started them on, and nothing else takes a key out of
  a queue. The goroutine of the webhook serves beside the main one and may end the process. Code that is not in the repository (client-go, the JSON and admission libraries, kingpin,
  Prometheus) is a record field or an argument, and its documented behaviour the assumptions of a locale, each
  interpreted on an executable instance; concrete witnesses evaluate on those instances.

  \<^bold>\<open>What is shown.\<close> For node assignment: a reconciliation computes exactly the abstract plan, gives every assignment
  the nodes it asks for while there are any, is stable, never changes what is not the group's, cleans up on
  deletion, and never wakes itself; a worker that drains its queue on a reliable server leaves every group where a
  reconciliation can bring it: settled, cleaned up, or, when it is new, with the finalizer that has it served next.
  For PackLeft: the result does not depend on the sort or on cache order, the
  states are one block each of use, avoid and deny, and no input panics. For queues: each key is tried at most six
  times, a worker drains its queue, and parallel workers neither share nor lose a key. For pods: the patch, applied as RFC 6902 says, has the effect of the rules on a pod
  that has the fields they set and is rejected for any other, through the webhook up to the object the API server stores. For the process: registration follows leadership, events reach exactly the right
  queues, a woken group is processed, and the command line of the shipped manifest starts it, the webhook included. For the command line: what a user writes is read back, and a required
  assignment and the taints of the nodes fit together. For deep copies: the copy shares nothing with the original,
  if the upstream packages' copies of their structs share nothing.
  For the clients: each method reads, writes, lists or watches exactly what its arguments name, so that they act on three
  independent maps; the group client keeps the contract \<open>nag_api\<close> the managers are verified against; the fake
  clients meet the same specification on an object tracker; a factory shares its informers and runs each once; and
  the example program changes one rule only. A group that is being deleted stays on the server until both managers
  have taken their finalizers off.

  \<^bold>\<open>Bounds.\<close> \<^verbatim>\<open>int\<close> arithmetic wraps at 64 bits; the number of desired nodes is exact integer arithmetic while the
  \<^verbatim>\<open>float32\<close> operands are below \<open>2^24\<close>, and rounds above. A key is put back while it failed fewer than five
  times. \<open>runWorker\<close> takes the number of items to process as fuel: \<open>worker_drains\<close> computes how much is
  enough from the attempts left to the pending keys. \<^verbatim>\<open>ParseInt\<close> is bounded by 32 bits. The loops that serve HTTP never
  return, which is the value \<open>None\<close> of \<open>serve_loop\<close>.

  \<^bold>\<open>Where the code falls short\<close>: a node moved from a tainting to a label-only assignment keeps its taint;
  \<^verbatim>\<open>Reconcile\<close> hides failed writes and a failed clean-up does not stop the removal of the finalizer; protecting a node
  wakes nobody; the election resync queues nothing; delete handlers panic on tombstones; the queue of the pod rule
  controller is never served; the webhook dereferences nil on a body it cannot decode; its patch uses replace for
  absent fields; \<^verbatim>\<open>valetctl\<close> ignores \<^verbatim>\<open>--kubeconfig\<close>;
  \<^verbatim>\<open>NewForConfigOrDie\<close> accepts configurations that \<^verbatim>\<open>NewForConfig\<close> refuses; a reconciliation writes into the informer's
  cache; two flags are never read; bad election timings panic after the start; and the example panics when a read
  fails. Each is a theorem.

  \<^bold>\<open>Not modelled\<close>: logging; the help texts of the flags; sockets and TLS beyond the settings;
  goroutines and channels as such (their effect is the interleaving of \<open>kv_step\<close> and \<open>pool_step\<close>); the construction of
  list-watches for the caches of the resource watcher, which are given by their content; the OpenAPI printer and the tests.
\<close>

end
